(* ===== verification/Prelude.thy ===== *)
theory Prelude
  imports Main "HOL-Library.Char_ord" "HOL-Library.List_Lexorder" "HOL-Library.Product_Lexorder"
begin

text \<open>
  The shared vocabulary of the development: fact collections, the two relational-database
  primitives every repository uses (\<open>UPDATE \<dots> WHERE\<close> and \<open>SELECT \<dots> ORDER BY \<dots> LIMIT\<close>
  over a table kept as a list of rows in insertion order), and Go's clock units.
  A table is a list because SQL row order is visible through \<open>LIMIT\<close>.
\<close>

named_theorems sql_simps \<open>rewriting of table updates, selections and row counts\<close>
named_theorems status_simps \<open>evaluation of the task-status predicates\<close>
named_theorems wf_intros \<open>preservation of table well-formedness by each operation\<close>

type_synonym nanos = int

definition Second :: nanos where "Second = 1000000000"

definition Minute :: nanos where "Minute = 60 * Second"

definition Hour :: nanos where "Hour = 60 * Minute"

lemmas clock_units = Second_def Minute_def Hour_def

section \<open>Decimal text\<close>

text \<open>Go's \<open>%d\<close> and \<open>strconv.Itoa\<close>.\<close>

fun show_nat :: "nat \<Rightarrow> string" where
  "show_nat n = (if n < 10 then [char_of (48 + n)] else show_nat (n div 10) @ [char_of (48 + n mod 10)])"

declare show_nat.simps [simp del]

definition show_int :: "int \<Rightarrow> string" where
  "show_int i = (if i < 0 then CHR ''-'' # show_nat (nat (- i)) else show_nat (nat i))"

section \<open>SQL primitives over a table of rows\<close>

text \<open>\<open>UPDATE t SET f WHERE P\<close> and the row count it reports.\<close>

definition sql_update :: "('r \<Rightarrow> bool) \<Rightarrow> ('r \<Rightarrow> 'r) \<Rightarrow> 'r list \<Rightarrow> 'r list" where
  "sql_update P f t = map (\<lambda>r. if P r then f r else r) t"

definition rows_affected :: "('r \<Rightarrow> bool) \<Rightarrow> 'r list \<Rightarrow> nat" where
  "rows_affected P t = length (filter P t)"

text \<open>\<open>SELECT * FROM t WHERE P ORDER BY k ASC LIMIT n\<close>; a negative \<open>LIMIT\<close> is no limit.\<close>

definition sql_limit :: "int \<Rightarrow> 'r list \<Rightarrow> 'r list" where
  "sql_limit n t = (if n < 0 then t else take (nat n) t)"

definition select_asc :: "('r \<Rightarrow> bool) \<Rightarrow> ('r \<Rightarrow> 'k::linorder) \<Rightarrow> 'r list \<Rightarrow> 'r list" where
  "select_asc P k t = sort_key k (filter P t)"

text \<open>Descending order; rows with equal keys keep their table order.\<close>

definition select_desc :: "('r \<Rightarrow> bool) \<Rightarrow> ('r \<Rightarrow> 'k::linorder) \<Rightarrow> 'r list \<Rightarrow> 'r list" where
  "select_desc P k t = rev (sort_key k (rev (filter P t)))"

text \<open>\<open>QueryRow(\<dots>).Scan\<close>: the first row, or none (\<open>sql.ErrNoRows\<close>).\<close>

definition query_row :: "'r list \<Rightarrow> 'r option" where
  "query_row t = (case t of [] \<Rightarrow> None | r # _ \<Rightarrow> Some r)"

section \<open>Laws of the primitives\<close>

lemma length_sql_update [simp]: "length (sql_update P f t) = length t"
  by (simp add: sql_update_def)

lemma sql_update_Nil [simp]: "sql_update P f [] = []"
  by (simp add: sql_update_def)

lemma sql_update_Cons [simp]:
  "sql_update P f (r # t) = (if P r then f r else r) # sql_update P f t"
  by (simp add: sql_update_def)

lemma sql_update_id [sql_simps]: "(\<And>r. r \<in> set t \<Longrightarrow> \<not> P r) \<Longrightarrow> sql_update P f t = t"
  by (induction t) auto

lemma in_set_sql_update:
  "r \<in> set (sql_update P f t) \<longleftrightarrow> (r \<in> set t \<and> \<not> P r) \<or> (\<exists>r0 \<in> set t. P r0 \<and> r = f r0)"
  by (auto simp: sql_update_def)

lemma sql_update_cong: "(\<And>r. r \<in> set t \<Longrightarrow> P r \<Longrightarrow> f r = g r) \<Longrightarrow> sql_update P f t = sql_update P g t"
  by (induction t) auto

lemma sql_update_twice: "(\<And>r. P (f r) = P r) \<Longrightarrow> sql_update P g (sql_update P f t) = sql_update P (\<lambda>r. g (f r)) t"
  by (induction t) auto

lemma map_sql_update [sql_simps]:
  "(\<And>r. P r \<Longrightarrow> k (f r) = k r) \<Longrightarrow> map k (sql_update P f t) = map k t"
  by (induction t) auto

lemma rows_affected_0_iff [sql_simps]: "rows_affected P t = 0 \<longleftrightarrow> (\<forall>r \<in> set t. \<not> P r)"
  by (simp add: rows_affected_def filter_empty_conv)

lemma rows_affected_pos_iff [sql_simps]: "0 < rows_affected P t \<longleftrightarrow> (\<exists>r \<in> set t. P r)"
  using rows_affected_0_iff [of P t] by fastforce

lemma query_row_None [simp]: "query_row t = None \<longleftrightarrow> t = []"
  by (simp add: query_row_def split: list.splits)

lemma query_row_Some: "query_row t = Some r \<longleftrightarrow> (\<exists>t'. t = r # t')"
  by (auto simp: query_row_def split: list.splits)

lemma query_row_in_set: "query_row t = Some r \<Longrightarrow> r \<in> set t"
  by (auto simp: query_row_Some)

lemma set_select_asc [simp]: "set (select_asc P k t) = {r \<in> set t. P r}"
  by (simp add: select_asc_def)

lemma set_select_desc [simp]: "set (select_desc P k t) = {r \<in> set t. P r}"
  by (simp add: select_desc_def)

lemma length_select_desc: "length (select_desc P k t) = length (filter P t)"
  by (simp add: select_desc_def rev_filter [symmetric])

text \<open>A row on the first page of a descending listing has fewer than a page of selected rows above it.\<close>

lemma select_desc_page:
  assumes "x \<in> set (take n (select_desc P k t))"
  shows "length (filter (\<lambda>y. P y \<and> k x < k y) t) < n"
proof -
  let ?L = "select_desc P k t"
  have "sorted (rev (map k ?L))" by (simp add: select_desc_def rev_map)
  then have desc: "sorted_wrt (\<ge>) (map k ?L)" by (simp add: sorted_wrt_rev)
  from assms obtain j where j: "j < n" "j < length ?L" "?L ! j = x" by (auto simp: in_set_conv_nth)
  have below: "\<not> k x < k y" if "y \<in> set (drop j ?L)" for y
  proof -
    from that obtain i where "i < length ?L - j" "y = ?L ! (j + i)" by (auto simp: in_set_conv_nth)
    then have "k y \<le> k (?L ! j)" using desc j(2)
      by (cases "i = 0") (simp_all add: sorted_wrt_iff_nth_less)
    then show ?thesis using j(3) by simp
  qed
  have "length (filter (\<lambda>y. k x < k y) ?L) = length (filter (\<lambda>y. k x < k y) (take j ?L @ drop j ?L))" by simp
  also have "\<dots> = length (filter (\<lambda>y. k x < k y) (take j ?L))"
    unfolding filter_append using below by (simp add: filter_empty_conv)
  also have "\<dots> \<le> j" by (rule order_trans [OF length_filter_le]) simp
  finally have "length (filter (\<lambda>y. k x < k y) ?L) < n" using j(1) by simp
  moreover have "length (filter (\<lambda>y. k x < k y) ?L) = length (filter (\<lambda>y. P y \<and> k x < k y) t)"
    by (simp add: select_desc_def rev_filter [symmetric] filter_sort conj_commute)
  ultimately show ?thesis by simp
qed

lemma select_asc_empty: "select_asc P k t = [] \<longleftrightarrow> (\<forall>r \<in> set t. \<not> P r)"
proof -
  have "select_asc P k t = [] \<longleftrightarrow> set (select_asc P k t) = {}"
    by (simp only: set_empty)
  then show ?thesis by auto
qed

lemma sorted_select_asc: "sorted (map k (select_asc P k t))"
  by (simp add: select_asc_def)

text \<open>\<open>ORDER BY k LIMIT 1\<close> returns a row no other selected row precedes.\<close>

lemma query_row_select_asc_least:
  assumes "query_row (select_asc P k t) = Some r"
  shows "r \<in> set t \<and> P r \<and> (\<forall>r' \<in> set t. P r' \<longrightarrow> k r \<le> k r')"
proof -
  from assms obtain t' where sel: "select_asc P k t = r # t'"
    by (auto simp: query_row_Some)
  have "sorted (map k (r # t'))"
    using sorted_select_asc [of k P t] by (simp only: sel)
  then have least: "\<forall>r' \<in> set (r # t'). k r \<le> k r'" by auto
  have elems: "set (r # t') = {r \<in> set t. P r}"
    using set_select_asc [of P k t] by (simp only: sel)
  from elems have "r \<in> set t \<and> P r" by auto
  with least show ?thesis unfolding elems by blast
qed

lemma set_sql_limit: "set (sql_limit n t) \<subseteq> set t"
  by (auto simp: sql_limit_def dest: in_set_takeD)

lemma length_sql_limit: "0 \<le> n \<Longrightarrow> length (sql_limit n t) \<le> nat n"
  by (simp add: sql_limit_def)

text \<open>A row is found by its key through \<^const>\<open>sql_update\<close> when the key is unique.\<close>

lemma distinct_key_eq:
  "distinct (map k t) \<Longrightarrow> r \<in> set t \<Longrightarrow> r' \<in> set t \<Longrightarrow> k r = k r' \<Longrightarrow> r = r'"
  by (auto simp: distinct_map dest: inj_onD)

lemma filter_key_unique:
  "distinct (map k t) \<Longrightarrow> r \<in> set t \<Longrightarrow> filter (\<lambda>x. k x = k r) t = [r]"
proof (induction t)
  case Nil
  then show ?case by simp
next
  case (Cons a t)
  show ?case
  proof (cases "a = r")
    case True
    with Cons.prems have "filter (\<lambda>x. k x = k r) t = []"
      by (auto simp: filter_empty_conv image_iff)
    with True show ?thesis by simp
  next
    case False
    with Cons.prems have "r \<in> set t" by simp
    with Cons.prems(1) have "k a \<noteq> k r" by force
    with Cons \<open>r \<in> set t\<close> show ?thesis by simp
  qed
qed

lemma length_filter_sql_update_same:
  "(\<And>r. r \<in> set t \<Longrightarrow> P r \<Longrightarrow> Q (f r) \<longleftrightarrow> Q r) \<Longrightarrow>
   length (filter Q (sql_update P f t)) = length (filter Q t)"
  by (induction t) auto

text \<open>Updating the one row with a given key adds at most one row to any count.\<close>

lemma length_filter_sql_update_key:
  assumes "distinct (map k t)"
  shows "length (filter Q (sql_update (\<lambda>r. k r = x \<and> P r) f t)) \<le> Suc (length (filter Q t))"
  using assms
proof (induction t)
  case Nil
  then show ?case by simp
next
  case (Cons a t)
  show ?case
  proof (cases "k a = x")
    case True
    with Cons.prems have "\<And>r. r \<in> set t \<Longrightarrow> \<not> (k r = x \<and> P r)"
      by (auto simp: image_iff)
    then have "sql_update (\<lambda>r. k r = x \<and> P r) f t = t" by (rule sql_update_id)
    then show ?thesis by simp
  next
    case False
    with Cons show ?thesis by auto
  qed
qed

end
