(* ===== verification/TaskModel.thy ===== *)
theory TaskModel
  imports Prelude
begin

text \<open>
  The persistence data model of \<^verbatim>\<open>src/internal/persistence/models.go\<close> and
  \<^verbatim>\<open>interfaces_task.go\<close>: task and execution statuses, the task row, the option structs
  of the repository operations and the repository errors. Go's string-typed enumerations are
  datatypes with one constructor per declared constant and an \<open>Other\<close> constructor for every
  other string (the empty string included), since the Go types do not exclude them. Pointers are
  options, \<open>[]byte\<close> is a byte string, and \<open>time.Time\<close> is a count of nanoseconds, with the Go
  zero time as \<open>0\<close>.
\<close>

datatype task_status =
    TaskStatusPending
  | TaskStatusQueued
  | TaskStatusLeased
  | TaskStatusRunning
  | TaskStatusWaitingForChildren
  | TaskStatusCompleted
  | TaskStatusFailed
  | TaskStatusCancelled
  | TaskStatusAwaitingInput
  | TaskStatusAwaitingExternal
  | TaskStatusPaused
  | TaskStatusClosed
  | TaskStatusAwaitingApproval
  | TaskStatusOther string

text \<open>The strings the declared constants stand for: what the \<open>CHECK\<close> on the status column admits.\<close>

definition declared_status :: "task_status \<Rightarrow> bool" where
  "declared_status s \<longleftrightarrow> (case s of TaskStatusOther _ \<Rightarrow> False | _ \<Rightarrow> True)"

fun status_text :: "task_status \<Rightarrow> string" where
  "status_text TaskStatusPending = ''PENDING''"
| "status_text TaskStatusQueued = ''QUEUED''"
| "status_text TaskStatusLeased = ''LEASED''"
| "status_text TaskStatusRunning = ''RUNNING''"
| "status_text TaskStatusWaitingForChildren = ''WAITING_FOR_CHILDREN''"
| "status_text TaskStatusCompleted = ''COMPLETED''"
| "status_text TaskStatusFailed = ''FAILED''"
| "status_text TaskStatusCancelled = ''CANCELLED''"
| "status_text TaskStatusAwaitingInput = ''AWAITING_INPUT''"
| "status_text TaskStatusAwaitingExternal = ''AWAITING_EXTERNAL''"
| "status_text TaskStatusPaused = ''PAUSED''"
| "status_text TaskStatusClosed = ''CLOSED''"
| "status_text TaskStatusAwaitingApproval = ''AWAITING_APPROVAL''"
| "status_text (TaskStatusOther s) = s"

datatype execution_status =
    ExecutionStatusPending
  | ExecutionStatusRunning
  | ExecutionStatusPaused
  | ExecutionStatusCompleted
  | ExecutionStatusFailed
  | ExecutionStatusCancelled
  | ExecutionStatusOther string

fun IsLive :: "execution_status \<Rightarrow> bool" where
  "IsLive ExecutionStatusPending = True"
| "IsLive ExecutionStatusRunning = True"
| "IsLive ExecutionStatusPaused = True"
| "IsLive _ = False"

datatype task_creation_source =
    TaskCreationSourceUser
  | TaskCreationSourceDelegation
  | TaskCreationSourceAutonomous
  | TaskCreationSourceCheckpoint
  | TaskCreationSourceRoute
  | TaskCreationSourceFork
  | TaskCreationSourceA2A
  | TaskCreationSourceCompanion
  | TaskCreationSourceOther string

datatype delegation_mode =
    DelegationModeSequential
  | DelegationModeParallel
  | DelegationModeFanOut
  | DelegationModeOther string

record task =
  task_ID :: string
  task_ProjectID :: string
  task_WorkflowID :: "string option"
  task_IdempotencyKey :: "string option"
  task_ParentTaskID :: "string option"
  task_CreationSource :: task_creation_source
  task_DelegationMode :: "delegation_mode option"
  task_Status :: task_status
  task_Priority :: int
  task_Payload :: "string option"
  task_Dependencies :: "string list"
  task_LeaseID :: "string option"
  task_LeasedAt :: "nanos option"
  task_LeasedBy :: "string option"
  task_LeaseExpiresAt :: "nanos option"
  task_Attempt :: int
  task_MaxAttempts :: int
  task_LastError :: "string option"
  task_LastErrorClass :: "string option"
  task_CreatedAt :: nanos
  task_UpdatedAt :: nanos
  task_BriefAmendedAt :: "nanos option"
  task_CurrentPhase :: "string option"
  task_ExpectedBy :: "nanos option"
  task_ClosedAt :: "nanos option"
  task_ClosedBy :: "string option"
  task_MessageCount :: int
  task_OpenCheckpointID :: "string option"
  task_ChatTurnID :: "string option"
  task_CrossProjectCallID :: "string option"
  task_ResultEnvelope :: "string option"

definition TaskFailureClassLeaseExpired :: string where
  "TaskFailureClassLeaseExpired = ''LEASE_EXPIRED''"

text \<open>The repository errors the callers test for, and the others by their message.\<close>

datatype repo_error =
    ErrNotFound
  | ErrNoTasksAvailable
  | ErrLeaseNotFound
  | ErrConstraint string
  | ErrOther string

fun err_text :: "repo_error \<Rightarrow> string" where
  "err_text ErrNotFound = ''not found''"
| "err_text ErrNoTasksAvailable = ''no tasks available''"
| "err_text ErrLeaseNotFound = ''lease not found''"
| "err_text (ErrConstraint c) = ''constraint failed: '' @ c"
| "err_text (ErrOther m) = m"

record lease_options =
  lo_ProjectID :: string
  lo_LeaseHolder :: string
  lo_LeaseDurationSeconds :: int
  lo_PriorityFloor :: int
  lo_ProjectConcurrencyLimits :: "string \<rightharpoonup> int"
  lo_ProjectPriorities :: "string \<rightharpoonup> int"
  lo_ProjectPriorityDefault :: int
  lo_ExcludedProjects :: "string list"

record release_options =
  ro_Attempt :: int
  ro_MaxAttempts :: int
  ro_Error :: string
  ro_ErrorClass :: string

definition no_release_options :: release_options where
  "no_release_options = \<lparr>ro_Attempt = 0, ro_MaxAttempts = 0, ro_Error = [], ro_ErrorClass = []\<rparr>"

record transition_opts =
  to_ClosedBy :: "string option"
  to_ExpectedBy :: "nanos option"
  to_CurrentPhase :: "string option"
  to_BriefAmendedAt :: "nanos option"
  to_LastError :: "string option"
  to_LastErrorClass :: "string option"
  to_SetClosedAtNow :: bool
  to_ClearLease :: bool
  to_Attempt :: int
  to_MaxAttempts :: int

definition no_transition_opts :: transition_opts where
  "no_transition_opts = \<lparr>to_ClosedBy = None, to_ExpectedBy = None, to_CurrentPhase = None,
     to_BriefAmendedAt = None, to_LastError = None, to_LastErrorClass = None,
     to_SetClosedAtNow = False, to_ClearLease = False, to_Attempt = 0, to_MaxAttempts = 0\<rparr>"

record task_filter =
  tf_ProjectID :: "string option"
  tf_Status :: "task_status option"
  tf_UpdatedBefore :: "nanos option"
  tf_PageSize :: int
  tf_Offset :: int

record task_message =
  msg_ID :: string
  msg_TaskID :: string
  msg_ExecutionID :: "string option"
  msg_ParentID :: "string option"
  msg_AuthorKind :: string
  msg_AuthorID :: "string option"
  msg_MessageKind :: string
  msg_Content :: string
  msg_Metadata :: string
  msg_CreatedAt :: nanos

record task_message_filter =
  mf_TaskID :: string
  mf_After :: "string option"
  mf_MessageKinds :: "string list"
  mf_IncludeDeleted :: bool
  mf_Limit :: int

text \<open>A blank task: every Go field at its zero value.\<close>

definition zero_task :: task where
  "zero_task = \<lparr>task_ID = [], task_ProjectID = [], task_WorkflowID = None,
     task_IdempotencyKey = None, task_ParentTaskID = None,
     task_CreationSource = TaskCreationSourceOther [], task_DelegationMode = None,
     task_Status = TaskStatusOther [], task_Priority = 0, task_Payload = None,
     task_Dependencies = [], task_LeaseID = None, task_LeasedAt = None, task_LeasedBy = None,
     task_LeaseExpiresAt = None, task_Attempt = 0, task_MaxAttempts = 0, task_LastError = None,
     task_LastErrorClass = None, task_CreatedAt = 0, task_UpdatedAt = 0,
     task_BriefAmendedAt = None, task_CurrentPhase = None, task_ExpectedBy = None,
     task_ClosedAt = None, task_ClosedBy = None, task_MessageCount = 0,
     task_OpenCheckpointID = None, task_ChatTurnID = None, task_CrossProjectCallID = None,
     task_ResultEnvelope = None\<rparr>"

section \<open>Lease columns\<close>

text \<open>
  The four lease columns are written together: a row is either unleased (all four null) or leased
  (all four set). \<open>lease_columns_ok\<close> is the well-formedness every lease operation keeps.
\<close>

definition lease_free :: "task \<Rightarrow> bool" where
  "lease_free t \<longleftrightarrow> task_LeaseID t = None \<and> task_LeasedAt t = None \<and>
     task_LeasedBy t = None \<and> task_LeaseExpiresAt t = None"

definition lease_full :: "task \<Rightarrow> bool" where
  "lease_full t \<longleftrightarrow> task_LeaseID t \<noteq> None \<and> task_LeasedAt t \<noteq> None \<and>
     task_LeasedBy t \<noteq> None \<and> task_LeaseExpiresAt t \<noteq> None"

definition lease_columns_ok :: "task \<Rightarrow> bool" where
  "lease_columns_ok t \<longleftrightarrow> lease_free t \<or> lease_full t"

definition clear_lease :: "task \<Rightarrow> task" where
  "clear_lease t = t\<lparr>task_LeaseID := None, task_LeasedAt := None, task_LeasedBy := None,
     task_LeaseExpiresAt := None\<rparr>"

lemma lease_free_clear_lease [simp]: "lease_free (clear_lease t)"
  by (simp add: lease_free_def clear_lease_def)

lemma clear_lease_frame [simp]:
  "task_ID (clear_lease t) = task_ID t" "task_Status (clear_lease t) = task_Status t"
  "task_ProjectID (clear_lease t) = task_ProjectID t"
  by (simp_all add: clear_lease_def)

lemma declared_status_simps [simp]:
  "declared_status TaskStatusPending" "declared_status TaskStatusQueued"
  "declared_status TaskStatusLeased" "declared_status TaskStatusRunning"
  "declared_status TaskStatusWaitingForChildren" "declared_status TaskStatusCompleted"
  "declared_status TaskStatusFailed" "declared_status TaskStatusCancelled"
  "declared_status TaskStatusAwaitingInput" "declared_status TaskStatusAwaitingExternal"
  "declared_status TaskStatusPaused" "declared_status TaskStatusClosed"
  "declared_status TaskStatusAwaitingApproval" "\<not> declared_status (TaskStatusOther x)"
  by (simp_all add: declared_status_def)

end
