(* ===== verification/LeaderProps.thy ===== *)
theory LeaderProps
  imports LeaderElection
begin

text \<open>
  Fencing of leaders. Replicas tick, release and lose database replies in any order, each with its own
  clock; the fence token of whoever passes \<open>VerifyEpoch\<close> strictly increases with every change of
  holder. The repository laws are a locale that both backends satisfy.
\<close>

section \<open>The contract of a lock repository\<close>

definition same_lock :: "leader_lock option \<Rightarrow> leader_lock option \<Rightarrow> bool" where
  "same_lock a b \<longleftrightarrow> map_option (\<lambda>l. (ll_HolderID l, ll_Epoch l)) a = map_option (\<lambda>l. (ll_HolderID l, ll_Epoch l)) b"

lemma same_lock_refl [simp]: "same_lock a a"
  by (simp add: same_lock_def)

text \<open>What a successful acquisition by \<open>h\<close> makes of a row.\<close>

definition acquired :: "string \<Rightarrow> int \<Rightarrow> leader_lock option \<Rightarrow> leader_lock option \<Rightarrow> bool" where
  "acquired h ep old new \<longleftrightarrow> (\<exists>l'. new = Some l' \<and> ll_HolderID l' = h \<and> ll_Epoch l' = ep \<and>
     (case old of None \<Rightarrow> ep = 1 | Some l \<Rightarrow> ep = (if ll_HolderID l = h then ll_Epoch l else ll_Epoch l + 1)))"

locale leader_lock_repository =
  fixes R :: "'t lock_repo" and rows :: "'t \<Rightarrow> string \<rightharpoonup> leader_lock"
  assumes acquire_row: "lr_Acquire R w h now ttl t = (res, t') \<Longrightarrow>
      (case res of Inr (True, ep) \<Rightarrow> acquired h ep (rows t w) (rows t' w) | _ \<Rightarrow> rows t' w = rows t w)"
    and renew_row: "lr_Renew R w h now ttl t = (ok, t') \<Longrightarrow> same_lock (rows t w) (rows t' w)"
    and release_row: "lr_Release R w h now t = (err, t') \<Longrightarrow> same_lock (rows t w) (rows t' w)"
    and get_row: "w \<noteq> [] \<Longrightarrow> lr_Get R w t = (case rows t w of None \<Rightarrow> Inl ErrNotFound | Some l \<Rightarrow> Inr l)"

interpretation pg: leader_lock_repository pg_lock_repo "\<lambda>t. t"
proof
  show "case res of Inr (True, ep) \<Rightarrow> acquired h ep (t w) (t' w) | _ \<Rightarrow> t' w = t w"
    if "lr_Acquire pg_lock_repo w h now ttl t = (res, t')" for w h now ttl t res t'
    using that by (auto simp: pg_lock_repo_def pg_Acquire_def acquired_def Let_def split: if_splits option.splits)
  show "same_lock (t w) (t' w)" if "lr_Renew pg_lock_repo w h now ttl t = (ok, t')" for w h now ttl t ok t'
    using that by (auto simp: pg_lock_repo_def pg_Renew_def same_lock_def split: if_splits option.splits)
  show "same_lock (t w) (t' w)" if "lr_Release pg_lock_repo w h now t = (err, t')" for w h now t err t'
    using that by (auto simp: pg_lock_repo_def pg_Release_def same_lock_def split: if_splits option.splits)
qed (simp add: pg_lock_repo_def pg_Get_def)

interpretation sq: leader_lock_repository sq_lock_repo "\<lambda>t. t"
proof
  show "case res of Inr (True, ep) \<Rightarrow> acquired h ep (t w) (t' w) | _ \<Rightarrow> t' w = t w"
    if "lr_Acquire sq_lock_repo w h now ttl t = (res, t')" for w h now ttl t res t'
    using that by (auto simp: sq_lock_repo_def sq_Acquire_def acquired_def Let_def split: if_splits option.splits)
qed (auto simp: sq_lock_repo_def sq_Renew_def sq_Release_def sq_Get_def)

section \<open>A cluster of replicas\<close>

text \<open>
  The lock table and the electors of one worker, by holder id. A database call may succeed, fail
  without effect (\<open>down\<close>), or take effect while its reply is lost (\<open>lossy\<close>).
\<close>

record 't cluster =
  cl_store :: 't
  cl_elector :: "string \<Rightarrow> elector"

definition down :: "'t lock_repo \<Rightarrow> 't lock_repo" where
  "down R = R\<lparr>lr_Acquire := (\<lambda>w h now ttl t. (Inl ''connection lost'', t)),
     lr_Renew := (\<lambda>w h now ttl t. (Inl ''connection lost'', t)),
     lr_Release := (\<lambda>w h now t. (Some ''connection lost'', t))\<rparr>"

definition lossy :: "'t lock_repo \<Rightarrow> 't lock_repo" where
  "lossy R = R\<lparr>
     lr_Acquire := (\<lambda>w h now ttl t. (Inl ''connection lost'', snd (lr_Acquire R w h now ttl t))),
     lr_Renew := (\<lambda>w h now ttl t. (Inl ''connection lost'', snd (lr_Renew R w h now ttl t))),
     lr_Release := (\<lambda>w h now t. (Some ''connection lost'', snd (lr_Release R w h now t)))\<rparr>"

inductive cluster_step :: "'t lock_repo \<Rightarrow> 't cluster \<Rightarrow> 't cluster \<Rightarrow> bool" for R where
  tick: "Q \<in> {R, down R, lossy R} \<Longrightarrow> tryAcquireOrRenew Q now (cl_elector c h) (cl_store c) = (e, t) \<Longrightarrow>
    cluster_step R c \<lparr>cl_store = t, cl_elector = (cl_elector c)(h := e)\<rparr>"
| release: "Q \<in> {R, down R, lossy R} \<Longrightarrow> Release Q now (cl_elector c h) (cl_store c) = (err, e, t) \<Longrightarrow>
    cluster_step R c \<lparr>cl_store = t, cl_elector = (cl_elector c)(h := e)\<rparr>"

inductive_cases cluster_stepE: "cluster_step R c c'"

definition fresh_cluster :: "string \<Rightarrow> nanos \<Rightarrow> 't \<Rightarrow> 't cluster" where
  "fresh_cluster w ttl t = \<lparr>cl_store = t, cl_elector = (\<lambda>h. New w h ttl)\<rparr>"

inductive cluster_run :: "'t lock_repo \<Rightarrow> 't cluster \<Rightarrow> 't cluster \<Rightarrow> bool" for R where
  refl: "cluster_run R c c"
| step: "cluster_run R c c1 \<Longrightarrow> cluster_step R c1 c2 \<Longrightarrow> cluster_run R c c2"

lemma cluster_run_trans: "cluster_run R b c \<Longrightarrow> cluster_run R a b \<Longrightarrow> cluster_run R a c"
  by (induction rule: cluster_run.induct) (auto intro: cluster_run.step)

context leader_lock_repository
begin

text \<open>How one call may change the watched row: not at all, or by an acquisition.\<close>

definition row_moves :: "string \<Rightarrow> 't \<Rightarrow> 't \<Rightarrow> bool" where
  "row_moves w t t' \<longleftrightarrow> same_lock (rows t w) (rows t' w) \<or> (\<exists>h ep. acquired h ep (rows t w) (rows t' w))"

text \<open>
  What a tick of elector \<open>e\<close> does: the row moves; the elector keeps its identity and its token, or
  takes the token of the row it has just acquired.
\<close>

definition tick_ok :: "string \<Rightarrow> elector \<Rightarrow> 't \<Rightarrow> elector \<Rightarrow> 't \<Rightarrow> bool" where
  "tick_ok w e t e' t' \<longleftrightarrow> el_workerID e' = el_workerID e \<and> el_holderID e' = el_holderID e \<and>
     (el_epoch e' = el_epoch e \<and>
        (same_lock (rows t w) (rows t' w) \<or> (\<exists>ep. acquired (el_holderID e) ep (rows t w) (rows t' w))) \<or>
      acquired (el_holderID e) (el_epoch e') (rows t w) (rows t' w))"

lemma acquire_tick:
  assumes "lr_Acquire R w h now ttl t = (res, t')"
  shows "(\<exists>ep. res = Inr (True, ep) \<and> acquired h ep (rows t w) (rows t' w)) \<or>
    (\<nexists>ep. res = Inr (True, ep)) \<and> same_lock (rows t w) (rows t' w)"
  using acquire_row [OF assms] by (cases res) (auto split: bool.splits prod.splits)

lemma tryAcquireOrRenew_ok:
  assumes "el_workerID e = w" and "Q \<in> {R, down R, lossy R}" and "tryAcquireOrRenew Q now e t = (e', t')"
  shows "tick_ok w e t e' t'"
proof -
  obtain res1 t1 where a: "lr_Acquire R w (el_holderID e) now (el_ttl e) t = (res1, t1)" by fastforce
  obtain res2 t2 where r: "lr_Renew R w (el_holderID e) now (el_ttl e) t = (res2, t2)" by fastforce
  from assms(2) consider "Q = R" | "Q = down R" | "Q = lossy R" by auto
  then show ?thesis
  proof cases
    case 1
    with acquire_tick [OF a] renew_row [OF r] assms a r show ?thesis
      by (auto simp: tryAcquireOrRenew_def tick_ok_def split: if_splits sum.splits)
  next
    case 2
    with assms show ?thesis by (auto simp: tryAcquireOrRenew_def down_def tick_ok_def split: if_splits)
  next
    case 3
    with acquire_tick [OF a] renew_row [OF r] assms a r show ?thesis
      by (auto simp: tryAcquireOrRenew_def lossy_def tick_ok_def split: if_splits)
  qed
qed

lemma Release_ok:
  assumes "el_workerID e = w" and "Q \<in> {R, down R, lossy R}" and "Release Q now e t = (err, e', t')"
  shows "tick_ok w e t e' t'"
proof -
  obtain err1 t1 where r: "lr_Release R w (el_holderID e) now t = (err1, t1)" by fastforce
  from assms r release_row [OF r] show ?thesis
    by (auto simp: Release_def releaseWithContext_def down_def lossy_def tick_ok_def split: if_splits)
qed

lemma cluster_step_ok:
  assumes "cluster_step R c c'" and "\<And>h. el_workerID (cl_elector c h) = w"
  obtains h e where "tick_ok w (cl_elector c h) (cl_store c) e (cl_store c')"
    "cl_elector c' = (cl_elector c)(h := e)"
  using assms(1)
proof (cases rule: cluster_step.cases)
  case (tick Q now h e t)
  from tryAcquireOrRenew_ok [OF assms(2) tick(2,3)] tick(1) that show ?thesis by simp
next
  case (release Q now h err e t)
  from Release_ok [OF assms(2) release(2,3)] release(1) that show ?thesis by simp
qed

text \<open>
  The fencing invariant: tokens in the hands of electors never exceed the row's epoch, equal it only
  in the hands of the row's holder, and are never shared.
\<close>

definition token_bound :: "leader_lock option \<Rightarrow> string \<Rightarrow> int \<Rightarrow> bool" where
  "token_bound row h k \<longleftrightarrow> 0 \<le> k \<and> (0 < k \<longrightarrow>
     (\<exists>l. row = Some l \<and> k \<le> ll_Epoch l \<and> (k = ll_Epoch l \<longrightarrow> ll_HolderID l = h)))"

definition fence_inv :: "string \<Rightarrow> 't cluster \<Rightarrow> bool" where
  "fence_inv w c \<longleftrightarrow> (\<forall>l. rows (cl_store c) w = Some l \<longrightarrow> 1 \<le> ll_Epoch l) \<and>
     (\<forall>h. el_workerID (cl_elector c h) = w \<and> el_holderID (cl_elector c h) = h \<and>
          token_bound (rows (cl_store c) w) h (el_epoch (cl_elector c h))) \<and>
     (\<forall>h h'. h \<noteq> h' \<and> 0 < el_epoch (cl_elector c h) \<longrightarrow>
          el_epoch (cl_elector c h) \<noteq> el_epoch (cl_elector c h'))"

lemma token_bound_same:
  "same_lock a b \<Longrightarrow> token_bound a h k \<Longrightarrow> token_bound b h k"
  by (cases a; cases b) (auto simp: same_lock_def token_bound_def)

lemma token_bound_acquired:
  "acquired g ep a b \<Longrightarrow> token_bound a h k \<Longrightarrow> token_bound b h k \<and> (h \<noteq> g \<longrightarrow> 0 < k \<longrightarrow> k \<noteq> ep)"
  by (auto simp: acquired_def token_bound_def split: option.splits if_splits)

lemma token_bound_acquirer:
  "acquired g ep a b \<Longrightarrow> (\<forall>l. a = Some l \<longrightarrow> 1 \<le> ll_Epoch l) \<Longrightarrow>
   token_bound b g ep \<and> 0 < ep \<and> (\<forall>l. b = Some l \<longrightarrow> 1 \<le> ll_Epoch l)"
  by (auto simp: acquired_def token_bound_def split: option.splits if_splits)

lemma fence_inv_step:
  assumes "fence_inv w c" and "cluster_step R c c'"
  shows "fence_inv w c'"
proof -
  from assms(1) have ids: "\<And>h. el_workerID (cl_elector c h) = w" "\<And>h. el_holderID (cl_elector c h) = h"
    and tok: "\<And>h. token_bound (rows (cl_store c) w) h (el_epoch (cl_elector c h))"
    and one: "\<forall>l. rows (cl_store c) w = Some l \<longrightarrow> 1 \<le> ll_Epoch l"
    and diff: "\<And>h h'. h \<noteq> h' \<Longrightarrow> 0 < el_epoch (cl_elector c h) \<Longrightarrow>
      el_epoch (cl_elector c h) \<noteq> el_epoch (cl_elector c h')"
    by (auto simp: fence_inv_def)
  obtain g e where t: "tick_ok w (cl_elector c g) (cl_store c) e (cl_store c')"
    and c': "cl_elector c' = (cl_elector c)(g := e)"
    by (rule cluster_step_ok [OF assms(2) ids(1)]) (rule that)
  let ?a = "rows (cl_store c) w" and ?b = "rows (cl_store c') w"
  from t ids consider
      (same) "el_epoch e = el_epoch (cl_elector c g)" "same_lock ?a ?b"
    | (lost) ep where "el_epoch e = el_epoch (cl_elector c g)" "acquired g ep ?a ?b"
    | (got) "acquired g (el_epoch e) ?a ?b"
    by (auto simp: tick_ok_def)
  then show ?thesis
  proof cases
    case same
    with one have "\<forall>l. ?b = Some l \<longrightarrow> 1 \<le> ll_Epoch l"
      by (cases ?a; cases ?b) (auto simp: same_lock_def)
    with same ids tok diff t c' token_bound_same [OF same(2)] show ?thesis
      by (auto simp: fence_inv_def tick_ok_def)
  next
    case (lost ep)
    with ids tok diff t c' token_bound_acquired [OF lost(2)] token_bound_acquirer [OF lost(2) one]
    show ?thesis by (auto simp: fence_inv_def tick_ok_def)
  next
    case got
    note new = token_bound_acquirer [OF got one]
    have "el_epoch e \<noteq> el_epoch (cl_elector c h)" if "h \<noteq> g" for h
      using token_bound_acquired [OF got tok, of h] that new by force
    with ids tok diff t c' token_bound_acquired [OF got] new show ?thesis
      by (auto simp: fence_inv_def tick_ok_def) metis+
  qed
qed

lemma fence_inv_run: "cluster_run R c c' \<Longrightarrow> fence_inv w c \<Longrightarrow> fence_inv w c'"
  by (induction rule: cluster_run.induct) (auto intro: fence_inv_step)

lemma fence_inv_fresh:
  "\<forall>l. rows t w = Some l \<longrightarrow> 1 \<le> ll_Epoch l \<Longrightarrow> fence_inv w (fresh_cluster w ttl t)"
  by (simp add: fence_inv_def fresh_cluster_def New_def token_bound_def)

text \<open>The row's epoch never goes back, and keeps its holder while it stays.\<close>

definition epoch_le :: "leader_lock option \<Rightarrow> leader_lock option \<Rightarrow> bool" where
  "epoch_le a b \<longleftrightarrow> (\<forall>l. a = Some l \<longrightarrow> (\<exists>l'. b = Some l' \<and>
     (ll_Epoch l < ll_Epoch l' \<or> ll_Epoch l = ll_Epoch l' \<and> ll_HolderID l = ll_HolderID l')))"

lemma epoch_le_run:
  assumes "cluster_run R c c'" and "fence_inv w c"
  shows "epoch_le (rows (cl_store c) w) (rows (cl_store c') w)"
  using assms
proof (induction rule: cluster_run.induct)
  case (refl c)
  then show ?case by (simp add: epoch_le_def)
next
  case (step c c1 c2)
  have ids: "\<And>h. el_workerID (cl_elector c1 h) = w"
    using fence_inv_run [OF step.hyps(1) step.prems] by (simp add: fence_inv_def)
  obtain g e where "tick_ok w (cl_elector c1 g) (cl_store c1) e (cl_store c2)"
    by (rule cluster_step_ok [OF step.hyps(2) ids]) (rule that)
  then have "same_lock (rows (cl_store c1) w) (rows (cl_store c2) w) \<or>
      (\<exists>h ep. acquired h ep (rows (cl_store c1) w) (rows (cl_store c2) w))"
    by (auto simp: tick_ok_def)
  then have "epoch_le (rows (cl_store c1) w) (rows (cl_store c2) w)"
    by (cases "rows (cl_store c2) w") (auto simp: epoch_le_def same_lock_def acquired_def split: if_splits)
  with step.IH [OF step.prems] show ?case by (fastforce simp: epoch_le_def)
qed

lemma VerifyEpoch_True:
  assumes "fence_inv w c" and "w \<noteq> []" and "VerifyEpoch R (cl_elector c h) (cl_store c) = Inr (True, k)"
  obtains l where "rows (cl_store c) w = Some l" "ll_HolderID l = h" "ll_Epoch l = k"
    "el_epoch (cl_elector c h) = k"
proof -
  from assms obtain l where l: "rows (cl_store c) w = Some l" "ll_HolderID l = h" "ll_Epoch l = k"
    "k \<le> el_epoch (cl_elector c h)"
    by (auto simp: VerifyEpoch_def fence_inv_def get_row split: option.splits sum.splits if_splits)
  from assms(1) l have "1 \<le> k" "token_bound (Some l) h (el_epoch (cl_elector c h))"
    by (auto simp: fence_inv_def)
  with l that show ?thesis by (auto simp: token_bound_def)
qed

lemma fencing:
  assumes "fence_inv w c" and "w \<noteq> []" and "cluster_run R c c'"
    and "VerifyEpoch R (cl_elector c h) (cl_store c) = Inr (True, k)"
    and "VerifyEpoch R (cl_elector c' h') (cl_store c') = Inr (True, k')"
  shows "el_epoch (cl_elector c h) = k \<and> el_epoch (cl_elector c' h') = k' \<and> k \<le> k' \<and> (h \<noteq> h' \<longrightarrow> k < k')"
proof -
  obtain l where l: "rows (cl_store c) w = Some l" "ll_HolderID l = h" "ll_Epoch l = k"
    "el_epoch (cl_elector c h) = k" by (rule VerifyEpoch_True [OF assms(1,2,4)]) (rule that)
  obtain l' where l': "rows (cl_store c') w = Some l'" "ll_HolderID l' = h'" "ll_Epoch l' = k'"
    "el_epoch (cl_elector c' h') = k'"
    by (rule VerifyEpoch_True [OF fence_inv_run [OF assms(3,1)] assms(2,5)]) (rule that)
  from epoch_le_run [OF assms(3,1)] l l' show ?thesis by (auto simp: epoch_le_def)
qed

end

section \<open>Properties\<close>


definition c0 :: "lock_table cluster" where
  "c0 = fresh_cluster ''w'' DefaultTTL Map.empty"

definition c1 :: "lock_table cluster" where
  "c1 = (case tryAcquireOrRenew pg_lock_repo 10 (cl_elector c0 ''a'') (cl_store c0) of (e, t) \<Rightarrow>
     \<lparr>cl_store = t, cl_elector = (cl_elector c0)(''a'' := e)\<rparr>)"

definition c2 :: "lock_table cluster" where
  "c2 = (case tryAcquireOrRenew pg_lock_repo 99000000000 (cl_elector c1 ''b'') (cl_store c1) of (e, t) \<Rightarrow>
     \<lparr>cl_store = t, cl_elector = (cl_elector c1)(''b'' := e)\<rparr>)"

lemmas cluster_demo = c0_def c1_def c2_def fresh_cluster_def New_def tryAcquireOrRenew_def pg_lock_repo_def
  pg_Acquire_def pg_Get_def VerifyEpoch_def MinTTL_def DefaultTTL_def Second_def

lemma cluster_demo_runs: "cluster_run pg_lock_repo c0 c1" "cluster_run pg_lock_repo c1 c2"
proof -
  have "cluster_step pg_lock_repo c0 c1"
    unfolding c1_def by (cases "tryAcquireOrRenew pg_lock_repo 10 (cl_elector c0 ''a'') (cl_store c0)")
      (auto intro: cluster_step.tick)
  then show "cluster_run pg_lock_repo c0 c1" by (auto intro: cluster_run.intros)
  have "cluster_step pg_lock_repo c1 c2"
    unfolding c2_def by (cases "tryAcquireOrRenew pg_lock_repo 99000000000 (cl_elector c1 ''b'') (cl_store c1)")
      (auto intro: cluster_step.tick)
  then show "cluster_run pg_lock_repo c1 c2" by (auto intro: cluster_run.intros)
qed


text \<open>
  The two backends grant the lock alike. For non-empty ids and a positive TTL, on a table
  keyed by worker id, SQLite's read-then-upsert \<open>Acquire\<close> returns the same answer and leaves the same
  table as PostgreSQL's single conditional upsert.
\<close>

theorem acquire_backends_agree:
  assumes "w \<noteq> []" and "h \<noteq> []" and "0 < ttl" and "\<And>l. t w = Some l \<Longrightarrow> ll_WorkerID l = w"
  shows "sq_Acquire w h now ttl t = pg_Acquire w h now ttl t"
  using assms by (auto simp: sq_Acquire_def pg_Acquire_def Let_def split: option.splits)

theorem acquire_backends_agree_witness:
  "sq_Acquire ''w'' ''b'' 99000000000 5 (cl_store c1) = pg_Acquire ''w'' ''b'' 99000000000 5 (cl_store c1)"
  by (rule acquire_backends_agree) (auto simp: cluster_demo)

text \<open>
  A clean restart loses leadership on SQLite. After a daemon has acquired the lock and
  released it on shutdown, its successor (a new holder id) is refused until the full TTL has passed
  since the acquisition, because SQLite's \<open>Release\<close> does nothing; on PostgreSQL it acquires the lock
  as soon as the clock has passed the release.
\<close>

theorem sqlite_release_blocks_successor:
  assumes "w \<noteq> []" and "h1 \<noteq> []" and "h2 \<noteq> []" and "h1 \<noteq> h2" and "0 < ttl"
    and "now < later" and "later \<le> now + ttl"
  shows "(\<exists>t1. sq_Acquire w h1 now ttl Map.empty = (Inr (True, 1), t1) \<and>
      fst (sq_Acquire w h2 later ttl (snd (sq_Release w h1 now t1))) = Inr (False, 0)) \<and>
    (\<exists>t1. pg_Acquire w h1 now ttl Map.empty = (Inr (True, 1), t1) \<and>
      fst (pg_Acquire w h2 later ttl (snd (pg_Release w h1 now t1))) = Inr (True, 2))"
  using assms by (auto simp: sq_Acquire_def pg_Acquire_def sq_Release_def pg_Release_def Let_def)

theorem sqlite_release_blocks_successor_witness:
  "\<exists>t1. sq_Acquire ''w'' ''a'' 0 60 Map.empty = (Inr (True, 1), t1) \<and>
     fst (sq_Acquire ''w'' ''b'' 30 60 (snd (sq_Release ''w'' ''a'' 0 t1))) = Inr (False, 0)"
  by (rule sqlite_release_blocks_successor [THEN conjunct1]) simp_all

text \<open>The gate of a dangerous write, as a condition on the row.\<close>

lemma dangerous_write_iff:
  "fst (DangerousWriteAllowed (Some (VerifyEpoch R e t))) \<longleftrightarrow>
   (\<exists>row. lr_Get R (el_workerID e) t = Inr row \<and> ll_HolderID row = el_holderID e \<and> ll_Epoch row \<le> el_epoch e)"
  by (auto simp: DangerousWriteAllowed_def VerifyEpoch_def split: sum.splits if_splits)

end
