(* ===== verification/RateLimit.thy ===== *)
theory RateLimit
  imports Prelude Complex_Main
begin

text \<open>
  Rate limiting (\<^verbatim>\<open>src/internal/ratelimit/\<close>): the per-project sliding windows of
  \<^verbatim>\<open>ratelimit.go\<close>, the trading windows of \<^verbatim>\<open>trading.go\<close> that share the same log, and the
  per-key token buckets of \<^verbatim>\<open>keybucket.go\<close>. The limiter's map from key to timestamps is a map to
  lists, newest last; calls are atomic, as the mutex makes them. Token levels are rationals: the code
  computes them in \<open>float64\<close>, whose rounding is not modelled.
\<close>

section \<open>Sliding windows\<close>

record rate_limit =
  rl_PerMinute :: int
  rl_PerHour :: int

record decision =
  dec_Blocked :: bool
  dec_Reason :: string
  dec_MinuteCount :: int
  dec_HourCount :: int
  dec_RetryAfter :: nanos

definition no_decision :: decision where
  "no_decision = \<lparr>dec_Blocked = False, dec_Reason = [], dec_MinuteCount = 0, dec_HourCount = 0,
     dec_RetryAfter = 0\<rparr>"

type_synonym window_log = "string \<rightharpoonup> nanos list"

definition log_of :: "window_log \<Rightarrow> string \<Rightarrow> nanos list" where
  "log_of l k = (case l k of None \<Rightarrow> [] | Some ts \<Rightarrow> ts)"

definition pruneOlderThan :: "nanos list \<Rightarrow> nanos \<Rightarrow> nanos list" where
  "pruneOlderThan ts cutoff = dropWhile (\<lambda>t. t < cutoff) ts"

definition count_after :: "nanos \<Rightarrow> nanos list \<Rightarrow> int" where
  "count_after cutoff ts = int (length (filter (\<lambda>t. cutoff < t) ts))"

definition Check :: "string \<Rightarrow> rate_limit \<Rightarrow> nanos \<Rightarrow> window_log \<Rightarrow> decision \<times> window_log" where
  "Check p caps now l =
     (if rl_PerMinute caps = 0 \<and> rl_PerHour caps = 0 then (no_decision, l)
      else (let ts = pruneOlderThan (log_of l p) (now - Hour);
                minuteCount = count_after (now - Minute) ts; hourCount = count_after (now - Hour) ts;
                d = no_decision\<lparr>dec_MinuteCount := minuteCount, dec_HourCount := hourCount\<rparr>
            in ((if rl_PerMinute caps > 0 \<and> minuteCount \<ge> rl_PerMinute caps
                 then d\<lparr>dec_Blocked := True, dec_Reason := ''per-minute task rate limit reached''\<rparr>
                 else if rl_PerHour caps > 0 \<and> hourCount \<ge> rl_PerHour caps
                 then d\<lparr>dec_Blocked := True, dec_Reason := ''per-hour task rate limit reached''\<rparr>
                 else d), l(p \<mapsto> ts))))"

definition Record :: "string \<Rightarrow> nanos \<Rightarrow> window_log \<Rightarrow> window_log" where
  "Record p now l = (if p = [] then l else l(p \<mapsto> log_of l p @ [now]))"

definition SnapshotFor :: "string \<Rightarrow> nanos \<Rightarrow> window_log \<Rightarrow> (int \<times> int) option" where
  "SnapshotFor p now l = (if p = [] then None else (case l p of None \<Rightarrow> None
     | Some ts \<Rightarrow> Some (count_after (now - Minute) ts, count_after (now - Hour) ts)))"

section \<open>Trading windows\<close>

definition tradingKeyPrefix :: string where
  "tradingKeyPrefix = char_of (0 :: nat) # ''trading:''"

text \<open>The oldest timestamp of a window, with Go's zero time for none.\<close>

definition oldest_after :: "nanos \<Rightarrow> nanos list \<Rightarrow> nanos" where
  "oldest_after cutoff ts = fold (\<lambda>t oldest. if cutoff < t \<and> (oldest = 0 \<or> t < oldest) then t else oldest) ts 0"

definition retryUntil :: "nanos \<Rightarrow> nanos \<Rightarrow> nanos" where
  "retryUntil t now = (let d = t - now in if d \<le> 0 then Second else d)"

definition CheckKey :: "string \<Rightarrow> rate_limit \<Rightarrow> nanos \<Rightarrow> window_log \<Rightarrow> decision \<times> window_log" where
  "CheckKey key caps now l =
     (if key = [] \<or> (rl_PerMinute caps = 0 \<and> rl_PerHour caps = 0) then (no_decision, l)
      else (let mk = tradingKeyPrefix @ key; ts = pruneOlderThan (log_of l mk) (now - Hour);
                minuteCount = count_after (now - Minute) ts; hourCount = count_after (now - Hour) ts;
                d = no_decision\<lparr>dec_MinuteCount := minuteCount, dec_HourCount := hourCount\<rparr>
            in ((if rl_PerMinute caps > 0 \<and> minuteCount \<ge> rl_PerMinute caps
                 then d\<lparr>dec_Blocked := True, dec_Reason := ''per-minute trading rate limit reached'',
                        dec_RetryAfter := retryUntil (oldest_after (now - Minute) ts + Minute) now\<rparr>
                 else if rl_PerHour caps > 0 \<and> hourCount \<ge> rl_PerHour caps
                 then d\<lparr>dec_Blocked := True, dec_Reason := ''per-hour trading rate limit reached'',
                        dec_RetryAfter := retryUntil (oldest_after (now - Hour) ts + Hour) now\<rparr>
                 else d), l(mk \<mapsto> ts))))"

definition RecordKey :: "string \<Rightarrow> nanos \<Rightarrow> window_log \<Rightarrow> window_log" where
  "RecordKey key now l = (if key = [] then l
     else (let mk = tradingKeyPrefix @ key in l(mk \<mapsto> log_of l mk @ [now])))"

section \<open>Token buckets\<close>

record keyBucket =
  kb_tokens :: rat
  kb_lastRefill :: nanos

record key_decision =
  kd_Blocked :: bool
  kd_Warn :: bool
  kd_RetryAfter :: nanos
  kd_RemainingTokens :: rat

definition WarnThresholdFrac :: rat where "WarnThresholdFrac = 1/5"

definition refill :: "int \<Rightarrow> int \<Rightarrow> nanos \<Rightarrow> keyBucket \<Rightarrow> keyBucket" where
  "refill rps burst now b =
     (let elapsed = of_int (now - kb_lastRefill b) / of_int Second :: rat
      in if elapsed \<le> 0 then b
         else b\<lparr>kb_tokens := min (kb_tokens b + elapsed * of_int rps) (of_int burst), kb_lastRefill := now\<rparr>)"

definition bucketFor :: "string \<Rightarrow> int \<Rightarrow> nanos \<Rightarrow> (string \<rightharpoonup> keyBucket) \<Rightarrow> keyBucket" where
  "bucketFor k burst now bs = (case bs k of Some b \<Rightarrow> b
     | None \<Rightarrow> \<lparr>kb_tokens = of_int burst, kb_lastRefill = now\<rparr>)"

definition Allow ::
  "string \<Rightarrow> int \<Rightarrow> int \<Rightarrow> nanos \<Rightarrow> (string \<rightharpoonup> keyBucket) \<Rightarrow> key_decision \<times> (string \<rightharpoonup> keyBucket)" where
  "Allow k rps burst now bs =
     (if k = [] \<or> rps \<le> 0 \<or> burst \<le> 0
      then (\<lparr>kd_Blocked = False, kd_Warn = False, kd_RetryAfter = 0, kd_RemainingTokens = 0\<rparr>, bs)
      else (let b = refill rps burst now (bucketFor k burst now bs);
                warnLine = of_int burst * WarnThresholdFrac
            in if kb_tokens b \<ge> 1
               then (\<lparr>kd_Blocked = False, kd_Warn = (kb_tokens b - 1 \<le> warnLine), kd_RetryAfter = 0,
                      kd_RemainingTokens = kb_tokens b - 1\<rparr>, bs(k \<mapsto> b\<lparr>kb_tokens := kb_tokens b - 1\<rparr>))
               else (\<lparr>kd_Blocked = True, kd_Warn = True,
                      kd_RetryAfter = \<lfloor>(1 - kb_tokens b) / of_int rps * 1000000000\<rfloor>,
                      kd_RemainingTokens = kb_tokens b\<rparr>, bs(k \<mapsto> b))))"

definition Forget :: "string \<Rightarrow> (string \<rightharpoonup> keyBucket) \<Rightarrow> (string \<rightharpoonup> keyBucket)" where
  "Forget k bs = (if k = [] then bs else bs(k := None))"

section \<open>The windows count exactly\<close>

lemma count_after_Nil [simp]: "count_after c [] = 0"
  by (simp add: count_after_def)

lemma count_after_append: "count_after c (xs @ ys) = count_after c xs + count_after c ys"
  by (simp add: count_after_def)

lemma count_after_prune: "cutoff \<le> c \<Longrightarrow> count_after c (pruneOlderThan ts cutoff) = count_after c ts"
  by (induction ts) (auto simp: count_after_def pruneOlderThan_def)

lemma log_of_upd [simp]: "log_of (l(k \<mapsto> ts)) k' = (if k' = k then ts else log_of l k')"
  by (simp add: log_of_def)

text \<open>A call on a limiter, and the reference: the full history of accepted tasks, never pruned.\<close>

datatype rl_op = RlCheck string rate_limit nanos | RlRecord string nanos

fun rl_time :: "rl_op \<Rightarrow> nanos" where
  "rl_time (RlCheck _ _ now) = now"
| "rl_time (RlRecord _ now) = now"

fun rl_step :: "rl_op \<Rightarrow> window_log \<Rightarrow> window_log" where
  "rl_step (RlCheck p caps now) l = snd (Check p caps now l)"
| "rl_step (RlRecord p now) l = Record p now l"

fun rl_history :: "string \<Rightarrow> rl_op list \<Rightarrow> nanos list" where
  "rl_history p [] = []"
| "rl_history p (RlCheck _ _ _ # ops) = rl_history p ops"
| "rl_history p (RlRecord q now # ops) = (if q = p \<and> p \<noteq> [] then now # rl_history p ops else rl_history p ops)"

text \<open>The log and the history agree on every window that starts an hour before a time not yet passed.\<close>

definition log_agrees :: "nanos \<Rightarrow> nanos list \<Rightarrow> nanos list \<Rightarrow> bool" where
  "log_agrees now ts hist \<longleftrightarrow> (\<forall>c. now - Hour \<le> c \<longrightarrow> count_after c ts = count_after c hist)"

lemma rl_run_agrees:
  assumes "log_agrees now (log_of l p) hist" and "sorted (now # map rl_time ops)"
  shows "log_agrees (last (now # map rl_time ops)) (log_of (fold rl_step ops l) p) (hist @ rl_history p ops)"
  using assms
proof (induction ops arbitrary: now l hist)
  case Nil
  then show ?case by simp
next
  case (Cons op ops)
  show ?case
  proof (cases op)
    case (RlCheck q caps t)
    have "log_agrees t (log_of (rl_step op l) p) hist"
      using Cons.prems RlCheck by (auto simp: log_agrees_def Check_def Let_def count_after_prune)
    from Cons.IH [OF this] Cons.prems(2) RlCheck show ?thesis by simp
  next
    case (RlRecord q t)
    have "log_agrees t (log_of (rl_step op l) p) (hist @ (if q = p \<and> p \<noteq> [] then [t] else []))"
      using Cons.prems RlRecord by (auto simp: log_agrees_def Record_def count_after_append)
    from Cons.IH [OF this] Cons.prems(2) RlRecord show ?thesis by (auto split: if_splits)
  qed
qed

text \<open>
  The pruned windows count exactly. After any sequence of \<open>Check\<close> and \<open>Record\<close> calls, for any
  mix of projects, whose clock readings do not go back, the next \<open>Check\<close> reports the number of tasks
  recorded for the project in the last minute and the last hour of the complete history, and blocks
  exactly when one of these has reached its cap; what pruning discarded never matters.
\<close>

theorem windows_count_full_history:
  assumes "sorted (map rl_time ops)" and "\<And>op. op \<in> set ops \<Longrightarrow> rl_time op \<le> now"
    and "rl_PerMinute caps \<noteq> 0 \<or> rl_PerHour caps \<noteq> 0"
  shows "dec_MinuteCount (fst (Check p caps now (fold rl_step ops Map.empty))) =
      int (length (filter (\<lambda>t. now - 60000000000 < t) (rl_history p ops))) \<and>
    dec_HourCount (fst (Check p caps now (fold rl_step ops Map.empty))) =
      int (length (filter (\<lambda>t. now - 3600000000000 < t) (rl_history p ops))) \<and>
    dec_Blocked (fst (Check p caps now (fold rl_step ops Map.empty))) =
      (0 < rl_PerMinute caps \<and>
         rl_PerMinute caps \<le> int (length (filter (\<lambda>t. now - 60000000000 < t) (rl_history p ops))) \<or>
       0 < rl_PerHour caps \<and>
         rl_PerHour caps \<le> int (length (filter (\<lambda>t. now - 3600000000000 < t) (rl_history p ops))))"
proof -
  let ?first = "(case ops of [] \<Rightarrow> now | op # _ \<Rightarrow> rl_time op)" and ?l = "fold rl_step ops Map.empty"
  have start: "log_agrees ?first (log_of Map.empty p) []" by (simp add: log_agrees_def log_of_def)
  have "sorted (?first # map rl_time ops)" using assms(1) by (cases ops) auto
  from rl_run_agrees [OF start this]
  have "log_agrees (last (?first # map rl_time ops)) (log_of ?l p) (rl_history p ops)" by simp
  moreover have "last (?first # map rl_time ops) \<le> now"
    using assms(2) by (cases ops rule: rev_cases) auto
  ultimately have "count_after c (log_of ?l p) = count_after c (rl_history p ops)" if "now - Hour \<le> c" for c
    using that by (simp add: log_agrees_def)
  then have "count_after (now - Minute) (log_of ?l p) = count_after (now - Minute) (rl_history p ops)"
    "count_after (now - Hour) (log_of ?l p) = count_after (now - Hour) (rl_history p ops)"
    by (simp_all add: clock_units)
  with assms(3) show ?thesis
    by (auto simp: Check_def Let_def count_after_prune clock_units no_decision_def count_after_def
        [of _ "rl_history p ops"])
qed

theorem windows_count_full_history_witness:
  "dec_Blocked (fst (Check ''p'' \<lparr>rl_PerMinute = 2, rl_PerHour = 0\<rparr> 30
     (fold rl_step [RlRecord ''p'' 10, RlCheck ''p'' \<lparr>rl_PerMinute = 2, rl_PerHour = 0\<rparr> 15, RlRecord ''p'' 20] Map.empty)))"
  by (subst windows_count_full_history [THEN conjunct2, THEN conjunct2]) auto

section \<open>The caps hold\<close>

text \<open>The entry points' protocol: check, and record the task only when it is not blocked.\<close>

fun admit :: "rate_limit \<Rightarrow> string \<Rightarrow> nanos list \<Rightarrow> window_log \<Rightarrow> nanos list" where
  "admit caps p [] l = []"
| "admit caps p (now # ns) l = (case Check p caps now l of (d, l1) \<Rightarrow>
     if dec_Blocked d then admit caps p ns l1 else now # admit caps p ns (Record p now l1))"

definition in_window :: "nanos \<Rightarrow> nanos \<Rightarrow> nanos list \<Rightarrow> int" where
  "in_window w x ts = int (length (filter (\<lambda>t. x - w < t \<and> t \<le> x) ts))"

definition caps_kept :: "rate_limit \<Rightarrow> nanos list \<Rightarrow> bool" where
  "caps_kept caps ts \<longleftrightarrow> (\<forall>x. (0 < rl_PerMinute caps \<longrightarrow> in_window Minute x ts \<le> rl_PerMinute caps) \<and>
     (0 < rl_PerHour caps \<longrightarrow> in_window Hour x ts \<le> rl_PerHour caps))"

lemma in_window_append: "in_window w x (xs @ ys) = in_window w x xs + in_window w x ys"
  by (simp add: in_window_def)

lemma in_window_le_count: "t \<le> x \<Longrightarrow> in_window w x ts \<le> count_after (t - w) ts"
  by (induction ts) (auto simp: in_window_def count_after_def)

lemma in_window_snoc:
  assumes "count_after (t - w) ts < cap" and "in_window w x ts \<le> cap"
  shows "in_window w x (ts @ [t]) \<le> cap"
proof (cases "t \<le> x")
  case True
  from assms(1) in_window_le_count [OF True, of w ts] show ?thesis
    by (simp add: in_window_append) (simp add: in_window_def)
next
  case False
  with assms(2) show ?thesis by (simp add: in_window_append) (simp add: in_window_def)
qed

lemma Check_agrees:
  assumes "log_agrees now (log_of l p) acc" and "Check p caps now l = (d, l1)"
  shows "log_agrees now (log_of l1 p) acc"
    and "\<not> dec_Blocked d \<Longrightarrow> 0 < rl_PerMinute caps \<Longrightarrow> count_after (now - Minute) acc < rl_PerMinute caps"
    and "\<not> dec_Blocked d \<Longrightarrow> 0 < rl_PerHour caps \<Longrightarrow> count_after (now - Hour) acc < rl_PerHour caps"
proof -
  have m: "count_after (now - Minute) (log_of l p) = count_after (now - Minute) acc"
    and h: "count_after (now - Hour) (log_of l p) = count_after (now - Hour) acc"
    using assms(1) by (simp_all add: log_agrees_def clock_units)
  have pr: "count_after (now - Minute) (pruneOlderThan ts (now - Hour)) = count_after (now - Minute) ts"
    "count_after (now - Hour) (pruneOlderThan ts (now - Hour)) = count_after (now - Hour) ts" for ts
    by (rule count_after_prune, simp add: clock_units)+
  show "log_agrees now (log_of l1 p) acc"
    using assms by (auto simp: Check_def Let_def log_agrees_def count_after_prune split: if_splits)
  show "count_after (now - Minute) acc < rl_PerMinute caps" if "\<not> dec_Blocked d" "0 < rl_PerMinute caps"
    using assms(2) that m pr by (auto simp: Check_def Let_def split: if_splits)
  show "count_after (now - Hour) acc < rl_PerHour caps" if "\<not> dec_Blocked d" "0 < rl_PerHour caps"
    using assms(2) that h pr by (auto simp: Check_def Let_def split: if_splits)
qed

lemma admit_keeps_caps:
  assumes "log_agrees now (log_of l p) acc" and "sorted (now # ns)" and "caps_kept caps acc" and "p \<noteq> []"
  shows "caps_kept caps (acc @ admit caps p ns l)"
  using assms
proof (induction ns arbitrary: now l acc)
  case Nil
  then show ?case by simp
next
  case (Cons t ns)
  obtain d l1 where chk: "Check p caps t l = (d, l1)" by fastforce
  have "log_agrees t (log_of l p) acc" using Cons.prems(1,2) by (simp add: log_agrees_def)
  note agr = Check_agrees [OF this chk]
  show ?case
  proof (cases "dec_Blocked d")
    case True
    with Cons.IH [OF agr(1)] Cons.prems chk show ?thesis by simp
  next
    case False
    have "caps_kept caps (acc @ [t])"
      using Cons.prems(3) agr(2,3) False in_window_snoc unfolding caps_kept_def by blast
    moreover have "log_agrees t (log_of (Record p t l1) p) (acc @ [t])"
      using agr(1) Cons.prems(4) by (simp add: log_agrees_def Record_def count_after_append)
    ultimately show ?thesis using Cons.IH [of t "Record p t l1" "acc @ [t]"] Cons.prems chk False by simp
  qed
qed



section \<open>Token buckets bound the rate\<close>

fun allow_run :: "string \<Rightarrow> int \<Rightarrow> int \<Rightarrow> nanos list \<Rightarrow> (string \<rightharpoonup> keyBucket) \<Rightarrow> nat \<times> (string \<rightharpoonup> keyBucket)" where
  "allow_run k rps burst [] bs = (0, bs)"
| "allow_run k rps burst (now # ns) bs = (case Allow k rps burst now bs of (d, bs1) \<Rightarrow>
     (case allow_run k rps burst ns bs1 of (n, bs2) \<Rightarrow> ((if kd_Blocked d then n else Suc n), bs2)))"

definition bucket_ok :: "int \<Rightarrow> nanos \<Rightarrow> keyBucket \<Rightarrow> bool" where
  "bucket_ok burst latest b \<longleftrightarrow> 0 \<le> kb_tokens b \<and> kb_tokens b \<le> of_int burst \<and> kb_lastRefill b \<le> latest"

lemma refill_spends:
  assumes "0 < rps" and "0 < burst" and "bucket_ok burst latest b" and "now \<le> latest"
  shows "bucket_ok burst latest (refill rps burst now b)"
    and "kb_lastRefill b \<le> kb_lastRefill (refill rps burst now b)"
    and "kb_tokens (refill rps burst now b) \<le> kb_tokens b +
      of_int rps * of_int (kb_lastRefill (refill rps burst now b) - kb_lastRefill b) / 1000000000"
proof -
  have nonneg: "0 \<le> of_int (now - kb_lastRefill b) / (1000000000 :: rat) * of_int rps"
    if "0 < now - kb_lastRefill b" using that assms(1) by simp
  then show "bucket_ok burst latest (refill rps burst now b)"
    using assms by (auto simp: refill_def Let_def bucket_ok_def Second_def min_def zero_less_divide_iff
        not_le intro: add_nonneg_nonneg)
  show "kb_lastRefill b \<le> kb_lastRefill (refill rps burst now b)"
    by (auto simp: refill_def Let_def Second_def zero_less_divide_iff not_le)
  show "kb_tokens (refill rps burst now b) \<le> kb_tokens b +
      of_int rps * of_int (kb_lastRefill (refill rps burst now b) - kb_lastRefill b) / 1000000000"
    by (auto simp: refill_def Let_def Second_def mult.commute intro: min.coboundedI1)
qed

lemma Allow_step:
  assumes "0 < rps" "0 < burst" "k \<noteq> []" and "bs k = Some b" and "bucket_ok burst latest b" and "now \<le> latest"
    and "Allow k rps burst now bs = (d, bs')"
  obtains b' where "bs' k = Some b'" "bucket_ok burst latest b'" "kb_lastRefill b \<le> kb_lastRefill b'"
    "(if kd_Blocked d then 0 else 1) + kb_tokens b' \<le> kb_tokens b +
       of_int rps * of_int (kb_lastRefill b' - kb_lastRefill b) / 1000000000"
proof -
  let ?r = "refill rps burst now b"
  note r = refill_spends [OF assms(1,2,5,6)]
  have b: "bucketFor k burst now bs = b" using assms(4) by (simp add: bucketFor_def)
  show ?thesis
  proof (cases "1 \<le> kb_tokens ?r")
    case True
    with assms b have "bs' k = Some (?r\<lparr>kb_tokens := kb_tokens ?r - 1\<rparr>)" "\<not> kd_Blocked d"
      by (auto simp: Allow_def Let_def)
    with True r show ?thesis
      by (intro that [of "?r\<lparr>kb_tokens := kb_tokens ?r - 1\<rparr>"]) (auto simp: bucket_ok_def)
  next
    case False
    with assms b have "bs' k = Some ?r" "kd_Blocked d" by (auto simp: Allow_def Let_def)
    with r show ?thesis by (intro that [of ?r]) auto
  qed
qed

lemma allow_run_bound:
  assumes "0 < rps" "0 < burst" "k \<noteq> []" and "bs k = Some b" and "bucket_ok burst latest b"
    and "\<forall>t \<in> set ns. t \<le> latest" and "allow_run k rps burst ns bs = (n, bs')"
  shows "of_nat n \<le> kb_tokens b + of_int rps * of_int (latest - kb_lastRefill b) / 1000000000"
  using assms(4-7)
proof (induction ns arbitrary: bs b n bs')
  case Nil
  then have "0 \<le> (of_int rps * of_int (latest - kb_lastRefill b) / 1000000000 :: rat)"
    using assms(1) by (simp add: bucket_ok_def)
  with Nil show ?case by (simp add: bucket_ok_def)
next
  case (Cons t ns)
  obtain d bs1 where a: "Allow k rps burst t bs = (d, bs1)" by fastforce
  obtain m bs2 where rec: "allow_run k rps burst ns bs1 = (m, bs2)" by fastforce
  have n: "n = (if kd_Blocked d then m else Suc m)" using Cons.prems(4) a rec by (auto split: if_splits)
  obtain b' where b': "bs1 k = Some b'" "bucket_ok burst latest b'" "kb_lastRefill b \<le> kb_lastRefill b'"
    and spend: "(if kd_Blocked d then 0 else 1) + kb_tokens b' \<le> kb_tokens b +
       of_int rps * of_int (kb_lastRefill b' - kb_lastRefill b) / 1000000000"
    by (rule Allow_step [OF assms(1-3) Cons.prems(1,2) _ a]) (use Cons.prems(3) that in auto)
  have "of_nat m \<le> kb_tokens b' + of_int rps * of_int (latest - kb_lastRefill b') / 1000000000"
    using Cons.IH [OF b'(1,2) _ rec] Cons.prems(3) by simp
  moreover have "of_nat n = (if kd_Blocked d then 0 else 1) + (of_nat m :: rat)" by (simp add: n)
  moreover have "of_int rps * of_int (kb_lastRefill b' - kb_lastRefill b) / 1000000000 +
      of_int rps * of_int (latest - kb_lastRefill b') / 1000000000 =
      (of_int rps * of_int (latest - kb_lastRefill b) / 1000000000 :: rat)"
    by (simp add: field_simps)
  ultimately show ?case using spend by linarith
qed

text \<open>
  \<^bold>\<open>C27.\<close> A key's bucket bounds its request rate. Over any sequence of requests of one key, with any
  clock readings (repeated, or going back), the number of requests let through is at most the burst
  plus the sustained rate times the time from the first reading to the latest one; a clock that jumps
  back grants nothing extra.
\<close>

theorem token_bucket_rate_bound:
  assumes "0 < rps" and "0 < burst" and "k \<noteq> []" and "\<forall>t \<in> set ns. t \<le> latest" and "first \<le> latest"
    and "allow_run k rps burst (first # ns) Map.empty = (n, bs)"
  shows "of_nat n \<le> (of_int burst + of_int rps * of_int (latest - first) / 1000000000 :: rat)"
proof -
  let ?b = "\<lparr>kb_tokens = of_int burst, kb_lastRefill = first\<rparr>"
  have "Allow k rps burst first Map.empty = Allow k rps burst first [k \<mapsto> ?b]"
    using assms(1-3) by (simp add: Allow_def bucketFor_def Let_def)
  with assms(6) have run: "allow_run k rps burst (first # ns) [k \<mapsto> ?b] = (n, bs)" by simp
  have "bucket_ok burst latest ?b" using assms(2,5) by (simp add: bucket_ok_def)
  from allow_run_bound [OF assms(1-3) _ this _ run] assms(4,5) show ?thesis by simp
qed

theorem token_bucket_rate_bound_witness:
  "of_nat (fst (allow_run ''k'' 2 1 [0, 100, 50, 900000000] Map.empty)) \<le> (14/5 :: rat)"
proof -
  obtain n bs where run: "allow_run ''k'' 2 1 [0, 100, 50, 900000000] Map.empty = (n, bs)" by fastforce
  have "of_nat n \<le> (of_int 1 + of_int 2 * of_int (900000000 - 0) / 1000000000 :: rat)"
    by (rule token_bucket_rate_bound [OF _ _ _ _ _ run]) simp_all
  then show ?thesis by (simp only: run fst_conv) simp
qed

end
