(* ===== verification/SqliteTime.thy ===== *)
theory SqliteTime
  imports Prelude
begin

text \<open>
  How the SQLite repositories store a time (\<^verbatim>\<open>src/internal/persistence/sqlite/helpers.go\<close>): as
  RFC 3339 text with Go's \<open>RFC3339Nano\<close> layout, which drops the trailing zeros of the fraction and
  the whole fraction when it is zero. SQL compares these columns as text. The text of the whole
  seconds has a fixed width and grows with the second (years 0 to 9999), so a time's text is
  represented by its second and the text that follows it, compared lexicographically.
\<close>

type_synonym time_text = "int \<times> string"

definition dec_digit :: "int \<Rightarrow> char" where
  "dec_digit n = char_of (48 + nat n)"

fun pad_dec :: "nat \<Rightarrow> int \<Rightarrow> string" where
  "pad_dec 0 n = []"
| "pad_dec (Suc w) n = pad_dec w (n div 10) @ [dec_digit (n mod 10)]"

text \<open>Go's \<open>.999999999\<close> layout element.\<close>

definition frac_text :: "int \<Rightarrow> string" where
  "frac_text ns = (if ns = 0 then []
     else CHR ''.'' # rev (dropWhile (\<lambda>c. c = CHR ''0'') (rev (pad_dec 9 ns))))"

definition sqliteTime :: "nanos \<Rightarrow> time_text" where
  "sqliteTime t = (t div Second, frac_text (t mod Second) @ ''Z'')"

definition sqliteTimePtr :: "nanos option \<Rightarrow> time_text option" where
  "sqliteTimePtr t = (case t of None \<Rightarrow> None | Some v \<Rightarrow> Some (sqliteTime v))"

text \<open>
  Reading a nullable time back: the zero time scans as null (\<open>sqlNullTime.Scan\<close> sets
  \<open>Valid = !IsZero\<close>).
\<close>

definition sqlNullTime :: "nanos option \<Rightarrow> nanos option" where
  "sqlNullTime t = (if t = Some 0 then None else t)"

lemma sqlNullTime_idem [simp]: "sqlNullTime (sqlNullTime t) = sqlNullTime t"
  by (simp add: sqlNullTime_def)

lemma sqlNullTime_None [simp]: "sqlNullTime None = None"
  by (simp add: sqlNullTime_def)

lemma sqlNullTime_NoneD: "t = None \<Longrightarrow> sqlNullTime t = None"
  by simp

section \<open>Text order against time order\<close>

lemma sqliteTime_second_mono:
  "a div Second < b div Second \<Longrightarrow> sqliteTime a < sqliteTime b"
  by (simp add: sqliteTime_def)

lemma second_gap: "a + Second \<le> b \<Longrightarrow> a div Second < b div Second"
proof -
  assume "a + Second \<le> b"
  then have "(a + Second) div Second \<le> b div Second"
    by (intro zdiv_mono1) (simp_all add: Second_def)
  moreover have "(a + Second) div Second = a div Second + 1"
    by (simp add: Second_def)
  ultimately show ?thesis by linarith
qed

lemma sqliteTime_gap_less: "a + Second \<le> b \<Longrightarrow> sqliteTime a < sqliteTime b"
  by (intro sqliteTime_second_mono second_gap)

lemma sqliteTime_less_close: "sqliteTime a < sqliteTime b \<Longrightarrow> a < b + Second"
  using sqliteTime_gap_less [of b a] by force

lemma sqliteTime_le_close: "sqliteTime a \<le> sqliteTime b \<Longrightarrow> a < b + Second"
  using sqliteTime_gap_less [of b a] by force

text \<open>The fraction text determines the fraction, so the stored text determines the time.\<close>

lemma length_pad_dec [simp]: "length (pad_dec w n) = w"
  by (induction w arbitrary: n) auto

lemma dec_digit_inj: "0 \<le> a \<Longrightarrow> a < 10 \<Longrightarrow> 0 \<le> b \<Longrightarrow> b < 10 \<Longrightarrow> dec_digit a = dec_digit b \<Longrightarrow> a = b"
proof -
  assume bounds: "0 \<le> a" "a < 10" "0 \<le> b" "b < 10" and eq: "dec_digit a = dec_digit b"
  from eq have "(of_char (dec_digit a) :: nat) = of_char (dec_digit b)" by simp
  then have "(48 + nat a) mod 256 = (48 + nat b) mod 256"
    by (simp only: dec_digit_def of_char_of)
  with bounds show "a = b" by simp
qed

lemma pad_dec_inj:
  "0 \<le> a \<Longrightarrow> a < 10 ^ w \<Longrightarrow> 0 \<le> b \<Longrightarrow> b < 10 ^ w \<Longrightarrow> pad_dec w a = pad_dec w b \<Longrightarrow> a = b"
proof (induction w arbitrary: a b)
  case 0
  then show ?case by simp
next
  case (Suc w)
  have "a div 10 = b div 10"
    using Suc.prems by (intro Suc.IH) (auto simp: div_less_iff_less_mult mult.commute)
  moreover have "a mod 10 = b mod 10"
    using Suc.prems by (intro dec_digit_inj) auto
  ultimately show ?case by (metis div_mult_mod_eq)
qed

lemma strip_zeros_inj:
  assumes "length xs = length ys"
    and "rev (dropWhile (\<lambda>c. c = z) (rev xs)) = rev (dropWhile (\<lambda>c. c = z) (rev ys))"
  shows "xs = ys"
proof -
  let ?d = "\<lambda>l. dropWhile (\<lambda>c. c = z) l" and ?t = "\<lambda>l. takeWhile (\<lambda>c. c = z) l"
  from assms(2) have d: "?d (rev xs) = ?d (rev ys)" by simp
  have reps: "?t l = replicate (length (?t l)) z" for l :: "'a list"
    by (rule replicate_length_same [symmetric]) (auto dest: set_takeWhileD)
  have "length (?t (rev xs)) + length (?d (rev xs)) = length (?t (rev ys)) + length (?d (rev ys))"
    using assms(1) by (metis length_append length_rev takeWhile_dropWhile_id)
  with d have "length (?t (rev xs)) = length (?t (rev ys))" by simp
  then have "?t (rev xs) = ?t (rev ys)" by (metis reps)
  with d have "rev xs = rev ys" by (metis takeWhile_dropWhile_id)
  then show ?thesis by simp
qed

lemma frac_text_inj:
  assumes "0 \<le> a" "a < Second" "0 \<le> b" "b < Second" and eq: "frac_text a = frac_text b"
  shows "a = b"
proof (cases "a = 0 \<or> b = 0")
  case True
  with eq show ?thesis by (auto simp: frac_text_def split: if_splits)
next
  case False
  with eq have "pad_dec 9 a = pad_dec 9 b"
    by (auto simp: frac_text_def intro: strip_zeros_inj simp del: pad_dec.simps)
  with assms show ?thesis by (intro pad_dec_inj [of a 9 b]) (auto simp: Second_def)
qed

lemma sqliteTime_inj: "sqliteTime a = sqliteTime b \<Longrightarrow> a = b"
proof -
  assume eq: "sqliteTime a = sqliteTime b"
  then have "a mod Second = b mod Second"
    by (intro frac_text_inj) (auto simp: sqliteTime_def Second_def)
  with eq have "a div Second * Second + a mod Second = b div Second * Second + b mod Second"
    by (simp add: sqliteTime_def)
  then show "a = b" by (simp only: div_mult_mod_eq)
qed

section \<open>Properties\<close>

text \<open>
  C5. The text encoding loses nothing and is accurate to the second: two times have the same text
  only if they are equal, a time at least one second before another sorts before it, and a time
  that sorts before another is less than one second after it.
\<close>

theorem time_text_second_accurate:
  "(sqliteTime a = sqliteTime b \<longleftrightarrow> a = b) \<and>
   (a + Second \<le> b \<longrightarrow> sqliteTime a < sqliteTime b) \<and>
   (sqliteTime a < sqliteTime b \<longrightarrow> a < b + Second)"
  using sqliteTime_inj [of a b] sqliteTime_less_close [of a b] sqliteTime_gap_less [of a b]
  by auto

theorem time_text_second_accurate_witness:
  "3 + Second \<le> 2 * Second \<and> sqliteTime 3 < sqliteTime (2 * Second)"
proof -
  have "3 + Second \<le> 2 * Second" by (simp add: Second_def)
  then show ?thesis using time_text_second_accurate [of 3 "2 * Second"] by blast
qed

text \<open>
  C6. Within one second the text order is not the time order: any time with a whole second sorts
  after every later time of the same second, so the SQLite columns do not order such rows by time.
\<close>

theorem time_text_inverts_within_second:
  assumes "0 < f" and "f < Second"
  shows "sqliteTime (s * Second + f) < sqliteTime (s * Second)"
proof -
  have sec: "(s * Second + f) div Second = s" "(s * Second + f) mod Second = f"
    using assms by (simp_all add: Second_def)
  have "(s * Second) div Second = s" "(s * Second) mod Second = 0"
    by (simp_all add: Second_def)
  moreover have "frac_text f @ ''Z'' < ''Z''"
    using assms by (simp add: frac_text_def less_char_def)
  ultimately show ?thesis using sec by (simp add: sqliteTime_def frac_text_def)
qed

theorem time_text_inverts_within_second_witness:
  "0 < (500000000::nanos) \<and> 500000000 < Second \<and>
   sqliteTime (7 * Second + 500000000) < sqliteTime (7 * Second)"
proof -
  have h: "0 < (500000000::nanos)" "500000000 < Second" by (simp_all add: Second_def)
  show ?thesis using h time_text_inverts_within_second [OF h, of 7] by simp
qed

end
