(* ===== verification/TaskStore.thy ===== *)
theory TaskStore
  imports TaskModel SqliteTime
begin

text \<open>
  The SQLite task repository (\<^verbatim>\<open>src/internal/persistence/sqlite/task_repository.go\<close>), one
  definition per method, in the file's order. The database is a record: the \<open>tasks\<close> and
  \<open>task_messages\<close> tables in insertion order, the reading of the clock, and the bytes the random
  source will deliver. Each SQL statement runs atomically, as SQLite runs it; times are compared
  through their stored text (theory \<open>SqliteTime\<close>). A statement fails where a constraint of
  \<^verbatim>\<open>schema.go\<close> refuses it; failures of the disk or the driver are not modelled here (callers
  are modelled over an arbitrary repository, theory \<open>Scheduler\<close>).
\<close>

record db =
  db_tasks :: "task list"
  db_messages :: "task_message list"
  db_now :: nanos
  db_rand :: "string list"

section \<open>Lease identifiers\<close>

definition hex_digit :: "nat \<Rightarrow> char" where
  "hex_digit n = (if n < 10 then char_of (48 + n) else char_of (87 + n))"

fun hex_encode :: "string \<Rightarrow> string" where
  "hex_encode [] = []"
| "hex_encode (c # cs) =
     hex_digit (of_char c div 16) # hex_digit (of_char c mod 16) # hex_encode cs"

definition newLeaseID :: "db \<Rightarrow> (repo_error + string) \<times> db" where
  "newLeaseID d = (case db_rand d of
       [] \<Rightarrow> (Inl (ErrOther ''crypto/rand unavailable''), d)
     | b # bs \<Rightarrow> (Inr (''lease-'' @ hex_encode b), d\<lparr>db_rand := bs\<rparr>))"

section \<open>Schema constraints\<close>

definition creation_source_check :: "task_creation_source \<Rightarrow> bool" where
  "creation_source_check s \<longleftrightarrow> s \<in> {TaskCreationSourceUser, TaskCreationSourceDelegation,
     TaskCreationSourceAutonomous, TaskCreationSourceRoute, TaskCreationSourceA2A,
     TaskCreationSourceCompanion}"

definition delegation_mode_check :: "delegation_mode option \<Rightarrow> bool" where
  "delegation_mode_check m \<longleftrightarrow>
     (case m of Some (DelegationModeOther _) \<Rightarrow> False | _ \<Rightarrow> True)"

definition row_check :: "task \<Rightarrow> bool" where
  "row_check t \<longleftrightarrow> creation_source_check (task_CreationSource t) \<and>
     delegation_mode_check (task_DelegationMode t) \<and> declared_status (task_Status t)"

text \<open>\<open>UNIQUE (project_id, idempotency_key)\<close>: null keys never clash.\<close>

definition idem_keys :: "task list \<Rightarrow> (string \<times> string option) list" where
  "idem_keys ts = map (\<lambda>t. (task_ProjectID t, task_IdempotencyKey t))
     (filter (\<lambda>t. task_IdempotencyKey t \<noteq> None) ts)"

definition tasks_ok :: "task list \<Rightarrow> bool" where
  "tasks_ok ts \<longleftrightarrow> distinct (map task_ID ts) \<and> distinct (idem_keys ts) \<and> list_all row_check ts"

section \<open>Reading rows\<close>

definition nullableBlob :: "string option \<Rightarrow> string option" where
  "nullableBlob b = (if b = Some [] then None else b)"

definition scanSqliteTask :: "task \<Rightarrow> task" where
  "scanSqliteTask r = r\<lparr>task_LeasedAt := sqlNullTime (task_LeasedAt r),
     task_LeaseExpiresAt := sqlNullTime (task_LeaseExpiresAt r),
     task_BriefAmendedAt := sqlNullTime (task_BriefAmendedAt r),
     task_ExpectedBy := sqlNullTime (task_ExpectedBy r),
     task_ClosedAt := sqlNullTime (task_ClosedAt r)\<rparr>"

definition scan_one :: "task list \<Rightarrow> repo_error + task" where
  "scan_one rows = (case query_row rows of None \<Rightarrow> Inl ErrNotFound | Some r \<Rightarrow> Inr (scanSqliteTask r))"

section \<open>Create, read, update, delete\<close>

definition create_defaults :: "nanos \<Rightarrow> task \<Rightarrow> task" where
  "create_defaults now t0 =
     (let t1 = (if task_CreatedAt t0 = 0 then t0\<lparr>task_CreatedAt := now\<rparr> else t0);
          t2 = (if task_UpdatedAt t1 = 0 then t1\<lparr>task_UpdatedAt := task_CreatedAt t1\<rparr> else t1);
          t3 = (if task_Attempt t2 = 0 then t2\<lparr>task_Attempt := 1\<rparr> else t2);
          t4 = (if task_MaxAttempts t3 = 0 then t3\<lparr>task_MaxAttempts := 3\<rparr> else t3);
          t5 = (if task_Status t4 = TaskStatusOther [] then t4\<lparr>task_Status := TaskStatusQueued\<rparr>
                else t4)
      in if task_CreationSource t5 = TaskCreationSourceOther []
         then t5\<lparr>task_CreationSource := TaskCreationSourceUser\<rparr> else t5)"

text \<open>The columns the \<open>INSERT\<close> does not name take their defaults; an empty payload is null.\<close>

definition insert_row :: "task \<Rightarrow> task" where
  "insert_row t = t\<lparr>task_Payload := nullableBlob (task_Payload t),
     task_BriefAmendedAt := None, task_CurrentPhase := None, task_ExpectedBy := None,
     task_ClosedAt := None, task_ClosedBy := None, task_MessageCount := 0,
     task_OpenCheckpointID := None, task_CrossProjectCallID := None, task_ResultEnvelope := None\<rparr>"

definition Create :: "task option \<Rightarrow> db \<Rightarrow> (repo_error + task) \<times> db" where
  "Create tp d = (case tp of
       None \<Rightarrow> (Inl (ErrOther ''task is nil''), d)
     | Some t0 \<Rightarrow>
         (let t = create_defaults (db_now d) t0; ts = db_tasks d @ [insert_row t]
          in if tasks_ok ts then (Inr t, d\<lparr>db_tasks := ts\<rparr>)
             else (Inl (ErrConstraint ''tasks''), d)))"

definition Get :: "string \<Rightarrow> db \<Rightarrow> repo_error + task" where
  "Get i d = scan_one (filter (\<lambda>t. task_ID t = i) (db_tasks d))"

definition GetByIdempotencyKey :: "string \<Rightarrow> string \<Rightarrow> db \<Rightarrow> repo_error + task" where
  "GetByIdempotencyKey p k d =
     scan_one (filter (\<lambda>t. task_ProjectID t = p \<and> task_IdempotencyKey t = Some k) (db_tasks d))"

definition updated_row :: "task \<Rightarrow> nanos \<Rightarrow> task \<Rightarrow> task" where
  "updated_row t now r = r\<lparr>task_ProjectID := task_ProjectID t, task_WorkflowID := task_WorkflowID t,
     task_IdempotencyKey := task_IdempotencyKey t, task_ParentTaskID := task_ParentTaskID t,
     task_CreationSource := task_CreationSource t, task_DelegationMode := task_DelegationMode t,
     task_Status := task_Status t, task_Priority := task_Priority t,
     task_Payload := nullableBlob (task_Payload t), task_Dependencies := task_Dependencies t,
     task_LeaseID := task_LeaseID t, task_LeasedAt := task_LeasedAt t,
     task_LeasedBy := task_LeasedBy t, task_LeaseExpiresAt := task_LeaseExpiresAt t,
     task_Attempt := task_Attempt t, task_MaxAttempts := task_MaxAttempts t,
     task_LastError := task_LastError t, task_LastErrorClass := task_LastErrorClass t,
     task_UpdatedAt := now\<rparr>"

definition Update :: "task option \<Rightarrow> db \<Rightarrow> repo_error option \<times> db" where
  "Update tp d = (case tp of
       None \<Rightarrow> (Some (ErrOther ''task is nil''), d)
     | Some t \<Rightarrow>
         (let ts = sql_update (\<lambda>r. task_ID r = task_ID t) (updated_row t (db_now d)) (db_tasks d)
          in if tasks_ok ts then (None, d\<lparr>db_tasks := ts\<rparr>)
             else (Some (ErrConstraint ''tasks''), d)))"

text \<open>\<open>foreign_keys\<close> is off, so deleting a parent leaves its children's pointers.\<close>

definition Delete :: "string \<Rightarrow> db \<Rightarrow> db" where
  "Delete i d = d\<lparr>db_tasks := filter (\<lambda>t. task_ID t \<noteq> i) (db_tasks d)\<rparr>"

text \<open>
  \<open>List\<close> binds \<open>UpdatedBefore\<close> as a \<open>time.Time\<close>, which the driver, not \<open>sqliteTime\<close>, turns into
  text: \<open>bound_lt\<close> is the driver's comparison of an \<open>updated_at\<close> text with that bound.
\<close>

definition list_filter ::
  "(nanos \<Rightarrow> nanos \<Rightarrow> bool) \<Rightarrow> task_filter \<Rightarrow> task \<Rightarrow> bool" where
  "list_filter bound_lt f t \<longleftrightarrow>
     (case tf_ProjectID f of None \<Rightarrow> True | Some p \<Rightarrow> task_ProjectID t = p) \<and>
     (case tf_Status f of None \<Rightarrow> True | Some s \<Rightarrow> task_Status t = s) \<and>
     (case tf_UpdatedBefore f of None \<Rightarrow> True | Some c \<Rightarrow> bound_lt (task_UpdatedAt t) c)"

text \<open>SQLite's grammar has no \<open>OFFSET\<close> without a \<open>LIMIT\<close>.\<close>

definition List ::
  "(nanos \<Rightarrow> nanos \<Rightarrow> bool) \<Rightarrow> task_filter \<Rightarrow> db \<Rightarrow> repo_error + task list" where
  "List bound_lt f d =
     (let rows = select_desc (list_filter bound_lt f) (\<lambda>t. sqliteTime (task_CreatedAt t)) (db_tasks d)
      in if tf_PageSize f \<le> 0 \<and> tf_Offset f > 0
         then Inl (ErrOther ''near OFFSET: syntax error'')
         else Inr (map scanSqliteTask
                (let page = (if tf_Offset f > 0 then drop (nat (tf_Offset f)) rows else rows)
                 in if tf_PageSize f > 0 then take (nat (tf_PageSize f)) page else page)))"

definition Count :: "task_filter \<Rightarrow> db \<Rightarrow> int" where
  "Count f d = int (length (filter (\<lambda>t.
     (case tf_ProjectID f of None \<Rightarrow> True | Some p \<Rightarrow> task_ProjectID t = p) \<and>
     (case tf_Status f of None \<Rightarrow> True | Some s \<Rightarrow> task_Status t = s)) (db_tasks d)))"

section \<open>Status changes\<close>

text \<open>
  An \<open>UPDATE\<close> of one row by id that writes a caller-supplied status: the \<open>CHECK\<close> on the status
  column is the one constraint it can violate, and only when it touches a row.
\<close>

definition update_status_where ::
  "(task \<Rightarrow> bool) \<Rightarrow> task_status \<Rightarrow> (task \<Rightarrow> task) \<Rightarrow> db \<Rightarrow> (repo_error + nat) \<times> db" where
  "update_status_where P s f d =
     (let n = rows_affected P (db_tasks d)
      in if n > 0 \<and> \<not> declared_status s then (Inl (ErrConstraint ''tasks.status''), d)
         else (Inr n, d\<lparr>db_tasks := sql_update P (\<lambda>t. f (t\<lparr>task_Status := s\<rparr>)) (db_tasks d)\<rparr>))"

definition UpdateStatus :: "string \<Rightarrow> task_status \<Rightarrow> db \<Rightarrow> repo_error option \<times> db" where
  "UpdateStatus i s d =
     (case update_status_where (\<lambda>t. task_ID t = i) s (\<lambda>t. t\<lparr>task_UpdatedAt := db_now d\<rparr>) d of
        (Inl e, d') \<Rightarrow> (Some e, d') | (Inr _, d') \<Rightarrow> (None, d'))"

definition TransitionToCancelled :: "string \<Rightarrow> db \<Rightarrow> bool \<times> db" where
  "TransitionToCancelled i d =
     (let P = (\<lambda>t. task_ID t = i \<and> task_Status t \<in> {TaskStatusQueued, TaskStatusLeased,
                TaskStatusRunning, TaskStatusPending})
      in (rows_affected P (db_tasks d) > 0,
          d\<lparr>db_tasks := sql_update P (\<lambda>t. t\<lparr>task_Status := TaskStatusCancelled,
               task_UpdatedAt := db_now d\<rparr>) (db_tasks d)\<rparr>))"

definition apply_transition_opts :: "nanos \<Rightarrow> transition_opts \<Rightarrow> task \<Rightarrow> task" where
  "apply_transition_opts now opts t0 =
     (let t1 = t0\<lparr>task_UpdatedAt := now\<rparr>;
          t2 = (if to_SetClosedAtNow opts then t1\<lparr>task_ClosedAt := Some now\<rparr> else t1);
          t3 = (case to_ClosedBy opts of None \<Rightarrow> t2 | Some b \<Rightarrow> t2\<lparr>task_ClosedBy := Some b\<rparr>);
          t4 = (case to_ExpectedBy opts of None \<Rightarrow> t3 | Some x \<Rightarrow> t3\<lparr>task_ExpectedBy := Some x\<rparr>);
          t5 = (case to_CurrentPhase opts of None \<Rightarrow> t4 | Some x \<Rightarrow> t4\<lparr>task_CurrentPhase := Some x\<rparr>);
          t6 = (case to_BriefAmendedAt opts of None \<Rightarrow> t5
                | Some x \<Rightarrow> t5\<lparr>task_BriefAmendedAt := Some x\<rparr>);
          t7 = (case to_LastError opts of None \<Rightarrow> t6 | Some x \<Rightarrow> t6\<lparr>task_LastError := Some x\<rparr>);
          t8 = (case to_LastErrorClass opts of None \<Rightarrow> t7
                | Some x \<Rightarrow> t7\<lparr>task_LastErrorClass := Some x\<rparr>);
          t9 = (if to_ClearLease opts then clear_lease t8 else t8);
          t10 = (if to_Attempt opts > 0 then t9\<lparr>task_Attempt := to_Attempt opts\<rparr> else t9)
      in if to_MaxAttempts opts > 0 then t10\<lparr>task_MaxAttempts := to_MaxAttempts opts\<rparr> else t10)"

definition TransitionConditional ::
  "string \<Rightarrow> task_status list \<Rightarrow> task_status \<Rightarrow> transition_opts \<Rightarrow> db \<Rightarrow> (repo_error + bool) \<times> db" where
  "TransitionConditional i frm to opts d =
     (if i = [] \<or> to = TaskStatusOther [] \<or> frm = []
      then (Inl (ErrOther ''TransitionConditional: id, from, to required''), d)
      else (case update_status_where (\<lambda>t. task_Status t \<in> set frm \<and> task_ID t = i) to
                   (apply_transition_opts (db_now d) opts) d of
              (Inl e, d') \<Rightarrow> (Inl e, d') | (Inr n, d') \<Rightarrow> (Inr (n > 0), d')))"

definition RequeueTerminalTask :: "string \<Rightarrow> int \<Rightarrow> int \<Rightarrow> db \<Rightarrow> bool \<times> db" where
  "RequeueTerminalTask i attempt maxAttempts d =
     (let P = (\<lambda>t. task_ID t = i \<and> task_Status t \<in> {TaskStatusFailed, TaskStatusCancelled,
                TaskStatusCompleted, TaskStatusPending})
      in (rows_affected P (db_tasks d) > 0,
          d\<lparr>db_tasks := sql_update P (\<lambda>t. (clear_lease t)\<lparr>task_Status := TaskStatusQueued,
               task_Attempt := attempt, task_MaxAttempts := maxAttempts, task_LastError := None,
               task_LastErrorClass := None, task_UpdatedAt := db_now d\<rparr>) (db_tasks d)\<rparr>))"

section \<open>Leasing\<close>

text \<open>A row that occupies a runtime slot of its project.\<close>

definition active_row :: "task \<Rightarrow> bool" where
  "active_row t \<longleftrightarrow> task_Status t \<in> {TaskStatusLeased, TaskStatusRunning} \<or>
     task_Status t = TaskStatusQueued \<and> task_LeaseID t \<noteq> None"

definition active_count :: "string \<Rightarrow> task list \<Rightarrow> int" where
  "active_count p ts = int (length (filter (\<lambda>t. task_ProjectID t = p \<and> active_row t) ts))"

text \<open>\<open>GROUP BY project_id\<close> yields only projects with at least one active row.\<close>

definition computeOverCapProjects :: "(string \<rightharpoonup> int) \<Rightarrow> task list \<Rightarrow> string list" where
  "computeOverCapProjects limits ts =
     filter (\<lambda>p. case limits p of None \<Rightarrow> False | Some cap \<Rightarrow> active_count p ts \<ge> cap)
       (remdups (map task_ProjectID (filter active_row ts)))"

definition dependencies_done :: "task list \<Rightarrow> task \<Rightarrow> bool" where
  "dependencies_done ts t \<longleftrightarrow>
     list_all (\<lambda>dep. list_ex (\<lambda>d. task_ID d = dep) ts \<and>
                     list_all (\<lambda>d. task_ID d = dep \<longrightarrow> task_Status d = TaskStatusCompleted) ts)
       (task_Dependencies t)"

definition lease_candidate :: "lease_options \<Rightarrow> task list \<Rightarrow> task \<Rightarrow> bool" where
  "lease_candidate opts ts t \<longleftrightarrow>
     task_Status t = TaskStatusQueued \<and> task_LeaseID t = None \<and>
     (lo_ProjectID opts = [] \<or> task_ProjectID t = lo_ProjectID opts) \<and>
     (lo_PriorityFloor opts \<le> 0 \<or> task_Priority t \<ge> lo_PriorityFloor opts) \<and>
     task_ProjectID t \<notin> set (computeOverCapProjects (lo_ProjectConcurrencyLimits opts) ts) \<and>
     task_ProjectID t \<notin> set (lo_ExcludedProjects opts) \<and>
     dependencies_done ts t"

text \<open>
  With no priorities configured the source orders by task priority and creation only; the key
  below is then the same constant for every project.
\<close>

definition project_priority :: "lease_options \<Rightarrow> string \<Rightarrow> int" where
  "project_priority opts p = (case lo_ProjectPriorities opts p of Some v \<Rightarrow> v
     | None \<Rightarrow> (if lo_ProjectPriorityDefault opts = 0 then 50 else lo_ProjectPriorityDefault opts))"

definition lease_order :: "lease_options \<Rightarrow> task \<Rightarrow> int \<times> int \<times> time_text" where
  "lease_order opts t =
     (project_priority opts (task_ProjectID t), task_Priority t, sqliteTime (task_CreatedAt t))"

definition leased_row :: "string \<Rightarrow> lease_options \<Rightarrow> nanos \<Rightarrow> task \<Rightarrow> task" where
  "leased_row l opts now t = t\<lparr>task_Status := TaskStatusLeased, task_LeaseID := Some l,
     task_LeasedAt := Some now, task_LeasedBy := Some (lo_LeaseHolder opts),
     task_LeaseExpiresAt := Some (now + lo_LeaseDurationSeconds opts * Second),
     task_UpdatedAt := now\<rparr>"

definition LeaseTask :: "lease_options \<Rightarrow> db \<Rightarrow> (repo_error + task) \<times> db" where
  "LeaseTask opts d0 = (case newLeaseID d0 of
       (Inl e, d) \<Rightarrow> (Inl e, d)
     | (Inr l, d) \<Rightarrow>
         (case query_row (select_asc (lease_candidate opts (db_tasks d)) (lease_order opts)
                 (db_tasks d)) of
            None \<Rightarrow> (Inl ErrNoTasksAvailable, d)
          | Some c \<Rightarrow>
              (let d' = d\<lparr>db_tasks := sql_update (\<lambda>t. task_ID t = task_ID c)
                           (leased_row l opts (db_now d)) (db_tasks d)\<rparr>
               in (Get (task_ID c) d', d'))))"

definition renewable_status :: "task_status \<Rightarrow> bool" where
  "renewable_status s \<longleftrightarrow> s \<in> {TaskStatusLeased, TaskStatusRunning, TaskStatusWaitingForChildren}"

definition RenewLease :: "string \<Rightarrow> string \<Rightarrow> int \<Rightarrow> db \<Rightarrow> repo_error option \<times> db" where
  "RenewLease i l extendBySeconds d =
     (let P = (\<lambda>t. task_ID t = i \<and> task_LeaseID t = Some l \<and> renewable_status (task_Status t))
      in if rows_affected P (db_tasks d) = 0 then (Some ErrLeaseNotFound, d)
         else (None, d\<lparr>db_tasks := sql_update P
                 (\<lambda>t. t\<lparr>task_LeaseExpiresAt := Some (db_now d + extendBySeconds * Second),
                        task_UpdatedAt := db_now d\<rparr>) (db_tasks d)\<rparr>))"

definition released_row :: "task_status \<Rightarrow> release_options \<Rightarrow> nanos \<Rightarrow> task \<Rightarrow> task" where
  "released_row s opts now t = (clear_lease t)\<lparr>task_Status := s,
     task_Attempt := (if ro_Attempt opts = 0 then task_Attempt t else ro_Attempt opts),
     task_MaxAttempts := (if ro_MaxAttempts opts = 0 then task_MaxAttempts t else ro_MaxAttempts opts),
     task_LastError := (if ro_Error opts = [] then None else Some (ro_Error opts)),
     task_LastErrorClass := (if ro_ErrorClass opts = [] then None else Some (ro_ErrorClass opts)),
     task_UpdatedAt := now\<rparr>"

definition ReleaseLease ::
  "string \<Rightarrow> string \<Rightarrow> task_status \<Rightarrow> release_options \<Rightarrow> db \<Rightarrow> repo_error option \<times> db" where
  "ReleaseLease i l newStatus opts d =
     (if l = [] then (Some (ErrOther ''ReleaseLease: leaseID required''), d)
      else (case update_status_where (\<lambda>t. task_ID t = i \<and> task_LeaseID t = Some l) newStatus
                   (released_row newStatus opts (db_now d)) d of
              (Inl e, d') \<Rightarrow> (Some e, d') | (Inr _, d') \<Rightarrow> (None, d')))"

definition lease_expired_row :: "nanos \<Rightarrow> task \<Rightarrow> bool" where
  "lease_expired_row now t \<longleftrightarrow>
     task_Status t \<in> {TaskStatusQueued, TaskStatusLeased, TaskStatusRunning} \<and>
     (case task_LeaseExpiresAt t of None \<Rightarrow> False | Some e \<Rightarrow> sqliteTime e < sqliteTime now)"

definition lease_expiry_key :: "task \<Rightarrow> time_text" where
  "lease_expiry_key t = (case task_LeaseExpiresAt t of None \<Rightarrow> (0, []) | Some e \<Rightarrow> sqliteTime e)"

definition FindExpiredLeases :: "int \<Rightarrow> db \<Rightarrow> repo_error + task list" where
  "FindExpiredLeases limit d = Inr (map scanSqliteTask (sql_limit limit
     (select_asc (lease_expired_row (db_now d)) lease_expiry_key (db_tasks d))))"

section \<open>Counting and the task graph\<close>

definition CountByStatus :: "string \<Rightarrow> db \<Rightarrow> (task_status \<rightharpoonup> int)" where
  "CountByStatus p d = (\<lambda>s.
     let n = length (filter (\<lambda>t. (p = [] \<or> task_ProjectID t = p) \<and> task_Status t = s) (db_tasks d))
     in if n = 0 then None else Some (int n))"

definition CountRecentFailures :: "string \<Rightarrow> string list \<Rightarrow> nanos \<Rightarrow> db \<Rightarrow> repo_error + int" where
  "CountRecentFailures p errorClasses since d =
     (if p = [] then Inl (ErrOther ''CountRecentFailures: projectID is required'')
      else Inr (int (length (filter (\<lambda>t. task_ProjectID t = p \<and> task_Status t = TaskStatusFailed \<and>
             sqliteTime since \<le> sqliteTime (task_UpdatedAt t) \<and>
             (errorClasses = [] \<or>
              (case task_LastErrorClass t of None \<Rightarrow> False | Some c \<Rightarrow> c \<in> set errorClasses)))
             (db_tasks d)))))"

definition GetChildren :: "string \<Rightarrow> db \<Rightarrow> task list" where
  "GetChildren p d = map scanSqliteTask (select_asc (\<lambda>t. task_ParentTaskID t = Some p)
     (\<lambda>t. sqliteTime (task_CreatedAt t)) (db_tasks d))"

definition CountChildrenForParents :: "string list \<Rightarrow> db \<Rightarrow> (string \<rightharpoonup> int)" where
  "CountChildrenForParents ps d = (\<lambda>p.
     let n = length (filter (\<lambda>t. task_ParentTaskID t = Some p) (db_tasks d))
     in if p \<in> set ps \<and> 0 < n then Some (int n) else None)"

definition GetDependencies :: "string \<Rightarrow> db \<Rightarrow> repo_error + task list" where
  "GetDependencies i d = (case query_row (filter (\<lambda>t. task_ID t = i) (db_tasks d)) of
       None \<Rightarrow> Inl ErrNotFound
     | Some t \<Rightarrow> Inr (map scanSqliteTask (select_asc (\<lambda>r. task_ID r \<in> set (task_Dependencies t))
           (\<lambda>r. sqliteTime (task_CreatedAt r)) (db_tasks d))))"

definition GetDependents :: "string \<Rightarrow> db \<Rightarrow> task list" where
  "GetDependents i d = map scanSqliteTask (select_asc (\<lambda>t. i \<in> set (task_Dependencies t))
     (\<lambda>t. sqliteTime (task_CreatedAt t)) (db_tasks d))"

section \<open>Frame and scanning lemmas\<close>

lemma scanSqliteTask_frame [simp]:
  "task_ID (scanSqliteTask t) = task_ID t" "task_ProjectID (scanSqliteTask t) = task_ProjectID t"
  "task_Status (scanSqliteTask t) = task_Status t" "task_LeaseID (scanSqliteTask t) = task_LeaseID t"
  "task_Attempt (scanSqliteTask t) = task_Attempt t" "task_LeasedBy (scanSqliteTask t) = task_LeasedBy t"
  "task_MaxAttempts (scanSqliteTask t) = task_MaxAttempts t"
  "task_CreatedAt (scanSqliteTask t) = task_CreatedAt t"
  "task_UpdatedAt (scanSqliteTask t) = task_UpdatedAt t"
  "task_LastError (scanSqliteTask t) = task_LastError t"
  "task_Dependencies (scanSqliteTask t) = task_Dependencies t"
  "task_ExpectedBy (scanSqliteTask t) = sqlNullTime (task_ExpectedBy t)"
  "task_LeaseExpiresAt (scanSqliteTask t) = sqlNullTime (task_LeaseExpiresAt t)"
  by (simp_all add: scanSqliteTask_def)

lemma leased_row_frame [simp]:
  "task_ID (leased_row l opts now t) = task_ID t"
  "task_ProjectID (leased_row l opts now t) = task_ProjectID t"
  "task_Status (leased_row l opts now t) = TaskStatusLeased"
  "task_LeaseID (leased_row l opts now t) = Some l"
  "task_LeasedBy (leased_row l opts now t) = Some (lo_LeaseHolder opts)"
  "task_IdempotencyKey (leased_row l opts now t) = task_IdempotencyKey t"
  "task_Attempt (leased_row l opts now t) = task_Attempt t"
  by (simp_all add: leased_row_def)

lemma released_row_frame [simp]:
  "task_ID (released_row s opts now t) = task_ID t"
  "task_ProjectID (released_row s opts now t) = task_ProjectID t"
  "task_Status (released_row s opts now t) = s"
  "task_LeaseID (released_row s opts now t) = None"
  "task_IdempotencyKey (released_row s opts now t) = task_IdempotencyKey t"
  by (simp_all add: released_row_def clear_lease_def)

lemma lease_free_released_row [simp]: "lease_free (released_row s opts now t)"
  by (simp add: released_row_def lease_free_def clear_lease_def)

lemma released_row_status_idem: "released_row s opts now (t\<lparr>task_Status := s'\<rparr>) = released_row s opts now t"
  by (simp add: released_row_def clear_lease_def)

lemma apply_transition_opts_frame [simp]:
  "task_ID (apply_transition_opts now opts t) = task_ID t"
  "task_ProjectID (apply_transition_opts now opts t) = task_ProjectID t"
  "task_Status (apply_transition_opts now opts t) = task_Status t"
  "task_IdempotencyKey (apply_transition_opts now opts t) = task_IdempotencyKey t"
  "task_CreationSource (apply_transition_opts now opts t) = task_CreationSource t"
  "task_DelegationMode (apply_transition_opts now opts t) = task_DelegationMode t"
  by (simp_all add: apply_transition_opts_def Let_def clear_lease_def split: option.split)

lemma apply_transition_opts_lease:
  "lease_columns_ok t \<Longrightarrow> lease_columns_ok (apply_transition_opts now opts t)"
  by (auto simp: apply_transition_opts_def Let_def clear_lease_def lease_columns_ok_def
      lease_free_def lease_full_def split: option.split)

section \<open>Constraints are kept by every statement\<close>

definition keeps_keys :: "(task \<Rightarrow> task) \<Rightarrow> bool" where
  "keeps_keys f \<longleftrightarrow> (\<forall>t. task_ID (f t) = task_ID t \<and> task_ProjectID (f t) = task_ProjectID t \<and>
     task_IdempotencyKey (f t) = task_IdempotencyKey t \<and>
     task_CreationSource (f t) = task_CreationSource t \<and>
     task_DelegationMode (f t) = task_DelegationMode t)"

lemma idem_keys_sql_update:
  "keeps_keys f \<Longrightarrow> idem_keys (sql_update P f ts) = idem_keys ts"
  by (induction ts) (auto simp: idem_keys_def keeps_keys_def)

lemma map_ID_sql_update:
  "keeps_keys f \<Longrightarrow> map task_ID (sql_update P f ts) = map task_ID ts"
  by (intro map_sql_update) (simp add: keeps_keys_def)

lemma tasks_ok_sql_update:
  assumes "tasks_ok ts" and "keeps_keys f"
    and "\<And>t. t \<in> set ts \<Longrightarrow> P t \<Longrightarrow> declared_status (task_Status (f t))"
  shows "tasks_ok (sql_update P f ts)"
proof -
  have "list_all row_check (sql_update P f ts)"
    using assms by (auto simp: tasks_ok_def list_all_iff in_set_sql_update row_check_def keeps_keys_def)
  then show ?thesis
    using assms(1,2) by (simp add: tasks_ok_def map_ID_sql_update idem_keys_sql_update)
qed

lemma tasks_ok_distinct: "tasks_ok ts \<Longrightarrow> distinct (map task_ID ts)"
  by (simp add: tasks_ok_def)

lemma distinct_idem_keys_filter: "distinct (idem_keys ts) \<Longrightarrow> distinct (idem_keys (filter P ts))"
  by (auto simp: idem_keys_def distinct_map_filter filter_filter conj_commute
      dest: distinct_map_filter [where P = P])

lemma tasks_ok_filter: "tasks_ok ts \<Longrightarrow> tasks_ok (filter P ts)"
  by (auto simp: tasks_ok_def distinct_idem_keys_filter distinct_map_filter list_all_iff)

lemma tasks_ok_unique:
  "tasks_ok ts \<Longrightarrow> t \<in> set ts \<Longrightarrow> t' \<in> set ts \<Longrightarrow> task_ID t = task_ID t' \<Longrightarrow> t = t'"
  by (auto dest!: tasks_ok_distinct dest: distinct_key_eq)

lemma update_status_where_ok:
  assumes "update_status_where P s f d = (r, d')" and "tasks_ok (db_tasks d)"
    and "keeps_keys f" and "\<And>t. task_Status (f t) = task_Status t"
  shows "tasks_ok (db_tasks d')"
proof (cases "rows_affected P (db_tasks d) > 0 \<and> \<not> declared_status s")
  case True
  with assms show ?thesis by (auto simp: update_status_where_def Let_def)
next
  case False
  from assms(3) have kk: "keeps_keys (\<lambda>t. f (t\<lparr>task_Status := s\<rparr>))" by (simp add: keeps_keys_def)
  have "declared_status s" if "t \<in> set (db_tasks d)" "P t" for t
    using False that by (auto simp: sql_simps)
  then have "tasks_ok (sql_update P (\<lambda>t. f (t\<lparr>task_Status := s\<rparr>)) (db_tasks d))"
    using assms(2,4) by (intro tasks_ok_sql_update [OF _ kk]) auto
  with False assms(1) show ?thesis by (auto simp: update_status_where_def Let_def)
qed

lemma keeps_keys_rows:
  "keeps_keys (leased_row l opts now)" "keeps_keys (apply_transition_opts now topts)"
  "keeps_keys (\<lambda>t. t\<lparr>task_UpdatedAt := now\<rparr>)"
  by (simp_all add: keeps_keys_def leased_row_def)

lemma Create_ok [wf_intros]:
  "Create tp d = (r, d') \<Longrightarrow> tasks_ok (db_tasks d) \<Longrightarrow> tasks_ok (db_tasks d')"
  by (auto simp: Create_def Let_def split: option.splits if_splits)

lemma Update_ok [wf_intros]:
  "Update tp d = (r, d') \<Longrightarrow> tasks_ok (db_tasks d) \<Longrightarrow> tasks_ok (db_tasks d')"
  by (auto simp: Update_def Let_def split: option.splits if_splits)

lemma Delete_ok [wf_intros]: "tasks_ok (db_tasks d) \<Longrightarrow> tasks_ok (db_tasks (Delete i d))"
  by (simp add: Delete_def tasks_ok_filter)

lemma UpdateStatus_ok [wf_intros]:
  "UpdateStatus i s d = (r, d') \<Longrightarrow> tasks_ok (db_tasks d) \<Longrightarrow> tasks_ok (db_tasks d')"
  by (auto simp: UpdateStatus_def split: prod.splits sum.splits
      dest!: update_status_where_ok simp: keeps_keys_rows)

lemma TransitionToCancelled_ok [wf_intros]:
  "TransitionToCancelled i d = (r, d') \<Longrightarrow> tasks_ok (db_tasks d) \<Longrightarrow> tasks_ok (db_tasks d')"
  by (auto simp: TransitionToCancelled_def Let_def keeps_keys_def intro!: tasks_ok_sql_update)

lemma TransitionConditional_ok [wf_intros]:
  "TransitionConditional i frm to opts d = (r, d') \<Longrightarrow> tasks_ok (db_tasks d) \<Longrightarrow>
   tasks_ok (db_tasks d')"
  by (auto simp: TransitionConditional_def split: prod.splits sum.splits if_splits
      dest!: update_status_where_ok simp: keeps_keys_rows)

lemma RequeueTerminalTask_ok [wf_intros]:
  "RequeueTerminalTask i a m d = (r, d') \<Longrightarrow> tasks_ok (db_tasks d) \<Longrightarrow> tasks_ok (db_tasks d')"
  by (auto simp: RequeueTerminalTask_def Let_def keeps_keys_def clear_lease_def
      intro!: tasks_ok_sql_update)

lemma newLeaseID_tasks: "newLeaseID d = (r, d') \<Longrightarrow> db_tasks d' = db_tasks d \<and> db_now d' = db_now d"
  by (auto simp: newLeaseID_def split: list.splits)

lemma LeaseTask_ok [wf_intros]:
  "LeaseTask opts d = (r, d') \<Longrightarrow> tasks_ok (db_tasks d) \<Longrightarrow> tasks_ok (db_tasks d')"
  by (auto simp: LeaseTask_def Let_def keeps_keys_rows split: prod.splits sum.splits option.splits
      dest!: newLeaseID_tasks intro!: tasks_ok_sql_update)

lemma RenewLease_ok [wf_intros]:
  "RenewLease i l n d = (r, d') \<Longrightarrow> tasks_ok (db_tasks d) \<Longrightarrow> tasks_ok (db_tasks d')"
  by (auto simp: RenewLease_def Let_def keeps_keys_def renewable_status_def split: if_splits
      intro!: tasks_ok_sql_update)

lemma released_row_keys: "keeps_keys (released_row s opts now)"
  by (simp add: keeps_keys_def released_row_def clear_lease_def)

lemma ReleaseLease_tasks:
  assumes "ReleaseLease i l s opts d = (r, d')"
  shows "db_tasks d' = db_tasks d \<or> declared_status s \<and> db_tasks d' =
    sql_update (\<lambda>t. task_ID t = i \<and> task_LeaseID t = Some l) (released_row s opts (db_now d)) (db_tasks d)"
  using assms by (auto simp: ReleaseLease_def update_status_where_def Let_def released_row_status_idem
      sql_simps split: if_splits intro!: sql_update_id)

lemma ReleaseLease_ok [wf_intros]:
  "ReleaseLease i l s opts d = (r, d') \<Longrightarrow> tasks_ok (db_tasks d) \<Longrightarrow> tasks_ok (db_tasks d')"
  by (auto dest!: ReleaseLease_tasks simp: released_row_keys intro!: tasks_ok_sql_update)

end
