(* ===== verification/TaskStateMachine.thy ===== *)
theory TaskStateMachine
  imports TaskModel
begin

text \<open>
  The conversational task lifecycle of \<^verbatim>\<open>src/internal/scheduler/state_machine.go\<close>: the
  triggers, the three status classes, and \<open>ValidateTransition\<close>, the default-deny table every
  caller consults before it changes a task's status. A nil Go error is \<open>None\<close>.
\<close>

datatype transition_trigger =
    TriggerEnqueue
  | TriggerLease
  | TriggerStart
  | TriggerExecutionDone
  | TriggerExecutionFailed
  | TriggerCheckpointEmit
  | TriggerExternalWait
  | TriggerLeaseExpired
  | TriggerWaitChildren
  | TriggerChildrenDone
  | TriggerOperatorAnswer
  | TriggerOperatorDirective
  | TriggerOperatorAmend
  | TriggerOperatorPause
  | TriggerOperatorResume
  | TriggerOperatorCancel
  | TriggerOperatorClose
  | TriggerOperatorApprove
  | TriggerOperatorReject
  | TriggerExternalEvent
  | TriggerExternalDeadline
  | TriggerOther string

fun IsTerminalTaskStatus :: "task_status \<Rightarrow> bool" where
  "IsTerminalTaskStatus TaskStatusFailed = True"
| "IsTerminalTaskStatus TaskStatusCancelled = True"
| "IsTerminalTaskStatus TaskStatusClosed = True"
| "IsTerminalTaskStatus _ = False"

fun IsActiveTaskStatus :: "task_status \<Rightarrow> bool" where
  "IsActiveTaskStatus TaskStatusPending = True"
| "IsActiveTaskStatus TaskStatusQueued = True"
| "IsActiveTaskStatus TaskStatusLeased = True"
| "IsActiveTaskStatus TaskStatusRunning = True"
| "IsActiveTaskStatus TaskStatusWaitingForChildren = True"
| "IsActiveTaskStatus _ = False"

definition IsAwaitingInput :: "task_status \<Rightarrow> bool" where
  "IsAwaitingInput s \<longleftrightarrow> s = TaskStatusAwaitingInput \<or> s = TaskStatusAwaitingExternal \<or>
     s = TaskStatusAwaitingApproval"

datatype transition_error =
    SelfLoop task_status task_status transition_trigger
  | TerminalOrigin task_status task_status
  | TriggerErr transition_trigger task_status task_status string
  | UnknownTrigger string

definition triggerErr ::
  "transition_trigger \<Rightarrow> task_status \<Rightarrow> task_status \<Rightarrow> string \<Rightarrow> transition_error option" where
  "triggerErr trigger frm to why = Some (TriggerErr trigger frm to why)"

text \<open>The \<open>switch trigger\<close> table, reached once the self-loop and absorbing-state checks passed.\<close>

fun trigger_table ::
  "transition_trigger \<Rightarrow> task_status \<Rightarrow> task_status \<Rightarrow> transition_error option" where
  "trigger_table TriggerEnqueue frm to =
     (if to \<noteq> TaskStatusQueued then triggerErr TriggerEnqueue frm to ''expected -> QUEUED''
      else if frm \<in> {TaskStatusPending, TaskStatusAwaitingInput, TaskStatusAwaitingExternal,
                     TaskStatusPaused, TaskStatusCompleted, TaskStatusLeased, TaskStatusRunning}
      then None
      else triggerErr TriggerEnqueue frm to ''origin not enqueueable'')"
| "trigger_table TriggerLease frm to =
     (if frm \<noteq> TaskStatusQueued \<or> to \<noteq> TaskStatusLeased
      then triggerErr TriggerLease frm to ''expected QUEUED -> LEASED'' else None)"
| "trigger_table TriggerStart frm to =
     (if frm \<noteq> TaskStatusLeased \<or> to \<noteq> TaskStatusRunning
      then triggerErr TriggerStart frm to ''expected LEASED -> RUNNING'' else None)"
| "trigger_table TriggerExecutionDone frm to =
     (if frm \<noteq> TaskStatusRunning \<or> to \<noteq> TaskStatusCompleted
      then triggerErr TriggerExecutionDone frm to ''expected RUNNING -> COMPLETED'' else None)"
| "trigger_table TriggerExecutionFailed frm to =
     (if frm \<noteq> TaskStatusRunning \<or> to \<noteq> TaskStatusFailed
      then triggerErr TriggerExecutionFailed frm to ''expected RUNNING -> FAILED'' else None)"
| "trigger_table TriggerCheckpointEmit frm to =
     (if frm \<noteq> TaskStatusRunning \<or> to \<noteq> TaskStatusAwaitingInput
      then triggerErr TriggerCheckpointEmit frm to ''expected RUNNING -> AWAITING_INPUT'' else None)"
| "trigger_table TriggerExternalWait frm to =
     (if frm \<noteq> TaskStatusRunning \<or> to \<noteq> TaskStatusAwaitingExternal
      then triggerErr TriggerExternalWait frm to ''expected RUNNING -> AWAITING_EXTERNAL'' else None)"
| "trigger_table TriggerLeaseExpired frm to =
     (if to \<noteq> TaskStatusQueued then triggerErr TriggerLeaseExpired frm to ''expected -> QUEUED''
      else if frm \<noteq> TaskStatusLeased \<and> frm \<noteq> TaskStatusRunning
      then triggerErr TriggerLeaseExpired frm to ''lease can expire only from LEASED/RUNNING''
      else None)"
| "trigger_table TriggerWaitChildren frm to =
     (if frm \<noteq> TaskStatusRunning \<or> to \<noteq> TaskStatusWaitingForChildren
      then triggerErr TriggerWaitChildren frm to ''expected RUNNING -> WAITING_FOR_CHILDREN''
      else None)"
| "trigger_table TriggerChildrenDone frm to =
     (if frm \<noteq> TaskStatusWaitingForChildren
      then triggerErr TriggerChildrenDone frm to ''expected from WAITING_FOR_CHILDREN''
      else if to \<noteq> TaskStatusCompleted \<and> to \<noteq> TaskStatusFailed
      then triggerErr TriggerChildrenDone frm to ''must land COMPLETED or FAILED'' else None)"
| "trigger_table TriggerOperatorAnswer frm to =
     (if frm \<noteq> TaskStatusAwaitingInput \<or> to \<noteq> TaskStatusQueued
      then triggerErr TriggerOperatorAnswer frm to ''expected AWAITING_INPUT -> QUEUED'' else None)"
| "trigger_table TriggerOperatorDirective frm to =
     (if to \<noteq> TaskStatusQueued then triggerErr TriggerOperatorDirective frm to ''expected -> QUEUED''
      else if IsTerminalTaskStatus frm
      then triggerErr TriggerOperatorDirective frm to ''task is terminal''
      else if frm = TaskStatusRunning \<or> frm = TaskStatusLeased
      then triggerErr TriggerOperatorDirective frm to
             ''directive during running execution must queue, not transition''
      else None)"
| "trigger_table TriggerOperatorAmend frm to =
     (if to \<noteq> TaskStatusQueued then triggerErr TriggerOperatorAmend frm to ''expected -> QUEUED''
      else if IsTerminalTaskStatus frm
      then triggerErr TriggerOperatorAmend frm to ''task is terminal''
      else if frm = TaskStatusRunning \<or> frm = TaskStatusLeased
      then triggerErr TriggerOperatorAmend frm to
             ''directive during running execution must queue, not transition''
      else None)"
| "trigger_table TriggerOperatorPause frm to =
     (if to \<noteq> TaskStatusPaused then triggerErr TriggerOperatorPause frm to ''expected -> PAUSED''
      else if \<not> IsActiveTaskStatus frm \<and> \<not> IsAwaitingInput frm
      then triggerErr TriggerOperatorPause frm to ''can only pause an active or awaiting task''
      else None)"
| "trigger_table TriggerOperatorResume frm to =
     (if frm \<noteq> TaskStatusPaused \<or> to \<noteq> TaskStatusQueued
      then triggerErr TriggerOperatorResume frm to ''expected PAUSED -> QUEUED'' else None)"
| "trigger_table TriggerOperatorCancel frm to =
     (if to \<noteq> TaskStatusCancelled
      then triggerErr TriggerOperatorCancel frm to ''expected -> CANCELLED''
      else if IsTerminalTaskStatus frm
      then triggerErr TriggerOperatorCancel frm to ''task already terminal'' else None)"
| "trigger_table TriggerOperatorClose frm to =
     (if to \<noteq> TaskStatusClosed then triggerErr TriggerOperatorClose frm to ''expected -> CLOSED''
      else if frm \<in> {TaskStatusCompleted, TaskStatusAwaitingInput, TaskStatusAwaitingExternal,
                     TaskStatusFailed}
      then None
      else triggerErr TriggerOperatorClose frm to
             ''task must be COMPLETED, FAILED, or AWAITING_* to close'')"
| "trigger_table TriggerOperatorApprove frm to =
     (if frm \<noteq> TaskStatusAwaitingApproval \<or> to \<noteq> TaskStatusQueued
      then triggerErr TriggerOperatorApprove frm to ''expected AWAITING_APPROVAL -> QUEUED''
      else None)"
| "trigger_table TriggerOperatorReject frm to =
     (if frm \<noteq> TaskStatusAwaitingApproval \<or> to \<noteq> TaskStatusCancelled
      then triggerErr TriggerOperatorReject frm to ''expected AWAITING_APPROVAL -> CANCELLED''
      else None)"
| "trigger_table TriggerExternalEvent frm to =
     (if frm \<noteq> TaskStatusAwaitingExternal \<or> to \<noteq> TaskStatusQueued
      then triggerErr TriggerExternalEvent frm to ''expected AWAITING_EXTERNAL -> QUEUED''
      else None)"
| "trigger_table TriggerExternalDeadline frm to =
     (if frm \<noteq> TaskStatusAwaitingExternal \<or> to \<noteq> TaskStatusQueued
      then triggerErr TriggerExternalDeadline frm to ''expected AWAITING_EXTERNAL -> QUEUED''
      else None)"
| "trigger_table (TriggerOther t) frm to = Some (UnknownTrigger t)"

definition ValidateTransition ::
  "task_status \<Rightarrow> task_status \<Rightarrow> transition_trigger \<Rightarrow> transition_error option" where
  "ValidateTransition frm to trigger =
     (if frm = to then
        (if trigger \<in> {TriggerOperatorPause, TriggerOperatorResume, TriggerOperatorClose,
                       TriggerOperatorCancel}
         then None else Some (SelfLoop frm to trigger))
      else if IsTerminalTaskStatus frm \<and>
              \<not> (trigger = TriggerOperatorClose \<and> frm = TaskStatusFailed \<and> to = TaskStatusClosed)
      then Some (TerminalOrigin frm to)
      else trigger_table trigger frm to)"

section \<open>The lifecycle as a step relation\<close>

text \<open>
  The documented lifecycle, one rule per arrow of the trigger table's comments, independent of the
  validator's order of checks. \<open>lifecycle_edge frm t to\<close>: trigger \<open>t\<close> moves a task from \<open>frm\<close> to
  the different status \<open>to\<close>.
\<close>

inductive lifecycle_edge :: "task_status \<Rightarrow> transition_trigger \<Rightarrow> task_status \<Rightarrow> bool" where
  enqueue: "frm \<in> {TaskStatusPending, TaskStatusAwaitingInput, TaskStatusAwaitingExternal,
      TaskStatusPaused, TaskStatusCompleted, TaskStatusLeased, TaskStatusRunning} \<Longrightarrow>
    lifecycle_edge frm TriggerEnqueue TaskStatusQueued"
| lease: "lifecycle_edge TaskStatusQueued TriggerLease TaskStatusLeased"
| start: "lifecycle_edge TaskStatusLeased TriggerStart TaskStatusRunning"
| finish: "lifecycle_edge TaskStatusRunning TriggerExecutionDone TaskStatusCompleted"
| crash: "lifecycle_edge TaskStatusRunning TriggerExecutionFailed TaskStatusFailed"
| checkpoint: "lifecycle_edge TaskStatusRunning TriggerCheckpointEmit TaskStatusAwaitingInput"
| ext_wait: "lifecycle_edge TaskStatusRunning TriggerExternalWait TaskStatusAwaitingExternal"
| lease_expired: "frm \<in> {TaskStatusLeased, TaskStatusRunning} \<Longrightarrow>
    lifecycle_edge frm TriggerLeaseExpired TaskStatusQueued"
| wait_children: "lifecycle_edge TaskStatusRunning TriggerWaitChildren TaskStatusWaitingForChildren"
| children_done: "to \<in> {TaskStatusCompleted, TaskStatusFailed} \<Longrightarrow>
    lifecycle_edge TaskStatusWaitingForChildren TriggerChildrenDone to"
| answer: "lifecycle_edge TaskStatusAwaitingInput TriggerOperatorAnswer TaskStatusQueued"
| directive: "t \<in> {TriggerOperatorDirective, TriggerOperatorAmend} \<Longrightarrow>
    \<not> IsTerminalTaskStatus frm \<Longrightarrow>
    frm \<notin> {TaskStatusQueued, TaskStatusRunning, TaskStatusLeased} \<Longrightarrow>
    lifecycle_edge frm t TaskStatusQueued"
| pause: "IsActiveTaskStatus frm \<or> IsAwaitingInput frm \<Longrightarrow>
    lifecycle_edge frm TriggerOperatorPause TaskStatusPaused"
| resume: "lifecycle_edge TaskStatusPaused TriggerOperatorResume TaskStatusQueued"
| cancel: "\<not> IsTerminalTaskStatus frm \<Longrightarrow>
    lifecycle_edge frm TriggerOperatorCancel TaskStatusCancelled"
| close: "frm \<in> {TaskStatusCompleted, TaskStatusAwaitingInput, TaskStatusAwaitingExternal,
      TaskStatusFailed} \<Longrightarrow>
    lifecycle_edge frm TriggerOperatorClose TaskStatusClosed"
| approve: "lifecycle_edge TaskStatusAwaitingApproval TriggerOperatorApprove TaskStatusQueued"
| reject: "lifecycle_edge TaskStatusAwaitingApproval TriggerOperatorReject TaskStatusCancelled"
| external: "t \<in> {TriggerExternalEvent, TriggerExternalDeadline} \<Longrightarrow>
    lifecycle_edge TaskStatusAwaitingExternal t TaskStatusQueued"

inductive_cases edge_from_failed: "lifecycle_edge TaskStatusFailed t to"
inductive_cases edge_from_cancelled: "lifecycle_edge TaskStatusCancelled t to"
inductive_cases edge_from_closed: "lifecycle_edge TaskStatusClosed t to"
inductive_cases edge_to_running: "lifecycle_edge frm t TaskStatusRunning"
inductive_cases edge_to_leased: "lifecycle_edge frm t TaskStatusLeased"

lemmas terminal_edges = edge_from_failed edge_from_cancelled edge_from_closed

lemma not_awaiting_terminal: "IsTerminalTaskStatus s \<Longrightarrow> \<not> IsActiveTaskStatus s \<and> \<not> IsAwaitingInput s"
  by (cases s) (auto simp: IsAwaitingInput_def)

lemma lifecycle_edge_distinct: "lifecycle_edge frm t to \<Longrightarrow> frm \<noteq> to"
  by (induction rule: lifecycle_edge.induct) (auto simp: IsAwaitingInput_def)

lemma lifecycle_edge_terminal:
  "lifecycle_edge frm t to \<Longrightarrow> IsTerminalTaskStatus frm \<Longrightarrow>
   frm = TaskStatusFailed \<and> t = TriggerOperatorClose \<and> to = TaskStatusClosed"
  by (induction rule: lifecycle_edge.induct) (auto simp: not_awaiting_terminal)

lemma trigger_table_edge:
  "trigger_table t frm to = None \<Longrightarrow> frm \<noteq> to \<Longrightarrow> lifecycle_edge frm t to"
  by (cases t) (auto simp: triggerErr_def intro: lifecycle_edge.intros split: if_splits)

lemma edge_trigger_table: "lifecycle_edge frm t to \<Longrightarrow> trigger_table t frm to = None"
  by (induction rule: lifecycle_edge.induct) auto

lemma validate_iff_edge:
  "ValidateTransition frm to t = None \<longleftrightarrow>
     lifecycle_edge frm t to \<or>
     frm = to \<and> t \<in> {TriggerOperatorPause, TriggerOperatorResume, TriggerOperatorClose,
                     TriggerOperatorCancel}"
proof (cases "frm = to")
  case True
  then show ?thesis
    using lifecycle_edge_distinct [of frm t to] by (auto simp: ValidateTransition_def)
next
  case False
  then show ?thesis
    using trigger_table_edge [of t frm to] edge_trigger_table [of frm t to]
      lifecycle_edge_terminal [of frm t to]
    by (auto simp: ValidateTransition_def)
qed

text \<open>Runs of validated transitions, in any order and under any triggers.\<close>

inductive lifecycle_path :: "task_status \<Rightarrow> task_status \<Rightarrow> bool" where
  here: "lifecycle_path s s"
| onward: "lifecycle_path r s \<Longrightarrow> ValidateTransition s s' t = None \<Longrightarrow> lifecycle_path r s'"

lemma lifecycle_path_trans: "lifecycle_path s u \<Longrightarrow> lifecycle_path r s \<Longrightarrow> lifecycle_path r u"
  by (induction rule: lifecycle_path.induct) (auto intro: lifecycle_path.onward)

lemma lifecycle_path_edge: "lifecycle_edge s t s' \<Longrightarrow> lifecycle_path s s'"
  by (rule lifecycle_path.onward [OF lifecycle_path.here, of _ _ t]) (simp add: validate_iff_edge)

lemma lifecycle_path_step: "lifecycle_edge s t s' \<Longrightarrow> lifecycle_path s' u \<Longrightarrow> lifecycle_path s u"
  by (rule lifecycle_path_trans [OF _ lifecycle_path_edge])

definition daemon_trigger :: "transition_trigger \<Rightarrow> bool" where
  "daemon_trigger t \<longleftrightarrow> t \<in> {TriggerEnqueue, TriggerLease, TriggerStart, TriggerExecutionDone,
     TriggerExecutionFailed, TriggerCheckpointEmit, TriggerExternalWait, TriggerLeaseExpired,
     TriggerWaitChildren, TriggerChildrenDone}"

definition operator_trigger :: "transition_trigger \<Rightarrow> bool" where
  "operator_trigger t \<longleftrightarrow> t \<in> {TriggerOperatorAnswer, TriggerOperatorDirective, TriggerOperatorAmend,
     TriggerOperatorPause, TriggerOperatorResume, TriggerOperatorCancel, TriggerOperatorClose,
     TriggerOperatorApprove, TriggerOperatorReject}"

lemma run_to_closed:
  "lifecycle_path TaskStatusCompleted TaskStatusClosed"
  "lifecycle_path TaskStatusRunning TaskStatusClosed"
  "lifecycle_path TaskStatusLeased TaskStatusClosed"
  "lifecycle_path TaskStatusQueued TaskStatusClosed"
proof -
  show c: "lifecycle_path TaskStatusCompleted TaskStatusClosed"
    by (rule lifecycle_path_edge [OF lifecycle_edge.close]) simp
  show r: "lifecycle_path TaskStatusRunning TaskStatusClosed"
    by (rule lifecycle_path_step [OF lifecycle_edge.finish c])
  show l: "lifecycle_path TaskStatusLeased TaskStatusClosed"
    by (rule lifecycle_path_step [OF lifecycle_edge.start r])
  show "lifecycle_path TaskStatusQueued TaskStatusClosed"
    by (rule lifecycle_path_step [OF lifecycle_edge.lease l])
qed

section \<open>Properties\<close>


text \<open>
  C2. End-of-life statuses are absorbing over whole runs: however many validated transitions
  follow, a CANCELLED or CLOSED task keeps its status and a FAILED task can only stay FAILED or be
  retired as CLOSED.
\<close>

theorem terminal_absorbing:
  assumes "lifecycle_path s s'" and "IsTerminalTaskStatus s"
  shows "s' = s \<or> s = TaskStatusFailed \<and> s' = TaskStatusClosed"
  using assms
proof (induction rule: lifecycle_path.induct)
  case (here s)
  then show ?case by simp
next
  case (onward r s s' t)
  from onward.IH [OF onward.prems] onward.prems have "IsTerminalTaskStatus s" by auto
  with onward.hyps(2) have "s' = s \<or> s = TaskStatusFailed \<and> s' = TaskStatusClosed"
    by (auto simp: validate_iff_edge dest: lifecycle_edge_terminal)
  with onward.IH [OF onward.prems] show ?case by auto
qed

theorem terminal_absorbing_witness:
  "lifecycle_path TaskStatusFailed TaskStatusClosed \<and> IsTerminalTaskStatus TaskStatusFailed \<and>
   (TaskStatusClosed = TaskStatusFailed \<or>
    TaskStatusFailed = TaskStatusFailed \<and> TaskStatusClosed = TaskStatusClosed)"
proof -
  have p: "lifecycle_path TaskStatusFailed TaskStatusClosed"
    by (rule lifecycle_path_edge [OF lifecycle_edge.close]) simp
  show ?thesis using p terminal_absorbing [OF p] by simp
qed

text \<open>
  C3. Responsibilities do not mix. Daemon triggers never move a task to PAUSED, CLOSED or
  CANCELLED; operator triggers never move a task to LEASED, RUNNING, WAITING_FOR_CHILDREN,
  COMPLETED or FAILED; and a task enters RUNNING only from LEASED, and LEASED only from QUEUED.
\<close>

theorem trigger_separation:
  assumes "ValidateTransition frm to t = None" and "frm \<noteq> to"
  shows "(daemon_trigger t \<longrightarrow> to \<notin> {TaskStatusPaused, TaskStatusClosed, TaskStatusCancelled}) \<and>
    (operator_trigger t \<longrightarrow> to \<notin> {TaskStatusLeased, TaskStatusRunning, TaskStatusWaitingForChildren,
       TaskStatusCompleted, TaskStatusFailed}) \<and>
    (to = TaskStatusRunning \<longrightarrow> frm = TaskStatusLeased \<and> t = TriggerStart) \<and>
    (to = TaskStatusLeased \<longrightarrow> frm = TaskStatusQueued \<and> t = TriggerLease)"
proof -
  from assms have "lifecycle_edge frm t to" by (simp add: validate_iff_edge)
  then show ?thesis
    by cases (auto simp: daemon_trigger_def operator_trigger_def)
qed

theorem trigger_separation_witness:
  "ValidateTransition TaskStatusLeased TaskStatusRunning TriggerStart = None \<and>
   daemon_trigger TriggerStart \<and>
   TaskStatusRunning \<notin> {TaskStatusPaused, TaskStatusClosed, TaskStatusCancelled}"
proof -
  have v: "ValidateTransition TaskStatusLeased TaskStatusRunning TriggerStart = None"
    by (simp add: ValidateTransition_def)
  have d: "daemon_trigger TriggerStart" by (simp add: daemon_trigger_def)
  have "TaskStatusRunning \<notin> {TaskStatusPaused, TaskStatusClosed, TaskStatusCancelled}"
    using trigger_separation [OF v] d by blast
  with v d show ?thesis by blast
qed

text \<open>
  C4. No status is a dead end: from every declared status that is not CANCELLED, some sequence of
  validated transitions reaches CLOSED, so every task can be brought to an acknowledged end.
\<close>

theorem closure_always_reachable:
  assumes "declared_status s" and "s \<noteq> TaskStatusCancelled"
  shows "lifecycle_path s TaskStatusClosed"
proof -
  have via_queue: "lifecycle_path s TaskStatusClosed" if "lifecycle_edge s t TaskStatusQueued" for t
    using that run_to_closed(4) by (rule lifecycle_path_step)
  have waiting: "lifecycle_path TaskStatusWaitingForChildren TaskStatusClosed"
    by (rule lifecycle_path_step [OF lifecycle_edge.children_done run_to_closed(1)]) simp
  from assms show ?thesis
    using run_to_closed waiting via_queue
    by (cases s)
      (auto simp: declared_status_def intro: lifecycle_edge.intros lifecycle_path.here
        lifecycle_path_edge [OF lifecycle_edge.close])
qed

theorem closure_always_reachable_witness:
  "declared_status TaskStatusAwaitingApproval \<and>
   lifecycle_path TaskStatusAwaitingApproval TaskStatusClosed"
proof -
  have d: "declared_status TaskStatusAwaitingApproval" by (simp add: declared_status_def)
  show ?thesis using d closure_always_reachable [OF d] by simp
qed

end
