(* ===== verification/TaskLeasing.thy ===== *)
theory TaskLeasing
  imports TaskStore TaskStateMachine
begin

text \<open>
  Properties of the SQLite task repository: what a lease grants and to whom, the per-project
  concurrency cap, fencing of stale lease holders, exclusion over arbitrary interleavings of
  repository operations, and the table invariants. An interleaving is a list of \<open>store_op\<close>
  values, one per repository call, run in order: SQLite serialises writers, so every concurrent
  execution of the daemon's goroutines is one such list.
\<close>

section \<open>Interleavings of repository calls\<close>

datatype store_op =
    OpCreate task
  | OpUpdate task
  | OpDelete string
  | OpUpdateStatus string task_status
  | OpCancel string
  | OpTransition string "task_status list" task_status transition_opts
  | OpRequeue string int int
  | OpLease lease_options
  | OpRenew string string int
  | OpRelease string string task_status release_options
  | OpClock nanos

fun store_step :: "store_op \<Rightarrow> db \<Rightarrow> db" where
  "store_step (OpCreate t) d = snd (Create (Some t) d)"
| "store_step (OpUpdate t) d = snd (Update (Some t) d)"
| "store_step (OpDelete i) d = Delete i d"
| "store_step (OpUpdateStatus i s) d = snd (UpdateStatus i s d)"
| "store_step (OpCancel i) d = snd (TransitionToCancelled i d)"
| "store_step (OpTransition i frm to opts) d = snd (TransitionConditional i frm to opts d)"
| "store_step (OpRequeue i a m) d = snd (RequeueTerminalTask i a m d)"
| "store_step (OpLease opts) d = snd (LeaseTask opts d)"
| "store_step (OpRenew i l n) d = snd (RenewLease i l n d)"
| "store_step (OpRelease i l s opts) d = snd (ReleaseLease i l s opts d)"
| "store_step (OpClock now) d = d\<lparr>db_now := now\<rparr>"

definition store_run :: "store_op list \<Rightarrow> db \<Rightarrow> db" where
  "store_run ops d = fold store_step ops d"

lemma store_run_Nil [simp]: "store_run [] d = d"
  by (simp add: store_run_def)

lemma store_run_Cons [simp]: "store_run (op # ops) d = store_run ops (store_step op d)"
  by (simp add: store_run_def)

text \<open>An invariant of every step holds after every run whose operations satisfy a side condition.\<close>

lemma store_run_invariant:
  assumes "\<And>op d. Q op \<Longrightarrow> I d \<Longrightarrow> I (store_step op d)" and "list_all Q ops" and "I d"
  shows "I (store_run ops d)"
  using assms(2,3) by (induction ops arbitrary: d) (auto intro: assms(1))

lemma store_step_ok: "tasks_ok (db_tasks d) \<Longrightarrow> tasks_ok (db_tasks (store_step op d))"
  by (cases op) (auto intro: wf_intros surjective_pairing)

section \<open>Lookups by id\<close>

lemma Get_row:
  "tasks_ok (db_tasks d) \<Longrightarrow> t \<in> set (db_tasks d) \<Longrightarrow> Get (task_ID t) d = Inr (scanSqliteTask t)"
  by (simp add: Get_def scan_one_def filter_key_unique tasks_ok_distinct query_row_def)

lemma Get_missing: "(\<forall>t \<in> set (db_tasks d). task_ID t \<noteq> i) \<Longrightarrow> Get i d = Inl ErrNotFound"
  by (simp add: Get_def scan_one_def query_row_def filter_False)

lemma Get_cases:
  assumes "tasks_ok (db_tasks d)"
  shows "(Get i d = Inl ErrNotFound \<and> (\<forall>t \<in> set (db_tasks d). task_ID t \<noteq> i)) \<or>
    (\<exists>t \<in> set (db_tasks d). task_ID t = i \<and> Get i d = Inr (scanSqliteTask t))"
  using Get_row [OF assms] Get_missing [of d i] by blast

section \<open>The outcome of a lease\<close>

lemma dependencies_doneD:
  "dependencies_done ts t \<Longrightarrow>
   \<forall>i \<in> set (task_Dependencies t). \<exists>p \<in> set ts. task_ID p = i \<and> task_Status p = TaskStatusCompleted"
  by (fastforce simp: dependencies_done_def list_all_iff list_ex_iff)

definition granted_lease :: "db \<Rightarrow> string" where
  "granted_lease d = ''lease-'' @ hex_encode (hd (db_rand d))"

lemma LeaseTask_cases:
  assumes ok: "tasks_ok (db_tasks d)" and run: "LeaseTask opts d = (r, d')"
  obtains (no_random) "db_rand d = []" "r = Inl (ErrOther ''crypto/rand unavailable'')" "d' = d"
  | (idle) "db_rand d \<noteq> []" "r = Inl ErrNoTasksAvailable" "db_tasks d' = db_tasks d"
      "\<forall>c \<in> set (db_tasks d). \<not> lease_candidate opts (db_tasks d) c"
  | (leased) c where "db_rand d \<noteq> []" "c \<in> set (db_tasks d)" "lease_candidate opts (db_tasks d) c"
      "\<forall>c' \<in> set (db_tasks d). lease_candidate opts (db_tasks d) c' \<longrightarrow>
         lease_order opts c \<le> lease_order opts c'"
      "db_tasks d' = sql_update (\<lambda>t. task_ID t = task_ID c)
         (leased_row (granted_lease d) opts (db_now d)) (db_tasks d)"
      "r = Inr (scanSqliteTask (leased_row (granted_lease d) opts (db_now d) c))"
proof (cases "db_rand d")
  case Nil
  with run show ?thesis by (intro no_random) (simp_all add: LeaseTask_def newLeaseID_def)
next
  case (Cons b bs)
  let ?ts = "db_tasks d" and ?l = "granted_lease d"
  show ?thesis
  proof (cases "query_row (select_asc (lease_candidate opts ?ts) (lease_order opts) ?ts)")
    case None
    with run Cons have "r = Inl ErrNoTasksAvailable" "db_tasks d' = ?ts"
      by (auto simp: LeaseTask_def newLeaseID_def)
    with None Cons show ?thesis by (intro idle) (simp_all add: select_asc_empty)
  next
    case (Some c)
    let ?ts' = "sql_update (\<lambda>t. task_ID t = task_ID c) (leased_row ?l opts (db_now d)) ?ts"
    from Some have c: "c \<in> set ?ts" "lease_candidate opts ?ts c"
      "\<forall>c' \<in> set ?ts. lease_candidate opts ?ts c' \<longrightarrow> lease_order opts c \<le> lease_order opts c'"
      by (auto dest: query_row_select_asc_least)
    from run Cons Some have d': "db_tasks d' = ?ts'" and r: "r = Get (task_ID c) d'"
      by (auto simp: LeaseTask_def newLeaseID_def Let_def granted_lease_def)
    have "tasks_ok ?ts'"
      using ok by (rule tasks_ok_sql_update) (simp_all add: keeps_keys_rows)
    moreover have "leased_row ?l opts (db_now d) c \<in> set ?ts'"
      using c(1) by (auto simp: in_set_sql_update)
    ultimately have "r = Inr (scanSqliteTask (leased_row ?l opts (db_now d) c))"
      using Get_row [of d' "leased_row ?l opts (db_now d) c"] by (simp add: r d')
    with Cons show ?thesis by (intro leased [OF _ c d']) simp_all
  qed
qed

text \<open>
  \<^bold>\<open>C5.\<close> What \<open>LeaseTask\<close> grants. When it returns a task, that task was a QUEUED row without a
  lease, inside the requested project and priority floor, of a project neither excluded nor at its
  cap, with every dependency present and COMPLETED; no other such row comes earlier in (project
  priority, task priority, creation time) order; exactly that row becomes LEASED, held by the caller
  under a fresh lease id for the requested duration, every other row is untouched, and the returned
  task is the stored row.
\<close>

theorem lease_task_grants:
  assumes "tasks_ok (db_tasks d)" and "LeaseTask opts d = (Inr t, d')"
  shows "\<exists>c \<in> set (db_tasks d).
    task_Status c = TaskStatusQueued \<and> task_LeaseID c = None \<and>
    (lo_ProjectID opts = [] \<or> task_ProjectID c = lo_ProjectID opts) \<and>
    task_ProjectID c \<notin> set (lo_ExcludedProjects opts) \<and>
    task_ProjectID c \<notin> set (computeOverCapProjects (lo_ProjectConcurrencyLimits opts) (db_tasks d)) \<and>
    (lo_PriorityFloor opts \<le> 0 \<or> lo_PriorityFloor opts \<le> task_Priority c) \<and>
    (\<forall>i \<in> set (task_Dependencies c). \<exists>p \<in> set (db_tasks d).
       task_ID p = i \<and> task_Status p = TaskStatusCompleted) \<and>
    (\<forall>c' \<in> set (db_tasks d). lease_candidate opts (db_tasks d) c' \<longrightarrow>
       lease_order opts c \<le> lease_order opts c') \<and>
    db_tasks d' = map (\<lambda>r. if r = c then c\<lparr>task_Status := TaskStatusLeased,
        task_LeaseID := Some (granted_lease d), task_LeasedAt := Some (db_now d),
        task_LeasedBy := Some (lo_LeaseHolder opts),
        task_LeaseExpiresAt := Some (db_now d + lo_LeaseDurationSeconds opts * 1000000000),
        task_UpdatedAt := db_now d\<rparr> else r) (db_tasks d) \<and>
    Get (task_ID c) d' = Inr t"
  using assms
proof (cases rule: LeaseTask_cases)
  case (leased c)
  have upd: "db_tasks d' = map (\<lambda>r. if r = c then leased_row (granted_lease d) opts (db_now d) c else r)
      (db_tasks d)"
    using leased(2,5) assms(1) by (auto simp: sql_update_def dest: tasks_ok_unique)
  have "tasks_ok (db_tasks d')" using assms(2,1) by (rule LeaseTask_ok)
  moreover have "leased_row (granted_lease d) opts (db_now d) c \<in> set (db_tasks d')"
    using leased(2) by (force simp: upd)
  ultimately have "Get (task_ID c) d' = Inr t"
    using Get_row [of d' "leased_row (granted_lease d) opts (db_now d) c"] leased(6) by simp
  moreover have "dependencies_done (db_tasks d) c"
    using leased(3) by (simp add: lease_candidate_def)
  note dependencies_doneD [OF this]
  ultimately show ?thesis
    using leased(3) upd [unfolded leased_row_def Second_def]
    by (intro bexI [OF _ leased(2)] conjI leased(4)) (simp_all add: lease_candidate_def)
qed simp_all

definition demo_task :: "string \<Rightarrow> task_status \<Rightarrow> task" where
  "demo_task i s = zero_task\<lparr>task_ID := i, task_ProjectID := ''p'',
     task_CreationSource := TaskCreationSourceUser, task_Status := s, task_Priority := 50,
     task_Attempt := 1, task_MaxAttempts := 3, task_CreatedAt := 5, task_UpdatedAt := 5\<rparr>"

definition demo_db :: db where
  "demo_db = \<lparr>db_tasks = [demo_task ''t1'' TaskStatusCompleted,
       (demo_task ''t2'' TaskStatusQueued)\<lparr>task_Dependencies := [''t1'']\<rparr>],
     db_messages = [], db_now = 7, db_rand = [''ab'', ''cd'']\<rparr>"

definition demo_opts :: lease_options where
  "demo_opts = \<lparr>lo_ProjectID = [], lo_LeaseHolder = ''w'', lo_LeaseDurationSeconds = 60,
     lo_PriorityFloor = 0, lo_ProjectConcurrencyLimits = [''p'' \<mapsto> 1],
     lo_ProjectPriorities = Map.empty, lo_ProjectPriorityDefault = 0, lo_ExcludedProjects = []\<rparr>"

lemma demo_db_ok: "tasks_ok (db_tasks demo_db)"
  by (simp add: tasks_ok_def demo_db_def demo_task_def zero_task_def idem_keys_def row_check_def
      creation_source_check_def delegation_mode_check_def)

lemma demo_lease: "\<exists>t d'. LeaseTask demo_opts demo_db = (Inr t, d') \<and> task_ProjectID t = ''p''"
  by (simp add: LeaseTask_def newLeaseID_def demo_db_def demo_opts_def demo_task_def zero_task_def
      select_asc_def lease_candidate_def computeOverCapProjects_def active_row_def
      dependencies_done_def query_row_def Get_def scan_one_def)

theorem lease_task_grants_witness:
  "\<exists>t d' c. LeaseTask demo_opts demo_db = (Inr t, d') \<and> c \<in> set (db_tasks demo_db) \<and>
     task_Status c = TaskStatusQueued \<and> Get (task_ID c) d' = Inr t"
proof -
  obtain t d' where "LeaseTask demo_opts demo_db = (Inr t, d')" using demo_lease by blast
  then show ?thesis using lease_task_grants [OF demo_db_ok] by blast
qed

section \<open>Per-project concurrency\<close>

lemma active_count_Nil [simp]: "active_count q [] = 0"
  by (simp add: active_count_def)

lemma active_count_Cons [simp]:
  "active_count q (t # ts) = (if task_ProjectID t = q \<and> active_row t then 1 else 0) + active_count q ts"
  by (simp add: active_count_def)

lemma active_count_update_key:
  assumes "distinct (map task_ID ts)" and "c \<in> set ts" and "\<not> active_row c" and "active_row (f c)"
    and "\<And>t. task_ProjectID (f t) = task_ProjectID t"
  shows "active_count q (sql_update (\<lambda>t. task_ID t = task_ID c) f ts) =
    active_count q ts + (if q = task_ProjectID c then 1 else 0)"
  using assms(1,2)
proof (induction ts)
  case Nil
  then show ?case by simp
next
  case (Cons a ts)
  show ?case
  proof (cases "a = c")
    case True
    with Cons.prems(1) have "sql_update (\<lambda>t. task_ID t = task_ID c) f ts = ts"
      by (intro sql_update_id) (auto simp: image_iff)
    with True assms(3-5) show ?thesis by simp
  next
    case False
    with Cons.prems have "c \<in> set ts" "task_ID a \<noteq> task_ID c" by auto
    with Cons show ?thesis by simp
  qed
qed

lemma overcap_iff:
  "p \<in> set (computeOverCapProjects limits ts) \<longleftrightarrow>
   active_count p ts \<ge> 1 \<and> (\<exists>cap. limits p = Some cap \<and> active_count p ts \<ge> cap)"
proof -
  have "active_count p ts \<ge> 1 \<longleftrightarrow> (\<exists>t \<in> set ts. active_row t \<and> task_ProjectID t = p)"
    unfolding active_count_def
    by (metis (mono_tags, lifting) filter_False filter_empty_conv length_0_conv less_one
        linorder_not_le nat_int_comparison(3) of_nat_1)
  then show ?thesis by (auto simp: computeOverCapProjects_def split: option.splits)
qed

lemma candidate_below_cap:
  assumes "lease_candidate opts ts c" and "lo_ProjectConcurrencyLimits opts (task_ProjectID c) = Some cap"
    and "1 \<le> cap"
  shows "active_count (task_ProjectID c) ts < cap"
  using assms overcap_iff [of "task_ProjectID c" "lo_ProjectConcurrencyLimits opts" ts]
  by (cases "active_count (task_ProjectID c) ts \<ge> 1") (auto simp: lease_candidate_def)

text \<open>
  \<^bold>\<open>C3.\<close> Leasing respects the per-project concurrency caps. A granted lease raises the leased
  project's number of occupied slots (LEASED, RUNNING, or QUEUED with a lease) by exactly one, leaves
  every other project's number alone, and where the project has a cap (a positive number) the
  number stays within it.
\<close>

theorem lease_respects_cap:
  assumes "tasks_ok (db_tasks d)" and "LeaseTask opts d = (Inr t, d')"
  shows "(\<forall>q. active_count q (db_tasks d') =
      active_count q (db_tasks d) + (if q = task_ProjectID t then 1 else 0)) \<and>
    (\<forall>cap. lo_ProjectConcurrencyLimits opts (task_ProjectID t) = Some cap \<longrightarrow> 1 \<le> cap \<longrightarrow>
      active_count (task_ProjectID t) (db_tasks d') \<le> cap)"
  using assms
proof (cases rule: LeaseTask_cases)
  case (leased c)
  have "\<not> active_row c" using leased(3) by (simp add: lease_candidate_def active_row_def)
  then have "active_count q (db_tasks d') =
      active_count q (db_tasks d) + (if q = task_ProjectID t then 1 else 0)" for q
    using leased(2,5,6) assms(1)
    by (simp add: active_count_update_key tasks_ok_distinct active_row_def)
  moreover have "task_ProjectID t = task_ProjectID c" using leased(6) by simp
  ultimately show ?thesis
    using candidate_below_cap [OF leased(3)] by (auto simp: zless_imp_add1_zle)
qed simp_all

theorem lease_respects_cap_witness:
  "\<exists>t d'. LeaseTask demo_opts demo_db = (Inr t, d') \<and> active_count ''p'' (db_tasks d') = 1 \<and>
     lo_ProjectConcurrencyLimits demo_opts ''p'' = Some 1"
proof -
  obtain t d' where l: "LeaseTask demo_opts demo_db = (Inr t, d')" "task_ProjectID t = ''p''"
    using demo_lease by blast
  moreover have "active_count ''p'' (db_tasks demo_db) = 0"
    by (simp add: active_count_def demo_db_def demo_task_def active_row_def zero_task_def)
  ultimately show ?thesis
    using lease_respects_cap [OF demo_db_ok l(1)] by (simp add: demo_opts_def)
qed

lemma lease_progress:
  assumes "tasks_ok (db_tasks d)" and "db_rand d \<noteq> []"
  shows "if \<exists>c \<in> set (db_tasks d). lease_candidate opts (db_tasks d) c
    then \<exists>t d'. LeaseTask opts d = (Inr t, d')
    else \<exists>d'. LeaseTask opts d = (Inl ErrNoTasksAvailable, d') \<and> db_tasks d' = db_tasks d"
proof -
  obtain r d' where run: "LeaseTask opts d = (r, d')" by fastforce
  from assms(1) run show ?thesis by (cases rule: LeaseTask_cases) (use assms(2) run in auto)
qed



section \<open>Lease exclusion and fencing\<close>

definition lease_held :: "string \<Rightarrow> string \<Rightarrow> task \<Rightarrow> bool" where
  "lease_held i l t \<longleftrightarrow> task_ID t = i \<and> task_LeaseID t = Some l \<and> renewable_status (task_Status t)"

text \<open>
  The calls that may take task \<open>i\<close> away from the holder of lease \<open>l\<close>: those that address the row
  by its id alone, and the release with \<open>l\<close> itself. Leases, renewals, releases under any other
  lease id, requeues and creations are not among them.
\<close>

fun may_end_lease :: "string \<Rightarrow> string \<Rightarrow> store_op \<Rightarrow> bool" where
  "may_end_lease i l (OpUpdate t) \<longleftrightarrow> task_ID t = i"
| "may_end_lease i l (OpDelete j) \<longleftrightarrow> j = i"
| "may_end_lease i l (OpUpdateStatus j _) \<longleftrightarrow> j = i"
| "may_end_lease i l (OpCancel j) \<longleftrightarrow> j = i"
| "may_end_lease i l (OpTransition j _ _ _) \<longleftrightarrow> j = i"
| "may_end_lease i l (OpRelease j m _ _) \<longleftrightarrow> j = i \<and> m = l"
| "may_end_lease i l _ \<longleftrightarrow> False"

text \<open>The held row survives, up to the expiry and update times that renewals write.\<close>

definition same_but_times :: "task \<Rightarrow> task \<Rightarrow> bool" where
  "same_but_times t t' \<longleftrightarrow>
     t' = t\<lparr>task_LeaseExpiresAt := task_LeaseExpiresAt t', task_UpdatedAt := task_UpdatedAt t'\<rparr>"

lemma same_but_times_refl [simp]: "same_but_times t t"
  by (simp add: same_but_times_def)

lemma same_but_times_renew:
  "same_but_times t r \<Longrightarrow> same_but_times t (r\<lparr>task_LeaseExpiresAt := x, task_UpdatedAt := y\<rparr>)"
  by (cases r) (auto simp: same_but_times_def)

lemma same_but_times_held: "same_but_times t r \<Longrightarrow> lease_held i l r = lease_held i l t"
  by (cases t, cases r) (simp add: same_but_times_def lease_held_def)

lemma in_set_sql_update_if:
  "r \<in> set ts \<Longrightarrow> (if P r then f r else r) \<in> set (sql_update P f ts)"
  by (auto simp: in_set_sql_update)

lemma in_set_sql_update_keep: "r \<in> set ts \<Longrightarrow> \<not> P r \<Longrightarrow> r \<in> set (sql_update P f ts)"
  by (auto simp: in_set_sql_update)

lemma update_status_where_keep:
  "update_status_where P s f d = (res, d') \<Longrightarrow> r \<in> set (db_tasks d) \<Longrightarrow> \<not> P r \<Longrightarrow> r \<in> set (db_tasks d')"
  by (auto simp: update_status_where_def Let_def in_set_sql_update_keep split: if_splits)

lemma lease_step_keeps_row:
  assumes ok: "tasks_ok (db_tasks d)" and r: "r \<in> set (db_tasks d)" "lease_held i l r"
    and op: "\<not> may_end_lease i l op"
  shows "\<exists>r' \<in> set (db_tasks (store_step op d)).
    r' = r \<or> (\<exists>x y. r' = r\<lparr>task_LeaseExpiresAt := x, task_UpdatedAt := y\<rparr>)"
proof (cases op)
  case (OpLease opts)
  obtain res d' where run: "LeaseTask opts d = (res, d')" by fastforce
  from ok run have "r \<in> set (db_tasks d')"
  proof (cases rule: LeaseTask_cases)
    case (leased c)
    have "task_ID r \<noteq> task_ID c"
      using tasks_ok_unique [OF ok r(1) leased(2)] r(2) leased(3)
      by (auto simp: lease_held_def lease_candidate_def)
    with leased(5) r(1) show ?thesis by (simp add: in_set_sql_update_keep)
  qed (use r in simp_all)
  with run OpLease show ?thesis by auto
next
  case (OpRenew j m n)
  let ?P = "\<lambda>t. task_ID t = j \<and> task_LeaseID t = Some m \<and> renewable_status (task_Status t)"
  let ?f = "\<lambda>t. t\<lparr>task_LeaseExpiresAt := Some (db_now d + n * Second), task_UpdatedAt := db_now d\<rparr>"
  have "r \<in> set (sql_update ?P ?f (db_tasks d)) \<or> ?f r \<in> set (sql_update ?P ?f (db_tasks d))"
    using in_set_sql_update_if [OF r(1), of ?P ?f] by presburger
  with OpRenew r(1) show ?thesis by (simp add: RenewLease_def Let_def) blast
next
  case (OpCreate t)
  with r(1) show ?thesis by (auto simp: Create_def Let_def)
next
  case (OpUpdate t)
  with r op have "r \<in> set (db_tasks (store_step op d))"
    by (auto simp: Update_def Let_def lease_held_def intro: in_set_sql_update_keep)
  then show ?thesis by blast
next
  case (OpUpdateStatus j s)
  obtain res d' where u: "update_status_where (\<lambda>t. task_ID t = j) s (\<lambda>t. t\<lparr>task_UpdatedAt := db_now d\<rparr>) d
    = (res, d')" by fastforce
  with OpUpdateStatus r op have "r \<in> set (db_tasks d')"
    by (auto simp: lease_held_def dest: update_status_where_keep)
  with u OpUpdateStatus show ?thesis by (auto simp: UpdateStatus_def split: sum.split)
next
  case (OpTransition j frm to opts)
  obtain res d' where u: "update_status_where (\<lambda>t. task_Status t \<in> set frm \<and> task_ID t = j) to
      (apply_transition_opts (db_now d) opts) d = (res, d')" by fastforce
  with OpTransition r op have "r \<in> set (db_tasks d')"
    by (auto simp: lease_held_def dest: update_status_where_keep)
  with u OpTransition r(1) show ?thesis by (auto simp: TransitionConditional_def split: sum.split)
next
  case (OpRelease j m s opts)
  obtain res d' where run: "ReleaseLease j m s opts d = (res, d')" by fastforce
  with OpRelease r op have "r \<in> set (db_tasks d')"
    by (auto simp: lease_held_def dest!: ReleaseLease_tasks intro!: in_set_sql_update_keep)
  with run OpRelease show ?thesis by auto
qed (rule bexI [of _ r], simp, use r op in \<open>auto simp: Delete_def TransitionToCancelled_def
      RequeueTerminalTask_def Let_def lease_held_def renewable_status_def intro!: in_set_sql_update_keep\<close>)+

lemma lease_run_keeps_row:
  assumes "tasks_ok (db_tasks d)" and "r \<in> set (db_tasks d)" "lease_held i l r"
    and "list_all (\<lambda>op. \<not> may_end_lease i l op) ops"
  shows "\<exists>r' \<in> set (db_tasks (store_run ops d)). same_but_times r r'"
proof -
  let ?I = "\<lambda>d. tasks_ok (db_tasks d) \<and> (\<exists>r' \<in> set (db_tasks d). same_but_times r r')"
  have "?I (store_step op d)" if "\<not> may_end_lease i l op" "?I d" for op d
  proof -
    from that(2) obtain r' where r': "r' \<in> set (db_tasks d)" "same_but_times r r'" by blast
    with assms(3) have "lease_held i l r'" by (simp add: same_but_times_held)
    from lease_step_keeps_row [OF _ r'(1) this that(1)] that(2) obtain r''
      where r'': "r'' \<in> set (db_tasks (store_step op d))"
        "r'' = r' \<or> (\<exists>x y. r'' = r'\<lparr>task_LeaseExpiresAt := x, task_UpdatedAt := y\<rparr>)" by blast
    then have "same_but_times r r''" using r'(2) same_but_times_renew by blast
    with r''(1) that(2) show ?thesis by (blast intro: store_step_ok)
  qed
  from store_run_invariant [of "\<lambda>op. \<not> may_end_lease i l op" ?I, OF this assms(4), of d] assms(1,2)
  show ?thesis using same_but_times_refl by blast
qed

lemma holder_operations:
  assumes "tasks_ok (db_tasks d)" and "r \<in> set (db_tasks d)" "lease_held i l r"
  shows "fst (RenewLease i l n d) = None"
    and "m \<noteq> l \<Longrightarrow> RenewLease i m n d = (Some ErrLeaseNotFound, d)"
    and "m \<noteq> l \<Longrightarrow> snd (ReleaseLease i m s opts d) = d"
proof -
  have uniq: "t = r" if "t \<in> set (db_tasks d)" "task_ID t = i" for t
    using assms that by (auto simp: lease_held_def dest: tasks_ok_unique)
  show "fst (RenewLease i l n d) = None"
    using assms(2,3) by (auto simp: RenewLease_def Let_def lease_held_def sql_simps)
  assume m: "m \<noteq> l"
  then show "RenewLease i m n d = (Some ErrLeaseNotFound, d)"
    using assms(3) by (auto simp: RenewLease_def Let_def lease_held_def sql_simps dest: uniq)
  from m assms(3) have "\<not> (task_ID t = i \<and> task_LeaseID t = Some m)" if "t \<in> set (db_tasks d)" for t
    using that by (auto simp: lease_held_def dest: uniq)
  then show "snd (ReleaseLease i m s opts d) = d"
    by (auto simp: ReleaseLease_def update_status_where_def Let_def sql_simps rows_affected_def
        filter_empty_conv cong: conj_cong)
qed


definition held_row :: task where
  "held_row = (demo_task ''t1'' TaskStatusRunning)\<lparr>task_LeaseID := Some ''lease-a'',
     task_LeasedAt := Some 3, task_LeasedBy := Some ''w'', task_LeaseExpiresAt := Some 90\<rparr>"

definition held_db :: db where
  "held_db = demo_db\<lparr>db_tasks := [held_row]\<rparr>"

lemma held_db_facts:
  "tasks_ok (db_tasks held_db)" "held_row \<in> set (db_tasks held_db)"
  "lease_held ''t1'' ''lease-a'' held_row"
  by (simp_all add: tasks_ok_def held_db_def held_row_def demo_task_def zero_task_def idem_keys_def
      row_check_def creation_source_check_def delegation_mode_check_def lease_held_def
      renewable_status_def)


section \<open>Cancellation\<close>

definition cancellable :: "string \<Rightarrow> task \<Rightarrow> bool" where
  "cancellable i t \<longleftrightarrow> task_ID t = i \<and> task_Status t \<in> {TaskStatusQueued, TaskStatusLeased,
     TaskStatusRunning, TaskStatusPending}"

lemma TransitionToCancelled_alt:
  "TransitionToCancelled i d = (\<exists>t \<in> set (db_tasks d). cancellable i t,
     d\<lparr>db_tasks := sql_update (cancellable i) (\<lambda>t. t\<lparr>task_Status := TaskStatusCancelled,
        task_UpdatedAt := db_now d\<rparr>) (db_tasks d)\<rparr>)"
  by (simp add: TransitionToCancelled_def Let_def cancellable_def [abs_def] sql_simps)

text \<open>
  \<open>TransitionToCancelled\<close> decides the race between a cancellation and a worker. It reports
  success exactly when the task was PENDING, QUEUED, LEASED or RUNNING at that moment; on failure
  nothing changes; on success the task reads back CANCELLED and every later renewal of any lease on
  it fails with \<open>ErrLeaseNotFound\<close> (how the worker learns of it); and a row that is already
  terminal is never altered.
\<close>

theorem cancel_wins_or_changes_nothing:
  assumes ok: "tasks_ok (db_tasks d)" and run: "TransitionToCancelled i d = (won, d')"
  shows "(won \<longleftrightarrow> (\<exists>t \<in> set (db_tasks d). cancellable i t)) \<and> (won \<or> d' = d) \<and>
    (if won then (\<exists>t. Get i d' = Inr t \<and> task_Status t = TaskStatusCancelled) \<and>
       (\<forall>l n. RenewLease i l n d' = (Some ErrLeaseNotFound, d')) else True) \<and>
    {t \<in> set (db_tasks d). IsTerminalTaskStatus (task_Status t)} \<subseteq> set (db_tasks d')"
proof -
  let ?f = "\<lambda>t. t\<lparr>task_Status := TaskStatusCancelled, task_UpdatedAt := db_now d\<rparr>"
  from run have won: "won \<longleftrightarrow> (\<exists>t \<in> set (db_tasks d). cancellable i t)"
    and d': "d' = d\<lparr>db_tasks := sql_update (cancellable i) ?f (db_tasks d)\<rparr>"
    by (auto simp: TransitionToCancelled_alt)
  have ok': "tasks_ok (db_tasks d')" using run ok by (rule TransitionToCancelled_ok)
  have "d' = d" if "\<not> won" using that won by (simp add: d' sql_update_id)
  moreover have "t \<in> set (db_tasks d')"
    if "t \<in> set (db_tasks d)" "IsTerminalTaskStatus (task_Status t)" for t
    using that by (auto simp: d' cancellable_def intro!: in_set_sql_update_keep)
  moreover have "(\<exists>t. Get i d' = Inr t \<and> task_Status t = TaskStatusCancelled) \<and>
      (\<forall>l n. RenewLease i l n d' = (Some ErrLeaseNotFound, d'))" if won
  proof -
    from that won obtain t where t: "t \<in> set (db_tasks d)" "cancellable i t" by blast
    then have row: "?f t \<in> set (db_tasks d')" "task_ID (?f t) = i"
      by (auto simp: d' in_set_sql_update cancellable_def)
    then have only: "r = ?f t" if "r \<in> set (db_tasks d')" "task_ID r = i" for r
      using tasks_ok_unique [OF ok' that(1) row(1)] that(2) by simp
    have "RenewLease i l n d' = (Some ErrLeaseNotFound, d')" for l n
      by (auto simp: RenewLease_def Let_def sql_simps renewable_status_def dest: only)
    moreover have "Get i d' = Inr (scanSqliteTask (?f t))"
      using Get_row [OF ok' row(1)] row(2) by simp
    ultimately show ?thesis by simp
  qed
  ultimately show ?thesis using won by auto
qed

theorem cancel_wins_or_changes_nothing_witness:
  "\<exists>d'. TransitionToCancelled ''t1'' held_db = (True, d') \<and>
     RenewLease ''t1'' ''lease-a'' 60 d' = (Some ErrLeaseNotFound, d')"
proof -
  obtain won d' where run: "TransitionToCancelled ''t1'' held_db = (won, d')" by fastforce
  from cancel_wins_or_changes_nothing [OF held_db_facts(1) run]
  have "won" "RenewLease ''t1'' ''lease-a'' 60 d' = (Some ErrLeaseNotFound, d')"
    by (auto simp: held_db_def held_row_def cancellable_def demo_task_def zero_task_def split: if_splits)
  with run show ?thesis by auto
qed

end
