(* ===== verification/TaskTable.thy ===== *)
theory TaskTable
  imports TaskLeasing
begin

text \<open>
  Properties of the task table as a whole: the schema's constraints and the all-or-nothing lease
  columns hold after every interleaving of repository calls; creating a task and reading it back;
  idempotent creation; which expired leases the recovery query returns; and how \<open>Count\<close> relates to
  \<open>List\<close>.
\<close>

section \<open>Table invariants\<close>

definition supplied_lease_ok :: "store_op \<Rightarrow> bool" where
  "supplied_lease_ok op \<longleftrightarrow> (case op of OpCreate t \<Rightarrow> lease_columns_ok t
     | OpUpdate t \<Rightarrow> lease_columns_ok t | _ \<Rightarrow> True)"

lemma list_all_sql_update:
  "list_all Q ts \<Longrightarrow> (\<And>t. Q t \<Longrightarrow> P t \<Longrightarrow> Q (f t)) \<Longrightarrow> list_all Q (sql_update P f ts)"
  by (auto simp: list_all_iff in_set_sql_update)

lemma lease_columns_ok_cong:
  "task_LeaseID t = task_LeaseID t' \<Longrightarrow> task_LeasedAt t = task_LeasedAt t' \<Longrightarrow>
   task_LeasedBy t = task_LeasedBy t' \<Longrightarrow> task_LeaseExpiresAt t = task_LeaseExpiresAt t' \<Longrightarrow>
   lease_columns_ok t = lease_columns_ok t'"
  by (simp add: lease_columns_ok_def lease_free_def lease_full_def)

lemma lease_columns_rows:
  "lease_columns_ok (leased_row l opts now t)" "lease_columns_ok (released_row s ro now t)"
  "lease_columns_ok (clear_lease t)"
  "lease_columns_ok u \<Longrightarrow> lease_columns_ok (updated_row u now t)"
  "lease_columns_ok u \<Longrightarrow> lease_columns_ok (insert_row u)"
  "lease_columns_ok u \<Longrightarrow> lease_columns_ok (create_defaults now u)"
  by (simp_all add: lease_columns_ok_def lease_free_def lease_full_def leased_row_def released_row_def
      clear_lease_def updated_row_def insert_row_def create_defaults_def Let_def)

lemma lease_columns_status [simp]:
  "lease_columns_ok (t\<lparr>task_Status := s\<rparr>) = lease_columns_ok t"
  "lease_columns_ok (t\<lparr>task_UpdatedAt := u\<rparr>) = lease_columns_ok t"
  by (rule lease_columns_ok_cong; simp)+

lemma update_status_where_columns:
  assumes "list_all lease_columns_ok (db_tasks d)" and "\<And>t. lease_columns_ok t \<Longrightarrow> lease_columns_ok (f t)"
  shows "list_all lease_columns_ok (db_tasks (snd (update_status_where P s f d)))"
  using assms by (auto simp: update_status_where_def Let_def intro!: list_all_sql_update)

lemma snd_UpdateStatus:
  "snd (UpdateStatus i s d) =
   snd (update_status_where (\<lambda>t. task_ID t = i) s (\<lambda>t. t\<lparr>task_UpdatedAt := db_now d\<rparr>) d)"
  by (simp add: UpdateStatus_def split: prod.split sum.split)

lemma snd_TransitionConditional:
  "snd (TransitionConditional i frm to opts d) =
   (if i = [] \<or> to = TaskStatusOther [] \<or> frm = [] then d
    else snd (update_status_where (\<lambda>t. task_Status t \<in> set frm \<and> task_ID t = i) to
           (apply_transition_opts (db_now d) opts) d))"
  by (simp add: TransitionConditional_def split: prod.split sum.split)

lemma store_step_columns:
  assumes "supplied_lease_ok op" and cols: "list_all lease_columns_ok (db_tasks d)"
  shows "list_all lease_columns_ok (db_tasks (store_step op d))"
proof (cases op)
  case (OpCreate t)
  with assms show ?thesis
    by (simp add: Create_def Let_def supplied_lease_ok_def lease_columns_rows)
next
  case (OpUpdate t)
  with assms show ?thesis
    by (simp add: Update_def Let_def supplied_lease_ok_def lease_columns_rows list_all_sql_update)
next
  case (OpDelete i)
  with cols show ?thesis by (auto simp: Delete_def list_all_iff)
next
  case (OpUpdateStatus i s)
  with cols show ?thesis by (simp add: snd_UpdateStatus update_status_where_columns)
next
  case (OpTransition i frm to opts)
  with cols show ?thesis
    by (simp add: snd_TransitionConditional update_status_where_columns apply_transition_opts_lease)
next
  case (OpLease opts)
  with cols show ?thesis
    by (auto simp: LeaseTask_def Let_def lease_columns_rows split: prod.splits sum.splits option.splits
        dest!: newLeaseID_tasks intro!: list_all_sql_update)
next
  case (OpRenew i l n)
  with cols show ?thesis
    by (auto simp: RenewLease_def Let_def lease_columns_ok_def lease_free_def lease_full_def
        intro!: list_all_sql_update)
next
  case (OpRelease i l s opts)
  obtain r d' where "ReleaseLease i l s opts d = (r, d')" by fastforce
  with OpRelease cols show ?thesis
    by (auto dest!: ReleaseLease_tasks simp: lease_columns_rows list_all_sql_update)
qed (use cols in \<open>auto simp: TransitionToCancelled_def RequeueTerminalTask_def Let_def
      lease_columns_ok_def lease_free_def lease_full_def clear_lease_def intro!: list_all_sql_update\<close>)

text \<open>
  \<^bold>\<open>C6.\<close> The table invariant. After every interleaving of repository calls the task ids are
  distinct, no project has two tasks with the same idempotency key, every row's status, creation
  source and delegation mode are among the schema's, and (when the rows supplied by \<open>Create\<close> and
  \<open>Update\<close> are so) the four lease columns of every row are all null or all set.
\<close>

theorem table_invariant:
  assumes "tasks_ok (db_tasks d)" and "list_all lease_columns_ok (db_tasks d)"
    and "list_all supplied_lease_ok ops"
  shows "tasks_ok (db_tasks (store_run ops d)) \<and> list_all lease_columns_ok (db_tasks (store_run ops d))"
  by (rule store_run_invariant [of supplied_lease_ok]) (use assms in \<open>auto intro: store_step_ok store_step_columns\<close>)

theorem table_invariant_witness:
  "tasks_ok (db_tasks (store_run [OpClock 9, OpLease demo_opts, OpCancel ''t2''] demo_db)) \<and>
   list_all lease_columns_ok (db_tasks (store_run [OpClock 9, OpLease demo_opts, OpCancel ''t2''] demo_db))"
  by (rule table_invariant [OF demo_db_ok])
    (simp_all add: demo_db_def demo_task_def zero_task_def lease_columns_ok_def lease_free_def
      supplied_lease_ok_def)

section \<open>Creation\<close>

lemma create_defaults_frame [simp]:
  "task_ID (create_defaults now t) = task_ID t"
  "task_ProjectID (create_defaults now t) = task_ProjectID t"
  "task_IdempotencyKey (create_defaults now t) = task_IdempotencyKey t"
  by (simp_all add: create_defaults_def Let_def)

lemma insert_row_frame [simp]:
  "task_ID (insert_row t) = task_ID t" "task_ProjectID (insert_row t) = task_ProjectID t"
  "task_IdempotencyKey (insert_row t) = task_IdempotencyKey t"
  "task_CreationSource (insert_row t) = task_CreationSource t"
  by (simp_all add: insert_row_def)

lemma Create_SuccE:
  assumes "Create (Some t0) d = (Inr t, d')"
  obtains "t = create_defaults (db_now d) t0" "db_tasks d' = db_tasks d @ [insert_row t]"
    "tasks_ok (db_tasks d @ [insert_row t])"
  using assms by (auto simp: Create_def Let_def split: if_splits)

lemma idem_keys_append: "idem_keys (xs @ ys) = idem_keys xs @ idem_keys ys"
  by (simp add: idem_keys_def)

lemma in_idem_keys:
  "(p, Some k) \<in> set (idem_keys ts) \<longleftrightarrow>
   (\<exists>t \<in> set ts. task_ProjectID t = p \<and> task_IdempotencyKey t = Some k)"
  by (auto simp: idem_keys_def image_iff)

lemma append_key_fresh:
  assumes "tasks_ok (ts @ [t])" and "task_IdempotencyKey t = Some k" and "r \<in> set ts"
  shows "\<not> (task_ProjectID r = task_ProjectID t \<and> task_IdempotencyKey r = Some k)"
proof -
  have "idem_keys [t] = [(task_ProjectID t, Some k)]" using assms(2) by (simp add: idem_keys_def)
  with assms(1) have "(task_ProjectID t, Some k) \<notin> set (idem_keys ts)"
    by (simp add: tasks_ok_def idem_keys_append)
  with assms(3) show ?thesis by (auto simp: in_idem_keys)
qed

text \<open>
  Creating a task and reading it back. After a successful \<open>Create\<close> the task is found by its
  id and, when it has one, by its idempotency key, with every caller-supplied column and the
  defaults (creation and update time, attempt 1 of 3, QUEUED, USER) for the ones left zero; the
  lookups of every other id are unchanged. A second task of the same project with the same
  idempotency key is refused and nothing changes.
\<close>

theorem create_round_trip:
  assumes "Create (Some t0) d = (Inr t, d')"
  shows "Get (task_ID t0) d' = Inr (scanSqliteTask (insert_row (create_defaults (db_now d) t0))) \<and>
    (\<forall>k. task_IdempotencyKey t0 = Some k \<longrightarrow>
       GetByIdempotencyKey (task_ProjectID t0) k d' =
         Inr (scanSqliteTask (insert_row (create_defaults (db_now d) t0))) \<and>
       (\<forall>u. task_ProjectID u = task_ProjectID t0 \<and> task_IdempotencyKey u = Some k \<longrightarrow>
          Create (Some u) d' = (Inl (ErrConstraint ''tasks''), d'))) \<and>
    (\<forall>i. i \<noteq> task_ID t0 \<longrightarrow> Get i d' = Get i d)"
  using assms
proof (cases rule: Create_SuccE)
  case 1
  let ?row = "insert_row t"
  have get: "Get (task_ID t0) d' = Inr (scanSqliteTask ?row)"
    using Get_row [of d' ?row] 1 by simp
  have others: "Get i d' = Get i d" if "i \<noteq> task_ID t0" for i
    using that 1 by (simp add: Get_def)
  have idem: "GetByIdempotencyKey (task_ProjectID t0) k d' = Inr (scanSqliteTask ?row) \<and>
      (\<forall>u. task_ProjectID u = task_ProjectID t0 \<and> task_IdempotencyKey u = Some k \<longrightarrow>
          Create (Some u) d' = (Inl (ErrConstraint ''tasks''), d'))"
    if k: "task_IdempotencyKey t0 = Some k" for k
  proof -
    have "\<not> (task_ProjectID r = task_ProjectID t0 \<and> task_IdempotencyKey r = Some k)"
      if "r \<in> set (db_tasks d)" for r
      using append_key_fresh [OF 1(3) _ that] 1(1) k by simp
    then have "filter (\<lambda>t. task_ProjectID t = task_ProjectID t0 \<and> task_IdempotencyKey t = Some k)
        (db_tasks d') = [?row]"
      using 1(1,2) k by (simp add: filter_empty_conv)
    moreover have "\<not> tasks_ok (db_tasks d' @ [insert_row (create_defaults n u)])"
      if "task_ProjectID u = task_ProjectID t0" "task_IdempotencyKey u = Some k" for n u
      using append_key_fresh [of "db_tasks d'" "insert_row (create_defaults n u)" k ?row] that 1 k by auto
    ultimately show ?thesis
      by (simp add: GetByIdempotencyKey_def scan_one_def query_row_def Create_def Let_def)
  qed
  from get others idem 1(1) show ?thesis by blast
qed

theorem create_round_trip_witness:
  "\<exists>t d'. Create (Some (demo_task ''t9'' TaskStatusQueued)) demo_db = (Inr t, d') \<and>
     Get ''t9'' d' = Inr (scanSqliteTask (insert_row (create_defaults 7 (demo_task ''t9'' TaskStatusQueued))))"
proof -
  let ?t = "demo_task ''t9'' TaskStatusQueued"
  obtain t d' where "Create (Some ?t) demo_db = (Inr t, d')"
    by (simp add: Create_def Let_def tasks_ok_def idem_keys_def row_check_def creation_source_check_def
        delegation_mode_check_def insert_row_def create_defaults_def demo_db_def demo_task_def zero_task_def)
  with create_round_trip [of ?t demo_db t d'] show ?thesis by (auto simp: demo_task_def demo_db_def)
qed

text \<open>
  The SQLite schema refuses two creation sources the program uses. A task whose source is
  CHECKPOINT (the executor's checkpoint tasks) or FORK (forked replays) never gets stored: the
  \<open>CHECK\<close> on \<open>creation_source\<close> lists neither, and \<open>Create\<close> returns the constraint error.
\<close>

theorem create_refuses_checkpoint_and_fork:
  assumes "task_CreationSource t \<in> {TaskCreationSourceCheckpoint, TaskCreationSourceFork}"
  shows "Create (Some t) d = (Inl (ErrConstraint ''tasks''), d)"
proof -
  have "\<not> row_check (insert_row (create_defaults (db_now d) t))"
    using assms by (auto simp: row_check_def creation_source_check_def create_defaults_def Let_def)
  then show ?thesis by (simp add: Create_def Let_def tasks_ok_def)
qed

theorem create_refuses_checkpoint_and_fork_witness:
  "Create (Some ((demo_task ''t3'' TaskStatusQueued)\<lparr>task_CreationSource := TaskCreationSourceCheckpoint\<rparr>))
     demo_db = (Inl (ErrConstraint ''tasks''), demo_db)"
  by (rule create_refuses_checkpoint_and_fork) simp

section \<open>Expired leases\<close>

lemma FindExpiredLeases_set:
  assumes "FindExpiredLeases n d = Inr ts"
  shows "t \<in> set ts \<Longrightarrow> \<exists>r \<in> set (db_tasks d). t = scanSqliteTask r \<and> lease_expired_row (db_now d) r"
  using assms set_sql_limit [of n "select_asc (lease_expired_row (db_now d)) lease_expiry_key (db_tasks d)"]
  by (fastforce simp: FindExpiredLeases_def)

text \<open>
  \<open>FindExpiredLeases\<close> returns what recovery needs, up to the clock resolution of the stored
  text: at most \<open>limit\<close> tasks; each is a QUEUED, LEASED or RUNNING row whose lease expires less than
  a second after now at the latest; and without a limit no such row whose lease expired a second ago
  or more is missed.
\<close>

theorem find_expired_leases_spec:
  assumes "FindExpiredLeases n d = Inr ts"
  shows "(\<forall>t \<in> set ts. \<exists>r \<in> set (db_tasks d). \<exists>e. t = scanSqliteTask r \<and>
      task_Status r \<in> {TaskStatusQueued, TaskStatusLeased, TaskStatusRunning} \<and>
      task_LeaseExpiresAt r = Some e \<and> e < db_now d + 1000000000) \<and>
    (0 \<le> n \<longrightarrow> length ts \<le> nat n) \<and>
    (n < 0 \<or> length (db_tasks d) \<le> nat n \<longrightarrow> (\<forall>r \<in> set (db_tasks d). \<forall>e.
      task_Status r \<in> {TaskStatusQueued, TaskStatusLeased, TaskStatusRunning} \<longrightarrow>
      task_LeaseExpiresAt r = Some e \<longrightarrow> e + 1000000000 \<le> db_now d \<longrightarrow> scanSqliteTask r \<in> set ts))"
proof -
  let ?sel = "select_asc (lease_expired_row (db_now d)) lease_expiry_key (db_tasks d)"
  have ts: "ts = map scanSqliteTask (sql_limit n ?sel)" using assms by (simp add: FindExpiredLeases_def)
  have expired: "lease_expired_row (db_now d) r" if "e + 1000000000 \<le> db_now d"
    "task_Status r \<in> {TaskStatusQueued, TaskStatusLeased, TaskStatusRunning}"
    "task_LeaseExpiresAt r = Some e" for r e
    using that sqliteTime_gap_less [of e "db_now d"] by (simp add: lease_expired_row_def Second_def)
  have sound: "\<exists>r \<in> set (db_tasks d). \<exists>e. t = scanSqliteTask r \<and>
      task_Status r \<in> {TaskStatusQueued, TaskStatusLeased, TaskStatusRunning} \<and>
      task_LeaseExpiresAt r = Some e \<and> e < db_now d + 1000000000" if t: "t \<in> set ts" for t
  proof -
    from FindExpiredLeases_set [OF assms t] obtain r
      where r: "r \<in> set (db_tasks d)" "t = scanSqliteTask r" "lease_expired_row (db_now d) r" by blast
    then show ?thesis
      by (intro bexI [OF _ r(1)])
        (auto simp: lease_expired_row_def Second_def split: option.splits dest!: sqliteTime_less_close)
  qed
  have all: "sql_limit n ?sel = ?sel" if "n < 0 \<or> length (db_tasks d) \<le> nat n"
  proof -
    have "length ?sel \<le> length (db_tasks d)" by (simp add: select_asc_def)
    with that show ?thesis by (auto simp: sql_limit_def)
  qed
  show ?thesis
    using sound expired all length_sql_limit [of n ?sel] by (auto simp: ts)
qed

theorem find_expired_leases_spec_witness:
  "\<exists>ts. FindExpiredLeases 10 (held_db\<lparr>db_now := 5000000000\<rparr>) = Inr ts \<and> scanSqliteTask held_row \<in> set ts"
proof -
  obtain ts where ts: "FindExpiredLeases 10 (held_db\<lparr>db_now := 5000000000\<rparr>) = Inr ts"
    by (simp add: FindExpiredLeases_def)
  from find_expired_leases_spec [OF ts] have "scanSqliteTask held_row \<in> set ts"
    by (simp add: held_db_def held_row_def demo_task_def zero_task_def)
  with ts show ?thesis by blast
qed

section \<open>Listing and counting\<close>

text \<open>
  \<open>List\<close> and \<open>Count\<close> agree where \<open>Count\<close> honours the filter. For a filter without
  \<open>UpdatedBefore\<close> the unpaged listing holds exactly the matching tasks, as many as \<open>Count\<close> says;
  a page of size \<open>n\<close> at offset \<open>o\<close> is the corresponding segment of it, so consecutive pages
  neither repeat nor drop a task; and an offset without a page size is a SQL error.
\<close>

theorem list_pages_and_count:
  assumes "tf_UpdatedBefore f = None" and "tf_PageSize f = 0" and "tf_Offset f = 0"
  shows "\<exists>all. List lt f d = Inr all \<and> int (length all) = Count f d \<and>
    (\<forall>t. t \<in> set all \<longleftrightarrow> (\<exists>r \<in> set (db_tasks d). t = scanSqliteTask r \<and>
       (tf_ProjectID f = None \<or> tf_ProjectID f = Some (task_ProjectID r)) \<and>
       (tf_Status f = None \<or> tf_Status f = Some (task_Status r)))) \<and>
    (\<forall>n k. 0 < n \<longrightarrow> 0 \<le> k \<longrightarrow>
       List lt (f\<lparr>tf_PageSize := n, tf_Offset := k\<rparr>) d = Inr (take (nat n) (drop (nat k) all))) \<and>
    (\<forall>k. 0 < k \<longrightarrow> (\<exists>e. List lt (f\<lparr>tf_Offset := k\<rparr>) d = Inl e))"
proof -
  let ?rows = "select_desc (list_filter lt f) (\<lambda>t. sqliteTime (task_CreatedAt t)) (db_tasks d)"
  let ?all = "map scanSqliteTask ?rows"
  have lf: "list_filter lt (f\<lparr>tf_PageSize := n, tf_Offset := k\<rparr>) = list_filter lt f" for n k
    by (simp add: list_filter_def [abs_def])
  have "List lt f d = Inr ?all" using assms by (simp add: List_def Let_def)
  moreover have "int (length ?all) = Count f d"
    using assms(1) by (simp add: length_select_desc Count_def list_filter_def [abs_def])
  moreover have "t \<in> set ?all \<longleftrightarrow> (\<exists>r \<in> set (db_tasks d). t = scanSqliteTask r \<and>
       (tf_ProjectID f = None \<or> tf_ProjectID f = Some (task_ProjectID r)) \<and>
       (tf_Status f = None \<or> tf_Status f = Some (task_Status r)))" for t
  proof -
    have "list_filter lt f r \<longleftrightarrow> (tf_ProjectID f = None \<or> tf_ProjectID f = Some (task_ProjectID r)) \<and>
        (tf_Status f = None \<or> tf_Status f = Some (task_Status r))" for r
      using assms(1) by (auto simp: list_filter_def split: option.split)
    then show ?thesis by auto
  qed
  moreover have "List lt (f\<lparr>tf_PageSize := n, tf_Offset := k\<rparr>) d = Inr (take (nat n) (drop (nat k) ?all))"
    if "0 < n" "0 \<le> k" for n k
    using that by (simp add: List_def Let_def lf take_map drop_map)
  moreover have "\<exists>e. List lt (f\<lparr>tf_Offset := k\<rparr>) d = Inl e" if "0 < k" for k
    using that assms(2) by (simp add: List_def Let_def)
  ultimately show ?thesis by (intro exI [of _ ?all] conjI allI impI) simp_all
qed

theorem list_pages_and_count_witness:
  "\<exists>all. List (<) \<lparr>tf_ProjectID = Some ''p'', tf_Status = None, tf_UpdatedBefore = None, tf_PageSize = 0,
       tf_Offset = 0\<rparr> demo_db = Inr all \<and> int (length all) = 2"
proof -
  let ?f = "\<lparr>tf_ProjectID = Some ''p'', tf_Status = None, tf_UpdatedBefore = None, tf_PageSize = 0,
       tf_Offset = 0\<rparr> :: task_filter"
  have "Count ?f demo_db = 2" by (simp add: Count_def demo_db_def demo_task_def zero_task_def)
  with list_pages_and_count [of ?f "(<)" demo_db] show ?thesis by auto
qed

end
