(* ===== verification/MessageStore.thy ===== *)
theory MessageStore
  imports TaskTable
begin

text \<open>
  The SQLite task-message repository (\<^verbatim>\<open>src/internal/persistence/sqlite/task_message_repository.go\<close>).
  Inserting a message also maintains the task row's message counter and open-checkpoint pointer, in
  one transaction. The time stamp inside a generated id is formatted in the server's local time: \<open>stamp\<close>
  is that formatting; \<open>set_resolved\<close> is SQLite's \<open>json_set\<close> of the \<open>resolved\<close> flag.
\<close>

definition TaskMessageKindCheckpoint :: string where
  "TaskMessageKindCheckpoint = ''checkpoint''"

definition TaskMessageKindClosureRequest :: string where
  "TaskMessageKindClosureRequest = ''closure_request''"

definition TaskMessageKindSystem :: string where
  "TaskMessageKindSystem = ''system''"

definition TaskMessageAuthorSystem :: string where
  "TaskMessageAuthorSystem = ''system''"

text \<open>A failed read of the random source leaves the eight bytes zero.\<close>

definition GenerateID :: "(nanos \<Rightarrow> string) \<Rightarrow> string \<Rightarrow> db \<Rightarrow> string \<times> db" where
  "GenerateID stamp prefix d =
     (let (b, d') = (case db_rand d of [] \<Rightarrow> (replicate 8 (char_of (0 :: nat)), d)
                     | b # bs \<Rightarrow> (b, d\<lparr>db_rand := bs\<rparr>))
      in (prefix @ ''_'' @ stamp (db_now d) @ ''_'' @ hex_encode b, d'))"

definition insertWithExec :: "task_message \<Rightarrow> db \<Rightarrow> repo_error option \<times> db" where
  "insertWithExec msg d =
     (if msg_ID msg \<in> msg_ID ` set (db_messages d) then (Some (ErrConstraint ''task_messages.id''), d)
      else (None, d\<lparr>db_messages := db_messages d @ [msg],
        db_tasks := sql_update (\<lambda>t. task_ID t = msg_TaskID msg)
          (\<lambda>t. t\<lparr>task_MessageCount := task_MessageCount t + 1,
                 task_OpenCheckpointID := (if msg_MessageKind msg = TaskMessageKindCheckpoint
                   then Some (msg_ID msg) else task_OpenCheckpointID t),
                 task_UpdatedAt := db_now d\<rparr>) (db_tasks d)\<rparr>))"

definition Insert :: "(nanos \<Rightarrow> string) \<Rightarrow> task_message option \<Rightarrow> db \<Rightarrow> repo_error option \<times> db" where
  "Insert stamp mp d = (case mp of
       None \<Rightarrow> (Some (ErrOther ''TaskMessageRepository.Insert: nil message''), d)
     | Some msg \<Rightarrow>
         if msg_TaskID msg = [] then (Some (ErrOther ''TaskMessageRepository.Insert: task_id required''), d)
         else if msg_AuthorKind msg = [] \<or> msg_MessageKind msg = []
         then (Some (ErrOther ''TaskMessageRepository.Insert: author_kind + message_kind required''), d)
         else (let (i, d1) = (if msg_ID msg = [] then GenerateID stamp ''tmsg'' d else (msg_ID msg, d));
                   created = (if msg_CreatedAt msg = 0 then db_now d else msg_CreatedAt msg)
               in insertWithExec (msg\<lparr>msg_ID := i, msg_CreatedAt := created\<rparr>) d1))"

definition message_match :: "task_message_filter \<Rightarrow> task_message \<Rightarrow> bool" where
  "message_match f m \<longleftrightarrow> msg_TaskID m = mf_TaskID f \<and>
     (case mf_After f of Some a \<Rightarrow> a = [] \<or> a < msg_ID m | None \<Rightarrow> True) \<and>
     (mf_MessageKinds f = [] \<or> msg_MessageKind m \<in> set (mf_MessageKinds f))"

definition ListMessages :: "task_message_filter \<Rightarrow> db \<Rightarrow> repo_error + task_message list" where
  "ListMessages f d =
     (if mf_TaskID f = [] then Inl (ErrOther ''TaskMessageRepository.List: task_id required'')
      else (let limit = (if mf_Limit f \<le> 0 \<or> mf_Limit f > 500 then 100 else mf_Limit f)
            in Inr (take (nat limit) (select_asc (message_match f)
                 (\<lambda>m. (sqliteTime (msg_CreatedAt m), msg_ID m)) (db_messages d)))))"

definition GetOpenCheckpoint :: "string \<Rightarrow> db \<Rightarrow> repo_error + task_message option" where
  "GetOpenCheckpoint i d =
     (if i = [] then Inl (ErrOther ''TaskMessageRepository.GetOpenCheckpoint: task_id required'')
      else (case query_row (filter (\<lambda>t. task_ID t = i) (db_tasks d)) of
          None \<Rightarrow> Inr None
        | Some t \<Rightarrow>
            (case task_OpenCheckpointID t of None \<Rightarrow> Inr None
             | Some c \<Rightarrow> if c = [] then Inr None
                 else Inr (query_row (filter (\<lambda>m. msg_ID m = c) (db_messages d))))))"

definition MarkCheckpointResolved ::
  "(string \<Rightarrow> string) \<Rightarrow> string \<Rightarrow> string \<Rightarrow> db \<Rightarrow> repo_error option \<times> db" where
  "MarkCheckpointResolved set_resolved i c d =
     (if i = [] \<or> c = [] then (Some (ErrOther ''MarkCheckpointResolved: task_id + checkpoint_id required''), d)
      else (None, d\<lparr>
        db_messages := sql_update (\<lambda>m. msg_ID m = c \<and> msg_TaskID m = i \<and>
            msg_MessageKind m = TaskMessageKindCheckpoint)
          (\<lambda>m. m\<lparr>msg_Metadata := set_resolved (msg_Metadata m)\<rparr>) (db_messages d),
        db_tasks := sql_update (\<lambda>t. task_ID t = i \<and> task_OpenCheckpointID t = Some c)
          (\<lambda>t. t\<lparr>task_OpenCheckpointID := None, task_UpdatedAt := db_now d\<rparr>) (db_tasks d)\<rparr>))"

section \<open>The task row agrees with its messages\<close>

definition messages_of :: "string \<Rightarrow> task_message list \<Rightarrow> task_message list" where
  "messages_of i ms = filter (\<lambda>m. msg_TaskID m = i) ms"

text \<open>
  Distinct message ids, a counter equal to the number of messages, and an open-checkpoint pointer
  that names a checkpoint message of the task.
\<close>

definition row_agrees :: "task_message list \<Rightarrow> task \<Rightarrow> bool" where
  "row_agrees ms t \<longleftrightarrow> task_MessageCount t = int (length (messages_of (task_ID t) ms)) \<and>
     (\<forall>c. task_OpenCheckpointID t = Some c \<longrightarrow>
        (\<exists>m \<in> set (messages_of (task_ID t) ms). msg_ID m = c \<and> msg_MessageKind m = TaskMessageKindCheckpoint))"

definition messages_agree :: "db \<Rightarrow> bool" where
  "messages_agree d \<longleftrightarrow> distinct (map msg_ID (db_messages d)) \<and> list_all (row_agrees (db_messages d)) (db_tasks d)"

datatype msg_op = MInsert task_message | MResolve string string | MOther store_op

text \<open>Tasks are created with unused ids: a new row's id has no messages yet.\<close>

fun fresh_task_id :: "msg_op \<Rightarrow> db \<Rightarrow> bool" where
  "fresh_task_id (MOther (OpCreate t)) d \<longleftrightarrow> messages_of (task_ID t) (db_messages d) = []"
| "fresh_task_id _ d \<longleftrightarrow> True"

fun msg_step :: "(nanos \<Rightarrow> string) \<Rightarrow> (string \<Rightarrow> string) \<Rightarrow> msg_op \<Rightarrow> db \<Rightarrow> db" where
  "msg_step stamp sr (MInsert m) d = snd (Insert stamp (Some m) d)"
| "msg_step stamp sr (MResolve i c) d = snd (MarkCheckpointResolved sr i c d)"
| "msg_step stamp sr (MOther op) d = store_step op d"

fun msg_run :: "(nanos \<Rightarrow> string) \<Rightarrow> (string \<Rightarrow> string) \<Rightarrow> msg_op list \<Rightarrow> db \<Rightarrow> db" where
  "msg_run stamp sr [] d = d"
| "msg_run stamp sr (op # ops) d = msg_run stamp sr ops (msg_step stamp sr op d)"

fun all_fresh :: "(nanos \<Rightarrow> string) \<Rightarrow> (string \<Rightarrow> string) \<Rightarrow> msg_op list \<Rightarrow> db \<Rightarrow> bool" where
  "all_fresh stamp sr [] d \<longleftrightarrow> True"
| "all_fresh stamp sr (op # ops) d \<longleftrightarrow> fresh_task_id op d \<and> all_fresh stamp sr ops (msg_step stamp sr op d)"

lemma row_agrees_cong:
  "task_ID t = task_ID t' \<Longrightarrow> task_MessageCount t = task_MessageCount t' \<Longrightarrow>
   task_OpenCheckpointID t = task_OpenCheckpointID t' \<Longrightarrow> row_agrees ms t = row_agrees ms t'"
  by (simp add: row_agrees_def)

text \<open>Row functions of the repository leave the three columns alone.\<close>

definition keeps_thread :: "(task \<Rightarrow> task) \<Rightarrow> bool" where
  "keeps_thread f \<longleftrightarrow> (\<forall>t. task_ID (f t) = task_ID t \<and> task_MessageCount (f t) = task_MessageCount t \<and>
     task_OpenCheckpointID (f t) = task_OpenCheckpointID t)"

lemma keeps_thread_rows:
  "keeps_thread (leased_row l lo now)" "keeps_thread (released_row s ro now)"
  "keeps_thread (updated_row u now)" "keeps_thread (apply_transition_opts now topts)"
  "keeps_thread (\<lambda>t. t\<lparr>task_UpdatedAt := now\<rparr>)"
  "keeps_thread (\<lambda>t. t\<lparr>task_LeaseExpiresAt := e, task_UpdatedAt := now\<rparr>)"
  "keeps_thread (\<lambda>t. t\<lparr>task_Status := s, task_UpdatedAt := now\<rparr>)"
  "keeps_thread (\<lambda>t. (clear_lease t)\<lparr>task_Status := s, task_Attempt := a, task_MaxAttempts := m,
     task_LastError := x, task_LastErrorClass := y, task_UpdatedAt := now\<rparr>)"
  by (simp_all add: keeps_thread_def leased_row_def released_row_def updated_row_def clear_lease_def
      apply_transition_opts_def Let_def split: option.split)

lemma agree_sql_update:
  "list_all (row_agrees ms) ts \<Longrightarrow> keeps_thread f \<Longrightarrow> list_all (row_agrees ms) (sql_update P f ts)"
  by (rule list_all_sql_update) (auto simp: keeps_thread_def intro: row_agrees_cong [THEN iffD1])

lemma agree_update_status:
  "list_all (row_agrees ms) (db_tasks d) \<Longrightarrow> keeps_thread f \<Longrightarrow>
   list_all (row_agrees ms) (db_tasks (snd (update_status_where P s f d)))"
  by (auto simp: update_status_where_def Let_def keeps_thread_def intro!: agree_sql_update)

lemma store_step_messages: "db_messages (store_step op d) = db_messages d"
  by (cases op) (auto simp: Create_def Update_def Delete_def snd_UpdateStatus update_status_where_def
      TransitionToCancelled_def snd_TransitionConditional RequeueTerminalTask_def LeaseTask_def RenewLease_def
      ReleaseLease_def newLeaseID_def Let_def split: option.split prod.split sum.split list.split)

lemma store_step_agrees:
  assumes "list_all (row_agrees (db_messages d)) (db_tasks d)" and "fresh_task_id (MOther op) d"
  shows "list_all (row_agrees (db_messages d)) (db_tasks (store_step op d))"
proof (cases op)
  case (OpCreate t)
  have "row_agrees (db_messages d) (insert_row (create_defaults (db_now d) t))"
    using assms(2) OpCreate by (simp add: row_agrees_def insert_row_def)
  with assms(1) OpCreate show ?thesis by (simp add: Create_def Let_def)
next
  case (OpUpdate t)
  with assms(1) show ?thesis by (simp add: Update_def Let_def agree_sql_update keeps_thread_rows)
next
  case (OpDelete i)
  with assms(1) show ?thesis by (auto simp: Delete_def list_all_iff)
next
  case (OpUpdateStatus i st)
  with assms(1) show ?thesis by (simp add: snd_UpdateStatus agree_update_status keeps_thread_rows)
next
  case (OpTransition i frm to opts)
  with assms(1) show ?thesis by (simp add: snd_TransitionConditional agree_update_status keeps_thread_rows)
next
  case (OpCancel i)
  with assms(1) show ?thesis
    by (simp add: TransitionToCancelled_def Let_def agree_sql_update keeps_thread_rows)
next
  case (OpRequeue i a m)
  with assms(1) show ?thesis
    by (simp add: RequeueTerminalTask_def Let_def agree_sql_update keeps_thread_rows)
next
  case (OpLease opts)
  with assms(1) show ?thesis
    by (auto simp: LeaseTask_def Let_def split: prod.splits sum.splits option.splits
        dest!: newLeaseID_tasks intro!: agree_sql_update keeps_thread_rows)
next
  case (OpRenew i l n)
  with assms(1) show ?thesis by (simp add: RenewLease_def Let_def agree_sql_update keeps_thread_rows)
next
  case (OpRelease i l st opts)
  obtain r d' where "ReleaseLease i l st opts d = (r, d')" by fastforce
  with OpRelease assms(1) show ?thesis
    by (auto dest!: ReleaseLease_tasks simp: agree_sql_update keeps_thread_rows)
qed (use assms(1) in simp)

lemma messages_of_append: "messages_of i (ms @ [m]) = messages_of i ms @ (if msg_TaskID m = i then [m] else [])"
  by (simp add: messages_of_def)

lemma list_all_sql_update2:
  "list_all Q ts \<Longrightarrow> (\<And>t. Q t \<Longrightarrow> P t \<Longrightarrow> Q' (f t)) \<Longrightarrow> (\<And>t. Q t \<Longrightarrow> \<not> P t \<Longrightarrow> Q' t) \<Longrightarrow>
   list_all Q' (sql_update P f ts)"
  by (auto simp: list_all_iff in_set_sql_update)

lemma insertWithExec_agrees:
  assumes "messages_agree d"
  shows "messages_agree (snd (insertWithExec m d))"
proof (cases "msg_ID m \<in> msg_ID ` set (db_messages d)")
  case True
  with assms show ?thesis by (simp add: insertWithExec_def)
next
  case False
  let ?f = "\<lambda>t. t\<lparr>task_MessageCount := task_MessageCount t + 1, task_OpenCheckpointID :=
    (if msg_MessageKind m = TaskMessageKindCheckpoint then Some (msg_ID m) else task_OpenCheckpointID t),
    task_UpdatedAt := db_now d\<rparr>"
  have "list_all (row_agrees (db_messages d @ [m])) (sql_update (\<lambda>t. task_ID t = msg_TaskID m) ?f (db_tasks d))"
  proof (rule list_all_sql_update2)
    show "list_all (row_agrees (db_messages d)) (db_tasks d)" using assms by (simp add: messages_agree_def)
  qed (auto simp: row_agrees_def messages_of_append split: if_splits)
  with False assms show ?thesis by (simp add: messages_agree_def insertWithExec_def)
qed

lemma resolve_agrees:
  assumes "messages_agree d"
  shows "messages_agree (snd (MarkCheckpointResolved sr i c d))"
proof -
  let ?P = "\<lambda>m. msg_ID m = c \<and> msg_TaskID m = i \<and> msg_MessageKind m = TaskMessageKindCheckpoint"
  let ?f = "\<lambda>m. m\<lparr>msg_Metadata := sr (msg_Metadata m)\<rparr>"
  let ?ms = "sql_update ?P ?f (db_messages d)"
  have ids: "map msg_ID ?ms = map msg_ID (db_messages d)" by (rule map_sql_update) simp
  have len: "length (messages_of j ?ms) = length (messages_of j (db_messages d))" for j
    unfolding messages_of_def by (rule length_filter_sql_update_same) simp
  have mem: "\<exists>m' \<in> set (messages_of j ?ms). msg_ID m' = msg_ID m \<and> msg_MessageKind m' = msg_MessageKind m"
    if "m \<in> set (messages_of j (db_messages d))" for j m
    using that in_set_sql_update_if [of m "db_messages d" ?P ?f]
    by (intro bexI [of _ "if ?P m then ?f m else m"]) (auto simp: messages_of_def)
  have keep: "row_agrees ?ms t" if "row_agrees (db_messages d) t" for t
    using that mem by (fastforce simp: row_agrees_def len)
  have "list_all (row_agrees ?ms) (sql_update (\<lambda>t. task_ID t = i \<and> task_OpenCheckpointID t = Some c)
      (\<lambda>t. t\<lparr>task_OpenCheckpointID := None, task_UpdatedAt := db_now d\<rparr>) (db_tasks d))"
  proof (rule list_all_sql_update2)
    show "list_all (row_agrees (db_messages d)) (db_tasks d)" using assms by (simp add: messages_agree_def)
    show "row_agrees ?ms (t\<lparr>task_OpenCheckpointID := None, task_UpdatedAt := db_now d\<rparr>)"
      if "row_agrees (db_messages d) t" for t using that by (simp add: row_agrees_def len)
  qed (rule keep)
  with assms ids show ?thesis by (simp add: MarkCheckpointResolved_def messages_agree_def)
qed

lemma Insert_agrees:
  assumes "messages_agree d"
  shows "messages_agree (snd (Insert stamp (Some m) d))"
proof -
  obtain i d1 where g: "GenerateID stamp ''tmsg'' d = (i, d1)" by fastforce
  then have "messages_agree d1"
    using assms by (auto simp: GenerateID_def messages_agree_def Let_def split: list.splits)
  with assms g show ?thesis by (simp add: Insert_def Let_def insertWithExec_agrees)
qed

text \<open>
  \<^bold>\<open>C34.\<close> A task row never disagrees with its messages. After every interleaving of message inserts,
  checkpoint resolutions and task-repository calls (new tasks having ids without messages), message ids
  are distinct, every task's \<open>message_count\<close> is the number of its messages, and its open-checkpoint
  pointer, when set, names a checkpoint message of that task.
\<close>

theorem task_rows_agree_with_messages:
  assumes "messages_agree d" and "all_fresh stamp sr ops d"
  shows "messages_agree (msg_run stamp sr ops d)"
  using assms
proof (induction ops arbitrary: d)
  case Nil
  then show ?case by simp
next
  case (Cons op ops)
  have "messages_agree (msg_step stamp sr op d)"
  proof (cases op)
    case (MOther o1)
    with Cons.prems store_step_agrees [of d o1] show ?thesis
      by (simp add: messages_agree_def store_step_messages)
  qed (use Cons.prems in \<open>auto simp: Insert_agrees resolve_agrees\<close>)
  with Cons show ?case by simp
qed

definition demo_message :: task_message where
  "demo_message = \<lparr>msg_ID = ''m1'', msg_TaskID = ''t1'', msg_ExecutionID = None, msg_ParentID = None,
     msg_AuthorKind = ''lead'', msg_AuthorID = None, msg_MessageKind = ''checkpoint'', msg_Content = [],
     msg_Metadata = [], msg_CreatedAt = 5\<rparr>"

theorem task_rows_agree_with_messages_witness:
  "messages_agree (msg_run (\<lambda>_. []) (\<lambda>x. x) [MInsert demo_message, MOther (OpCancel ''t2''), MResolve ''t1'' ''m1''] demo_db)"
  by (rule task_rows_agree_with_messages)
    (simp_all add: messages_agree_def row_agrees_def messages_of_def demo_db_def demo_task_def zero_task_def)

end
