(* ===== verification/TaskRepo.thy ===== *)
theory TaskRepo
  imports TaskTable
begin

text \<open>
  The repository interface the scheduler and the external-wait sweeper are written against
  (\<^verbatim>\<open>scheduler.TaskRepository\<close>, \<^verbatim>\<open>scheduler.ExternalWaitRepo\<close>, subsets of
  \<^verbatim>\<open>persistence.TaskRepository\<close>): a record of operations over an arbitrary store state. The
  locale \<open>task_repository\<close> states what its clients rely on; the SQLite repository is shown to
  provide it.
\<close>

record 's task_repo =
  tr_Get :: "string \<Rightarrow> 's \<Rightarrow> repo_error + task"
  tr_List :: "task_filter \<Rightarrow> 's \<Rightarrow> repo_error + task list"
  tr_TransitionConditional ::
    "string \<Rightarrow> task_status list \<Rightarrow> task_status \<Rightarrow> transition_opts \<Rightarrow> 's \<Rightarrow> (repo_error + bool) \<times> 's"
  tr_LeaseTask :: "lease_options \<Rightarrow> 's \<Rightarrow> (repo_error + task) \<times> 's"
  tr_RenewLease :: "string \<Rightarrow> string \<Rightarrow> int \<Rightarrow> 's \<Rightarrow> repo_error option \<times> 's"
  tr_ReleaseLease ::
    "string \<Rightarrow> string \<Rightarrow> task_status \<Rightarrow> release_options \<Rightarrow> 's \<Rightarrow> repo_error option \<times> 's"
  tr_FindExpiredLeases :: "int \<Rightarrow> 's \<Rightarrow> repo_error + task list"
  tr_GetChildren :: "string \<Rightarrow> 's \<Rightarrow> repo_error + task list"
  tr_UpdateStatus :: "string \<Rightarrow> task_status \<Rightarrow> 's \<Rightarrow> repo_error option \<times> 's"

definition sqlite_repo :: "(nanos \<Rightarrow> nanos \<Rightarrow> bool) \<Rightarrow> db task_repo" where
  "sqlite_repo bound_lt = \<lparr>tr_Get = Get, tr_List = List bound_lt,
     tr_TransitionConditional = TransitionConditional, tr_LeaseTask = LeaseTask,
     tr_RenewLease = RenewLease, tr_ReleaseLease = ReleaseLease,
     tr_FindExpiredLeases = FindExpiredLeases,
     tr_GetChildren = (\<lambda>p d. Inr (GetChildren p d)), tr_UpdateStatus = UpdateStatus\<rparr>"

text \<open>What a client sees of a row: the columns scanning does not change.\<close>

definition same_view :: "task \<Rightarrow> task \<Rightarrow> bool" where
  "same_view t u \<longleftrightarrow> task_ID u = task_ID t \<and> task_ProjectID u = task_ProjectID t \<and>
     task_Status u = task_Status t \<and> task_LeaseID u = task_LeaseID t \<and>
     task_Attempt u = task_Attempt t \<and> task_MaxAttempts u = task_MaxAttempts t \<and>
     task_LastError u = task_LastError t"

lemma same_view_scan [simp]: "same_view t (scanSqliteTask t)"
  by (simp add: same_view_def)

definition leasable_shape :: "task \<Rightarrow> bool" where
  "leasable_shape t \<longleftrightarrow> task_Status t = TaskStatusQueued \<and> task_LeaseID t = None"

lemma leased_row_not_leasable [simp]: "\<not> leasable_shape (leased_row l opts now t)"
  by (simp add: leasable_shape_def)

locale task_repository =
  fixes R :: "'s task_repo" and tasks :: "'s \<Rightarrow> task list" and now :: "'s \<Rightarrow> nanos"
    and invar :: "'s \<Rightarrow> bool"
  assumes ids_unique: "invar s \<Longrightarrow> distinct (map task_ID (tasks s))"
    and get_row: "invar s \<Longrightarrow> t \<in> set (tasks s) \<Longrightarrow> \<exists>u. tr_Get R (task_ID t) s = Inr u \<and> same_view t u"
    and lease_grants: "invar s \<Longrightarrow> tr_LeaseTask R opts s = (Inr t, s') \<Longrightarrow>
      invar s' \<and> (\<exists>c \<in> set (tasks s). \<exists>l. leasable_shape c \<and> l \<noteq> [] \<and>
        tasks s' = sql_update (\<lambda>r. task_ID r = task_ID c) (leased_row l opts (now s)) (tasks s) \<and>
        same_view (leased_row l opts (now s) c) t)"
    and lease_fails: "invar s \<Longrightarrow> tr_LeaseTask R opts s = (Inl err, s') \<Longrightarrow>
      invar s' \<and> tasks s' = tasks s"
    and renew: "invar s \<Longrightarrow> tr_RenewLease R i l n s = (e, s') \<Longrightarrow> invar s' \<and>
      (if \<exists>t \<in> set (tasks s). lease_held i l t
       then e = None \<and> map task_ID (tasks s') = map task_ID (tasks s) \<and>
            (\<forall>t \<in> set (tasks s). \<exists>t' \<in> set (tasks s'). t' = t \<or> task_ID t = i \<and> same_but_times t t')
       else e = Some ErrLeaseNotFound \<and> s' = s)"
    and release: "invar s \<Longrightarrow> l \<noteq> [] \<Longrightarrow> declared_status st \<Longrightarrow>
      tr_ReleaseLease R i l st ropts s = (e, s') \<Longrightarrow> e = None \<and> invar s' \<and>
      tasks s' = sql_update (\<lambda>t. task_ID t = i \<and> task_LeaseID t = Some l)
        (released_row st ropts (now s)) (tasks s)"
    and release_without_lease: "tr_ReleaseLease R i [] st ropts s = (e, s') \<Longrightarrow> e \<noteq> None \<and> s' = s"
    and find_expired: "invar s \<Longrightarrow> tr_FindExpiredLeases R n s = Inr ts \<Longrightarrow>
      distinct (map task_ID ts) \<and> (\<forall>t \<in> set ts. \<exists>r \<in> set (tasks s). same_view r t)"
begin

lemma row_unique:
  "invar s \<Longrightarrow> t \<in> set (tasks s) \<Longrightarrow> t' \<in> set (tasks s) \<Longrightarrow> task_ID t = task_ID t' \<Longrightarrow> t = t'"
  by (rule distinct_key_eq [OF ids_unique])

lemma lease_keeps_ids:
  "invar s \<Longrightarrow> tr_LeaseTask R opts s = (r, s') \<Longrightarrow> map task_ID (tasks s') = map task_ID (tasks s)"
proof (cases r)
  case (Inl e)
  then show "invar s \<Longrightarrow> tr_LeaseTask R opts s = (r, s') \<Longrightarrow> ?thesis" using lease_fails by simp
next
  case (Inr t)
  assume inv: "invar s" and run: "tr_LeaseTask R opts s = (r, s')"
  from lease_grants [OF inv run [unfolded Inr]] obtain c :: task and l where
    "tasks s' = sql_update (\<lambda>r. task_ID r = task_ID c) (leased_row l opts (now s)) (tasks s)" by blast
  then show ?thesis by (simp add: map_sql_update)
qed

text \<open>Every grant uses up one QUEUED row without a lease.\<close>

lemma lease_uses_row:
  assumes "invar s" and "tr_LeaseTask R opts s = (Inr t, s')"
  shows "length (filter leasable_shape (tasks s')) < length (filter leasable_shape (tasks s))"
proof -
  from lease_grants [OF assms] obtain c l where c: "c \<in> set (tasks s)" "leasable_shape c"
    and upd: "tasks s' = sql_update (\<lambda>r. task_ID r = task_ID c) (leased_row l opts (now s)) (tasks s)"
    by blast
  have "length (filter leasable_shape (sql_update (\<lambda>r. task_ID r = task_ID c) (leased_row l opts n) ts))
      < length (filter leasable_shape ts)" if "c \<in> set ts" for ts n
    using that
  proof (induction ts)
    case (Cons a ts)
    have le: "length (filter leasable_shape (sql_update (\<lambda>r. task_ID r = task_ID c) (leased_row l opts n) us))
        \<le> length (filter leasable_shape us)" for us
      by (induction us) auto
    from Cons c(2) le [of ts] show ?case by (auto simp: less_Suc_eq_le)
  qed simp
  with c(1) upd show ?thesis by simp
qed

end

lemma sqlite_renew_rows:
  assumes "tasks_ok (db_tasks d)" and "RenewLease i l n d = (e, d')"
  shows "if \<exists>t \<in> set (db_tasks d). lease_held i l t
    then e = None \<and> map task_ID (db_tasks d') = map task_ID (db_tasks d) \<and>
         (\<forall>t \<in> set (db_tasks d). \<exists>t' \<in> set (db_tasks d'). t' = t \<or> task_ID t = i \<and> same_but_times t t')
    else e = Some ErrLeaseNotFound \<and> d' = d"
proof -
  let ?P = "\<lambda>t. task_ID t = i \<and> task_LeaseID t = Some l \<and> renewable_status (task_Status t)"
  let ?f = "\<lambda>t. t\<lparr>task_LeaseExpiresAt := Some (db_now d + n * Second), task_UpdatedAt := db_now d\<rparr>"
  have P: "?P t \<longleftrightarrow> lease_held i l t" for t by (simp add: lease_held_def)
  have "(if ?P t then ?f t else t) = t \<or> task_ID t = i \<and> same_but_times t (if ?P t then ?f t else t)" for t
    by (simp add: same_but_times_renew)
  then have "\<forall>t \<in> set (db_tasks d). \<exists>t' \<in> set (sql_update ?P ?f (db_tasks d)).
      t' = t \<or> task_ID t = i \<and> same_but_times t t'"
    using in_set_sql_update_if [of _ "db_tasks d" ?P ?f] by blast
  moreover have "map task_ID (sql_update ?P ?f (db_tasks d)) = map task_ID (db_tasks d)"
    by (rule map_sql_update) simp
  ultimately show ?thesis
    using assms(2) by (auto simp: RenewLease_def Let_def sql_simps P split: if_splits)
qed

lemma sqlite_find_expired:
  assumes "tasks_ok (db_tasks d)" and "FindExpiredLeases n d = Inr ts"
  shows "distinct (map task_ID ts) \<and> (\<forall>t \<in> set ts. \<exists>r \<in> set (db_tasks d). same_view r t)"
proof -
  let ?sel = "select_asc (lease_expired_row (db_now d)) lease_expiry_key (db_tasks d)"
  have "inj_on task_ID (set ?sel)"
    using tasks_ok_unique [OF assms(1)] by (auto simp: inj_on_def)
  moreover have "distinct ?sel"
    using tasks_ok_distinct [OF assms(1)] by (simp add: select_asc_def distinct_map)
  ultimately have "distinct (map task_ID ?sel)" by (simp add: distinct_map)
  then have "distinct (map task_ID (sql_limit n ?sel))" by (simp add: sql_limit_def take_map [symmetric])
  moreover have "map task_ID ts = map task_ID (sql_limit n ?sel)"
    using assms(2) by (auto simp: FindExpiredLeases_def)
  moreover have "\<forall>t \<in> set ts. \<exists>r \<in> set (db_tasks d). same_view r t"
    using FindExpiredLeases_set [OF assms(2)] same_view_scan by blast
  ultimately show ?thesis by simp
qed

interpretation sqlite: task_repository "sqlite_repo lt" db_tasks db_now "\<lambda>d. tasks_ok (db_tasks d)"
proof
  fix d :: db
  assume ok: "tasks_ok (db_tasks d)"
  show "distinct (map task_ID (db_tasks d))" using ok by (rule tasks_ok_distinct)
  show "\<exists>u. tr_Get (sqlite_repo lt) (task_ID t) d = Inr u \<and> same_view t u" if "t \<in> set (db_tasks d)" for t
    using Get_row [OF ok that] by (simp add: sqlite_repo_def)
  show "tasks_ok (db_tasks d') \<and> (\<exists>c \<in> set (db_tasks d). \<exists>l. leasable_shape c \<and> l \<noteq> [] \<and>
        db_tasks d' = sql_update (\<lambda>r. task_ID r = task_ID c) (leased_row l opts (db_now d)) (db_tasks d) \<and>
        same_view (leased_row l opts (db_now d) c) t)"
    if "tr_LeaseTask (sqlite_repo lt) opts d = (Inr t, d')" for opts t d'
  proof -
    from that have run: "LeaseTask opts d = (Inr t, d')" by (simp add: sqlite_repo_def)
    from ok run show ?thesis
    proof (cases rule: LeaseTask_cases)
      case (leased c)
      then have "leasable_shape c" by (simp add: leasable_shape_def lease_candidate_def)
      moreover have "granted_lease d \<noteq> []" by (simp add: granted_lease_def)
      moreover have "tasks_ok (db_tasks d')" using run ok by (rule LeaseTask_ok)
      ultimately show ?thesis using leased(2,5,6) by (intro conjI bexI [of _ c] exI [of _ "granted_lease d"]) simp_all
    qed simp_all
  qed
  show "tasks_ok (db_tasks d') \<and> db_tasks d' = db_tasks d"
    if "tr_LeaseTask (sqlite_repo lt) opts d = (Inl e, d')" for opts e d'
  proof -
    from that have "LeaseTask opts d = (Inl e, d')" by (simp add: sqlite_repo_def)
    from ok this show ?thesis by (cases rule: LeaseTask_cases) (use ok in simp_all)
  qed
  show "tasks_ok (db_tasks d') \<and> (if \<exists>t \<in> set (db_tasks d). lease_held i l t
       then e = None \<and> map task_ID (db_tasks d') = map task_ID (db_tasks d) \<and>
            (\<forall>t \<in> set (db_tasks d). \<exists>t' \<in> set (db_tasks d'). t' = t \<or> task_ID t = i \<and> same_but_times t t')
       else e = Some ErrLeaseNotFound \<and> d' = d)"
    if "tr_RenewLease (sqlite_repo lt) i l n d = (e, d')" for i l n e d'
  proof -
    from that have "RenewLease i l n d = (e, d')" by (simp add: sqlite_repo_def)
    with ok sqlite_renew_rows RenewLease_ok show ?thesis by blast
  qed
  show "e = None \<and> tasks_ok (db_tasks d') \<and> db_tasks d' =
      sql_update (\<lambda>t. task_ID t = i \<and> task_LeaseID t = Some l) (released_row st opts (db_now d)) (db_tasks d)"
    if "l \<noteq> []" "declared_status st" "tr_ReleaseLease (sqlite_repo lt) i l st opts d = (e, d')"
    for i l st opts e d'
  proof -
    from that have run: "ReleaseLease i l st opts d = (e, d')" by (simp add: sqlite_repo_def)
    then have "tasks_ok (db_tasks d')" using ok by (rule ReleaseLease_ok)
    with run that(1,2) show ?thesis
      by (auto simp: ReleaseLease_def update_status_where_def Let_def released_row_status_idem)
  qed
  show "distinct (map task_ID ts) \<and> (\<forall>t \<in> set ts. \<exists>r \<in> set (db_tasks d). same_view r t)"
    if "tr_FindExpiredLeases (sqlite_repo lt) n d = Inr ts" for n ts
    using sqlite_find_expired [OF ok] that by (simp add: sqlite_repo_def)
next
  show "e \<noteq> None \<and> d' = d" if "tr_ReleaseLease (sqlite_repo lt) i [] st opts d = (e, d')" for i st opts e d d'
    using that by (auto simp: sqlite_repo_def ReleaseLease_def)
qed

end
