(* ===== verification/Scheduler.thy ===== *)
theory Scheduler
  imports TaskRepo Complex_Main
begin

text \<open>
  The task scheduler (\<^verbatim>\<open>src/internal/scheduler/scheduler.go\<close>), in the file's order, over an
  arbitrary repository. The mutable fields of \<open>Scheduler\<close> are the record \<open>sched\<close>; a critical section
  under \<open>s.mu\<close> is one function on it, so that goroutines interleave between these functions
  (theory \<open>SchedulerProps\<close>). What a dispatch goroutine observes of the executor, the clock and the
  context while it watches a task is a list of \<open>dispatch_tick\<close> values, one per loop iteration, each
  carrying the change the rest of the daemon makes to the store before the next one. Logging, metrics
  and tracing are left out.
\<close>

section \<open>Configuration and state\<close>

datatype dispatchOutcome =
    dispatchSucceeded | dispatchFailed | dispatchPaused | dispatchTerminated | dispatchInterrupted

record sched_config =
  cfg_MaxConcurrency :: int
  cfg_LeaseDurationSeconds :: int
  cfg_PollInterval :: nanos
  cfg_RecoveryInterval :: nanos
  cfg_RecoveryBatchSize :: int
  cfg_RecoveryIdleGrace :: nanos
  cfg_PriorityFloor :: int
  cfg_RuntimeImage :: string
  cfg_ArtifactStoragePath :: string
  cfg_ExecutionTimeout :: nanos

definition DefaultConfig :: sched_config where
  "DefaultConfig = \<lparr>cfg_MaxConcurrency = 10, cfg_LeaseDurationSeconds = 300,
     cfg_PollInterval = Second, cfg_RecoveryInterval = 30 * Second, cfg_RecoveryBatchSize = 100,
     cfg_RecoveryIdleGrace = 90 * Second, cfg_PriorityFloor = 0,
     cfg_RuntimeImage = ''fake-agent:latest'',
     cfg_ArtifactStoragePath = ''/var/lib/vornik/artifacts'', cfg_ExecutionTimeout = 30 * Minute\<rparr>"

text \<open>What \<open>ProjectRegistry\<close> returns at a lease attempt.\<close>

record project_registry =
  pr_ProjectConcurrencyLimits :: "string \<rightharpoonup> int"
  pr_ProjectPriorities :: "string \<rightharpoonup> int"
  pr_ArchivedProjectIDs :: "string list"

record sched =
  sd_config :: sched_config
  sd_leaseHolder :: string
  sd_runningCount :: int
  sd_lastTick :: nanos
  sd_wakeCh :: bool
  sd_started :: bool
  sd_recoveryIdleSince :: "string \<rightharpoonup> nanos"

definition normalize_config :: "sched_config \<Rightarrow> sched_config" where
  "normalize_config c = c\<lparr>
     cfg_RuntimeImage := (if cfg_RuntimeImage c = [] then ''fake-agent:latest'' else cfg_RuntimeImage c),
     cfg_LeaseDurationSeconds :=
       (if cfg_LeaseDurationSeconds c \<le> 0 then 300 else cfg_LeaseDurationSeconds c),
     cfg_PollInterval := (if cfg_PollInterval c \<le> 0 then Second else cfg_PollInterval c),
     cfg_RecoveryInterval :=
       (if cfg_RecoveryInterval c \<le> 0 then 30 * Second else cfg_RecoveryInterval c),
     cfg_RecoveryBatchSize := (if cfg_RecoveryBatchSize c \<le> 0 then 100 else cfg_RecoveryBatchSize c),
     cfg_RecoveryIdleGrace :=
       (if cfg_RecoveryIdleGrace c \<le> 0 then 90 * Second else cfg_RecoveryIdleGrace c),
     cfg_ArtifactStoragePath := (if cfg_ArtifactStoragePath c = [] then ''/var/lib/vornik/artifacts''
       else cfg_ArtifactStoragePath c),
     cfg_ExecutionTimeout := (if cfg_ExecutionTimeout c \<le> 0 then 30 * Minute else cfg_ExecutionTimeout c)\<rparr>"

definition NewWithOptions :: "sched_config option \<Rightarrow> string \<Rightarrow> sched" where
  "NewWithOptions config holder_id = \<lparr>
     sd_config = normalize_config (case config of None \<Rightarrow> DefaultConfig | Some c \<Rightarrow> c),
     sd_leaseHolder = ''scheduler-'' @ holder_id, sd_runningCount = 0, sd_lastTick = 0,
     sd_wakeCh = False, sd_started = False, sd_recoveryIdleSince = Map.empty\<rparr>"

definition Start :: "sched \<Rightarrow> string option \<times> sched" where
  "Start sd = (if sd_started sd then (Some ''scheduler already started'', sd)
     else (None, sd\<lparr>sd_started := True\<rparr>))"

definition Stop :: "sched \<Rightarrow> sched" where
  "Stop sd = (if \<not> sd_started sd then sd else sd\<lparr>sd_started := False\<rparr>)"

text \<open>The wake channel has capacity one: a send to a full channel is dropped.\<close>

definition Wake :: "sched \<Rightarrow> sched" where
  "Wake sd = sd\<lparr>sd_wakeCh := True\<rparr>"

section \<open>Slot accounting\<close>

text \<open>The two critical sections of \<open>schedule\<close> and the one of \<open>decrementRunning\<close>.\<close>

definition schedule_reserve :: "sched \<Rightarrow> sched option" where
  "schedule_reserve sd =
     (let maxConcurrency = cfg_MaxConcurrency (sd_config sd)
      in if maxConcurrency > 0 \<and> sd_runningCount sd \<ge> maxConcurrency then None
         else Some (sd\<lparr>sd_runningCount := sd_runningCount sd + 1\<rparr>))"

definition schedule_rollback :: "sched \<Rightarrow> sched" where
  "schedule_rollback sd = sd\<lparr>sd_runningCount := sd_runningCount sd - 1\<rparr>"

definition decrementRunning :: "sched \<Rightarrow> sched" where
  "decrementRunning sd =
     (if sd_runningCount sd > 0 then sd\<lparr>sd_runningCount := sd_runningCount sd - 1\<rparr> else sd)"

section \<open>Leasing\<close>

definition lease_request :: "project_registry option \<Rightarrow> sched \<Rightarrow> lease_options" where
  "lease_request reg sd =
     (let opts = \<lparr>lo_ProjectID = [], lo_LeaseHolder = sd_leaseHolder sd,
            lo_LeaseDurationSeconds = cfg_LeaseDurationSeconds (sd_config sd),
            lo_PriorityFloor = cfg_PriorityFloor (sd_config sd),
            lo_ProjectConcurrencyLimits = Map.empty, lo_ProjectPriorities = Map.empty,
            lo_ProjectPriorityDefault = 0, lo_ExcludedProjects = []\<rparr>
      in case reg of None \<Rightarrow> opts
         | Some r \<Rightarrow> opts\<lparr>lo_ProjectConcurrencyLimits := pr_ProjectConcurrencyLimits r,
             lo_ProjectPriorities := pr_ProjectPriorities r, lo_ProjectPriorityDefault := 50,
             lo_ExcludedProjects := pr_ArchivedProjectIDs r\<rparr>)"

definition leaseTaskWithContext ::
  "'s task_repo \<Rightarrow> project_registry option \<Rightarrow> sched \<Rightarrow> 's \<Rightarrow> (repo_error + task) \<times> 's" where
  "leaseTaskWithContext R reg sd s = tr_LeaseTask R (lease_request reg sd) s"

text \<open>
  One \<open>schedule\<close> pass: the tasks it hands to dispatch goroutines. The loop ends when capacity or the
  queue is exhausted; the fuel bounds its iterations.
\<close>

fun schedule ::
  "nat \<Rightarrow> 's task_repo \<Rightarrow> project_registry option \<Rightarrow> sched \<Rightarrow> 's \<Rightarrow> (task list \<times> sched \<times> 's) option" where
  "schedule 0 R reg sd s = None"
| "schedule (Suc fuel) R reg sd s =
     (case schedule_reserve sd of None \<Rightarrow> Some ([], sd, s)
      | Some sd1 \<Rightarrow>
          (case leaseTaskWithContext R reg sd1 s of
             (Inl _, s') \<Rightarrow> Some ([], schedule_rollback sd1, s')
           | (Inr t, s') \<Rightarrow>
               if cfg_MaxConcurrency (sd_config sd1) = 0 then Some ([t], sd1, s')
               else (case schedule fuel R reg sd1 s' of None \<Rightarrow> None
                     | Some (ts, sd2, s'') \<Rightarrow> Some (t # ts, sd2, s''))))"

datatype loop_event = EvTick nanos | EvWake nanos | EvDone

fun runLoop ::
  "nat \<Rightarrow> 's task_repo \<Rightarrow> project_registry option \<Rightarrow> loop_event list \<Rightarrow> sched \<Rightarrow> 's \<Rightarrow>
   (task list \<times> sched \<times> 's) option" where
  "runLoop fuel R reg [] sd s = Some ([], sd, s)"
| "runLoop fuel R reg (EvDone # evs) sd s = Some ([], sd, s)"
| "runLoop fuel R reg (EvTick now # evs) sd s =
     (case schedule fuel R reg (sd\<lparr>sd_lastTick := now\<rparr>) s of None \<Rightarrow> None
      | Some (ts, sd1, s1) \<Rightarrow> map_option (\<lambda>(us, r). (ts @ us, r)) (runLoop fuel R reg evs sd1 s1))"
| "runLoop fuel R reg (EvWake now # evs) sd s =
     (case schedule fuel R reg (sd\<lparr>sd_wakeCh := False, sd_lastTick := now\<rparr>) s of None \<Rightarrow> None
      | Some (ts, sd1, s1) \<Rightarrow> map_option (\<lambda>(us, r). (ts @ us, r)) (runLoop fuel R reg evs sd1 s1))"

section \<open>Finishing a task\<close>

definition taskLeaseID :: "task \<Rightarrow> string" where
  "taskLeaseID t = (case task_LeaseID t of None \<Rightarrow> [] | Some l \<Rightarrow> l)"

definition isTerminalTaskStatus :: "task_status \<Rightarrow> bool" where
  "isTerminalTaskStatus s \<longleftrightarrow> s \<in> {TaskStatusCompleted, TaskStatusFailed, TaskStatusCancelled}"

definition errorMsgOrStatus :: "string \<Rightarrow> task_status \<Rightarrow> string" where
  "errorMsgOrStatus msg status = (if msg \<noteq> [] then msg
     else if status = TaskStatusFailed then ''executor reported task failure'' else [])"

definition TaskCompleted ::
  "'s task_repo \<Rightarrow> string \<Rightarrow> string \<Rightarrow> bool \<Rightarrow> string \<Rightarrow> sched \<Rightarrow> 's \<Rightarrow> repo_error option \<times> sched \<times> 's" where
  "TaskCompleted R taskID leaseID success errorMsg sd s =
     (let sd = decrementRunning sd;
          release = (\<lambda>st opts. case tr_ReleaseLease R taskID leaseID st opts s of (e, s') \<Rightarrow> (e, sd, s'))
      in if success then release TaskStatusCompleted no_release_options
         else (case tr_Get R taskID s of
             Inl _ \<Rightarrow> release TaskStatusFailed (no_release_options\<lparr>ro_Error := errorMsg\<rparr>)
           | Inr task \<Rightarrow>
               (let maxAttempts = (if task_MaxAttempts task \<le> 0 then 1 else task_MaxAttempts task);
                    attempt = (if task_Attempt task \<le> 0 then 1 else task_Attempt task)
                in if attempt < maxAttempts
                   then release TaskStatusQueued (no_release_options\<lparr>ro_Attempt := attempt + 1,
                          ro_MaxAttempts := maxAttempts, ro_Error := errorMsg\<rparr>)
                   else release TaskStatusFailed (no_release_options\<lparr>ro_Error := errorMsg\<rparr>))))"

definition completeTask ::
  "'s task_repo \<Rightarrow> task \<Rightarrow> bool \<Rightarrow> string \<Rightarrow> sched \<Rightarrow> 's \<Rightarrow> repo_error option \<times> sched \<times> 's" where
  "completeTask R task success errorMsg sd s =
     (let maxAttempts = (if task_MaxAttempts task \<le> 0 then 1 else task_MaxAttempts task);
          attempt = (if task_Attempt task \<le> 0 then 1 else task_Attempt task);
          (status, opts) =
            (if success then (TaskStatusCompleted, no_release_options)
             else if attempt < maxAttempts
             then (TaskStatusQueued, no_release_options\<lparr>ro_Attempt := attempt + 1,
                     ro_MaxAttempts := maxAttempts, ro_Error := errorMsg\<rparr>)
             else (TaskStatusFailed, no_release_options\<lparr>ro_Attempt := attempt,
                     ro_MaxAttempts := maxAttempts, ro_Error := errorMsg\<rparr>))
      in case tr_ReleaseLease R (task_ID task) (taskLeaseID task) status opts s of
           (e, s') \<Rightarrow> (e, decrementRunning sd, s'))"

section \<open>Watching a dispatched task\<close>

text \<open>
  Go's \<open>time.Duration\<close> conversion of a \<open>float64\<close> truncates towards zero; \<open>fl\<close> is the rounding of a
  floating-point product (IEEE 754), and \<open>r\<close> what \<open>rand.Float64\<close> returned.
\<close>

definition truncate_rat :: "rat \<Rightarrow> int" where
  "truncate_rat q = (if q < 0 then - \<lfloor>- q\<rfloor> else \<lfloor>q\<rfloor>)"

definition computeJitteredRenewInterval :: "(rat \<Rightarrow> rat) \<Rightarrow> rat \<Rightarrow> int \<Rightarrow> nanos" where
  "computeJitteredRenewInterval fl r leaseDurationSeconds =
     (let base = (leaseDurationSeconds * Second) div 2
      in if base \<le> 0 then 100000000
         else (let jitter = truncate_rat (fl ((r - 1/2) * of_int base) / 2); out = base + jitter
               in if out < 100000000 then 100000000 else out))"

record 's dispatch_tick =
  dt_executing :: bool
  dt_now :: nanos
  dt_done :: bool
  dt_env :: "'s \<Rightarrow> 's"

record watch =
  w_lastRenewal :: nanos
  w_renewFailures :: int
  w_leaseReleased :: bool

definition maxRenewFailures :: int where "maxRenewFailures = 3"

definition leaseClearedByTransition :: "'s task_repo \<Rightarrow> string \<Rightarrow> 's \<Rightarrow> bool" where
  "leaseClearedByTransition R i s = (case tr_Get R i s of Inl _ \<Rightarrow> False
     | Inr cur \<Rightarrow> task_Status cur \<noteq> TaskStatusRunning \<and> task_Status cur \<noteq> TaskStatusLeased)"

text \<open>The renewal block of one iteration: an escalation message, or the next watch state.\<close>

definition renew_step ::
  "'s task_repo \<Rightarrow> int \<Rightarrow> nanos \<Rightarrow> task \<Rightarrow> nanos \<Rightarrow> watch \<Rightarrow> 's \<Rightarrow> (string + watch) \<times> 's" where
  "renew_step R leaseSeconds renewInterval task now w s =
     (if \<not> w_leaseReleased w \<and> taskLeaseID task \<noteq> [] \<and> now - w_lastRenewal w \<ge> renewInterval
      then (case tr_RenewLease R (task_ID task) (taskLeaseID task) leaseSeconds s of
              (None, s') \<Rightarrow> (Inr (w\<lparr>w_renewFailures := 0, w_lastRenewal := now\<rparr>), s')
            | (Some err, s') \<Rightarrow>
                if err = ErrLeaseNotFound \<and> leaseClearedByTransition R (task_ID task) s'
                then (Inr (w\<lparr>w_leaseReleased := True\<rparr>), s')
                else (let failures = w_renewFailures w + 1
                      in if failures \<ge> maxRenewFailures
                         then (Inl (''failed to renew task lease ('' @ show_int failures @
                                '' consecutive failures): '' @ err_text err), s')
                         else (Inr (w\<lparr>w_renewFailures := failures,
                                      w_lastRenewal := now + (- renewInterval + Second)\<rparr>), s')))
      else (Inr w, s))"

datatype watch_end = WatchIdle | WatchEscalated string | WatchInterrupted

fun watch_loop ::
  "'s task_repo \<Rightarrow> int \<Rightarrow> nanos \<Rightarrow> task \<Rightarrow> 's dispatch_tick list \<Rightarrow> watch \<Rightarrow> 's \<Rightarrow> (watch_end \<times> 's) option" where
  "watch_loop R ls ri task [] w s = None"
| "watch_loop R ls ri task (k # ks) w s =
     (if \<not> dt_executing k then Some (WatchIdle, s)
      else (case renew_step R ls ri task (dt_now k) w s of
              (Inl msg, s') \<Rightarrow> Some (WatchEscalated msg, s')
            | (Inr w', s') \<Rightarrow> if dt_done k then Some (WatchInterrupted, s')
                             else watch_loop R ls ri task ks w' (dt_env k s')))"

text \<open>
  The executor and execution repository as the dispatch goroutine sees them: the result of
  \<open>ExecuteWithContext\<close>, what \<open>Cancel\<close> does to the store, and the status of the task's execution
  (none when there is no execution repository, no execution, or the read fails).
\<close>

record 's executor_view =
  ev_execute_error :: "string option"
  ev_cancel :: "'s \<Rightarrow> 's"
  ev_execution_status :: "'s \<Rightarrow> execution_status option"

definition classify_outcome ::
  "'s task_repo \<Rightarrow> 's executor_view \<Rightarrow> task \<Rightarrow> 's \<Rightarrow> dispatchOutcome \<times> string" where
  "classify_outcome R ev task s = (case tr_Get R (task_ID task) s of
       Inl e \<Rightarrow> (dispatchFailed, ''failed to reload task after executor completion: '' @ err_text e)
     | Inr current \<Rightarrow>
         (case task_Status current of
            TaskStatusCompleted \<Rightarrow> (dispatchSucceeded, [])
          | TaskStatusCancelled \<Rightarrow> (dispatchTerminated, [])
          | TaskStatusFailed \<Rightarrow>
              (case task_LastError current of
                 Some e \<Rightarrow> if e \<noteq> [] then (dispatchFailed, e)
                           else (dispatchFailed, ''task finished with status FAILED'')
               | None \<Rightarrow> (dispatchFailed, ''task finished with status FAILED''))
          | st \<Rightarrow> if ev_execution_status ev s = Some ExecutionStatusPaused then (dispatchPaused, [])
                  else (dispatchFailed,
                        ''task left executor in non-terminal status '' @ status_text st)))"

definition dispatchViaExecutor ::
  "'s task_repo \<Rightarrow> sched_config \<Rightarrow> nanos \<Rightarrow> nanos \<Rightarrow> 's executor_view \<Rightarrow> 's dispatch_tick list \<Rightarrow>
   task \<Rightarrow> 's \<Rightarrow> ((dispatchOutcome \<times> string) \<times> 's) option" where
  "dispatchViaExecutor R cfg renewInterval start ev ticks task s =
     (case ev_execute_error ev of Some e \<Rightarrow> Some ((dispatchFailed, e), s)
      | None \<Rightarrow>
          (case watch_loop R (cfg_LeaseDurationSeconds cfg) renewInterval task ticks
                  \<lparr>w_lastRenewal = start, w_renewFailures = 0, w_leaseReleased = False\<rparr> s of
             None \<Rightarrow> None
           | Some (WatchIdle, s') \<Rightarrow> Some (classify_outcome R ev task s', s')
           | Some (WatchEscalated msg, s') \<Rightarrow> Some ((dispatchFailed, msg), ev_cancel ev s')
           | Some (WatchInterrupted, s') \<Rightarrow> Some ((dispatchInterrupted, ''context canceled''), s')))"

definition releaseExecutorLease ::
  "'s task_repo \<Rightarrow> 's executor_view \<Rightarrow> task \<Rightarrow> dispatchOutcome \<Rightarrow> string \<Rightarrow> sched \<Rightarrow> 's \<Rightarrow>
   repo_error option \<times> sched \<times> 's" where
  "releaseExecutorLease R ev task outcome errorMsg sd s =
     (let i = task_ID task; l = taskLeaseID task;
          release = (\<lambda>st opts sd. case tr_ReleaseLease R i l st opts s of (e, s') \<Rightarrow> (e, sd, s'))
      in case outcome of
           dispatchSucceeded \<Rightarrow> TaskCompleted R i l True [] sd s
         | dispatchPaused \<Rightarrow>
             (let sd = decrementRunning sd
              in case tr_Get R i s of
                   Inl e \<Rightarrow> (Some (ErrOther (''failed to reload paused task: '' @ err_text e)), sd, s)
                 | Inr current \<Rightarrow>
                     release (if task_Status current \<in> {TaskStatusLeased, TaskStatusRunning}
                              then TaskStatusPending else task_Status current) no_release_options sd)
         | dispatchTerminated \<Rightarrow> (None, decrementRunning sd, s)
         | dispatchInterrupted \<Rightarrow>
             (let sd = decrementRunning sd
              in if ev_execution_status ev s = Some ExecutionStatusPaused then (None, sd, s)
                 else case tr_Get R i s of
                   Inl e \<Rightarrow> (Some (ErrOther (''failed to reload interrupted task: '' @ err_text e)), sd, s)
                 | Inr current \<Rightarrow>
                     if isTerminalTaskStatus (task_Status current) then (None, sd, s)
                     else release TaskStatusQueued
                       (no_release_options\<lparr>ro_Error := errorMsgOrStatus errorMsg TaskStatusQueued\<rparr>) sd)
         | dispatchFailed \<Rightarrow>
             TaskCompleted R i l False (errorMsgOrStatus errorMsg TaskStatusFailed) sd s)"

text \<open>
  A whole dispatch goroutine; \<open>None\<close> while the executor is still running after the given ticks. The
  slot is released from the scheduler state current at that moment.
\<close>

definition dispatchTask ::
  "'s task_repo \<Rightarrow> nanos \<Rightarrow> nanos \<Rightarrow> 's executor_view option \<Rightarrow> 's dispatch_tick list \<Rightarrow> task \<Rightarrow> sched \<Rightarrow> 's \<Rightarrow>
   (repo_error option \<times> sched \<times> 's) option" where
  "dispatchTask R renewInterval start executor ticks task sd s = (case executor of
       None \<Rightarrow> Some (completeTask R task True [] sd s)
     | Some ev \<Rightarrow>
         (case dispatchViaExecutor R (sd_config sd) renewInterval start ev ticks task s of None \<Rightarrow> None
          | Some ((outcome, msg), s') \<Rightarrow> Some (releaseExecutorLease R ev task outcome msg sd s')))"

section \<open>Recovery of expired leases\<close>

definition recordRecoveryIdleSince :: "string \<Rightarrow> nanos \<Rightarrow> sched \<Rightarrow> nanos \<times> sched" where
  "recordRecoveryIdleSince i now sd = (case sd_recoveryIdleSince sd i of
       Some existing \<Rightarrow> (existing, sd)
     | None \<Rightarrow> (now, sd\<lparr>sd_recoveryIdleSince := (sd_recoveryIdleSince sd)(i \<mapsto> now)\<rparr>))"

definition clearRecoveryIdleSince :: "string \<Rightarrow> sched \<Rightarrow> sched" where
  "clearRecoveryIdleSince i sd = sd\<lparr>sd_recoveryIdleSince := (sd_recoveryIdleSince sd)(i := None)\<rparr>"

definition dynamicRecoveryGrace :: "sched \<Rightarrow> nanos" where
  "dynamicRecoveryGrace sd =
     (let base = (if cfg_RecoveryIdleGrace (sd_config sd) \<le> 0 then 90 * Second
                  else cfg_RecoveryIdleGrace (sd_config sd));
          running = sd_runningCount sd
      in if running \<ge> 16 then base * 2 else if running \<ge> 6 then base * 3 div 2 else base)"

definition recovery_release :: "task \<Rightarrow> task_status \<times> release_options" where
  "recovery_release task =
     (let maxAttempts = (if task_MaxAttempts task \<le> 0 then 1 else task_MaxAttempts task);
          nextAttempt = task_Attempt task + 1;
          opts = \<lparr>ro_Attempt = nextAttempt, ro_MaxAttempts = maxAttempts,
                  ro_Error = ''task lease expired during execution'',
                  ro_ErrorClass = TaskFailureClassLeaseExpired\<rparr>
      in if nextAttempt > maxAttempts then (TaskStatusFailed, opts\<lparr>ro_Attempt := maxAttempts\<rparr>)
         else (TaskStatusQueued, opts))"

definition recover_release_step :: "'s task_repo \<Rightarrow> task \<Rightarrow> sched \<times> 's \<Rightarrow> sched \<times> 's" where
  "recover_release_step R task st = (case (st, recovery_release task) of ((sd, s), newStatus, opts) \<Rightarrow>
     (case tr_ReleaseLease R (task_ID task) (taskLeaseID task) newStatus opts s of
        (Some _, s') \<Rightarrow> (sd, s')
      | (None, s') \<Rightarrow> (clearRecoveryIdleSince (task_ID task) sd, s')))"

definition recover_one ::
  "'s task_repo \<Rightarrow> (string \<Rightarrow> bool) option \<Rightarrow> nanos \<Rightarrow> nanos \<Rightarrow> task \<Rightarrow> sched \<times> 's \<Rightarrow> sched \<times> 's" where
  "recover_one R executor now grace task st = (case st of (sd, s) \<Rightarrow>
     (case executor of
        None \<Rightarrow> recover_release_step R task (sd, s)
      | Some isExecuting \<Rightarrow>
          if isExecuting (task_ID task) then
            (let sd = clearRecoveryIdleSince (task_ID task) sd; l = taskLeaseID task
             in if l = [] then recover_release_step R task (sd, s)
                else (case tr_RenewLease R (task_ID task) l (cfg_LeaseDurationSeconds (sd_config sd)) s of
                        (None, s') \<Rightarrow> (sd, s')
                      | (Some _, s') \<Rightarrow> recover_release_step R task (sd, s')))
          else (case recordRecoveryIdleSince (task_ID task) now sd of (firstSeen, sd) \<Rightarrow>
                  if now - firstSeen < grace then (sd, s) else recover_release_step R task (sd, s))))"

definition recoverExpiredLeases ::
  "'s task_repo \<Rightarrow> (string \<Rightarrow> bool) option \<Rightarrow> nanos \<Rightarrow> sched \<Rightarrow> 's \<Rightarrow> sched \<times> 's" where
  "recoverExpiredLeases R executor now sd s =
     (case tr_FindExpiredLeases R (cfg_RecoveryBatchSize (sd_config sd)) s of
        Inl _ \<Rightarrow> (sd, s)
      | Inr tasks \<Rightarrow> fold (recover_one R executor now (dynamicRecoveryGrace sd)) tasks (sd, s))"

end
