(* ===== verification/ExternalWait.thy ===== *)
theory ExternalWait
  imports MessageStore Scheduler
begin

text \<open>
  The external-wait monitor (\<^verbatim>\<open>src/internal/scheduler/external_wait.go\<close>): it re-queues parked tasks
  whose deadline has passed and closes completed tasks whose closure request went unanswered for the
  grace period. The repositories may be nil, as in the code. \<open>json_time\<close> is the JSON text of a time
  inside the audit message. The monitor reads the clock once per scan.
\<close>

record 's msg_repo =
  mr_Insert :: "task_message \<Rightarrow> 's \<Rightarrow> repo_error option \<times> 's"
  mr_List :: "task_message_filter \<Rightarrow> 's \<Rightarrow> repo_error + task_message list"

definition sqlite_msg_repo :: "(nanos \<Rightarrow> string) \<Rightarrow> db msg_repo" where
  "sqlite_msg_repo stamp = \<lparr>mr_Insert = (\<lambda>m. Insert stamp (Some m)), mr_List = ListMessages\<rparr>"

definition findExpired :: "'s task_repo option \<Rightarrow> int \<Rightarrow> nanos \<Rightarrow> 's \<Rightarrow> repo_error + task list" where
  "findExpired taskRepo limit now s = (case taskRepo of None \<Rightarrow> Inr []
     | Some R \<Rightarrow>
         (case tr_List R \<lparr>tf_ProjectID = None, tf_Status = Some TaskStatusAwaitingExternal,
                  tf_UpdatedBefore = None, tf_PageSize = limit, tf_Offset = 0\<rparr> s of
            Inl e \<Rightarrow> Inl e
          | Inr tasks \<Rightarrow> Inr (filter (\<lambda>t. case task_ExpectedBy t of None \<Rightarrow> False | Some e \<Rightarrow> \<not> now < e) tasks)))"

definition system_message :: "string \<Rightarrow> string \<Rightarrow> string \<Rightarrow> nanos \<Rightarrow> task_message" where
  "system_message taskID content metadata now = \<lparr>msg_ID = [], msg_TaskID = taskID, msg_ExecutionID = None,
     msg_ParentID = None, msg_AuthorKind = TaskMessageAuthorSystem, msg_AuthorID = None,
     msg_MessageKind = TaskMessageKindSystem, msg_Content = content, msg_Metadata = metadata,
     msg_CreatedAt = now\<rparr>"

definition deadline_metadata :: "(nanos \<Rightarrow> string) \<Rightarrow> nanos option \<Rightarrow> string" where
  "deadline_metadata json_time e = ''{\"expected_by\":'' @ (case e of None \<Rightarrow> ''null'' | Some t \<Rightarrow> json_time t) @
     '',\"kind\":\"external_deadline_reached\"}''"

text \<open>The second component counts the wake-ups sent to the scheduler.\<close>

definition requeue ::
  "(nanos \<Rightarrow> string) \<Rightarrow> 's task_repo option \<Rightarrow> 's msg_repo option \<Rightarrow> nanos \<Rightarrow> task \<Rightarrow> 's \<times> nat \<Rightarrow> 's \<times> nat" where
  "requeue json_time persistRepo msgRepo now t st = (case st of (s, wakes) \<Rightarrow>
     if ValidateTransition (task_Status t) TaskStatusQueued TriggerExternalDeadline \<noteq> None then (s, wakes)
     else (let s1 = (case msgRepo of None \<Rightarrow> s
                | Some M \<Rightarrow> snd (mr_Insert M (system_message (task_ID t)
                    ''external deadline reached; resuming task''
                    (deadline_metadata json_time (task_ExpectedBy t)) now) s))
           in case persistRepo of None \<Rightarrow> (s1, wakes)
              | Some R \<Rightarrow>
                  (case tr_TransitionConditional R (task_ID t) [TaskStatusAwaitingExternal] TaskStatusQueued
                          (no_transition_opts\<lparr>to_ClearLease := True\<rparr>) s1 of
                     (Inl _, s2) \<Rightarrow> (s2, wakes)
                   | (Inr ok, s2) \<Rightarrow> (s2, if ok then wakes + 1 else wakes))))"

definition closureGracePeriod :: nanos where
  "closureGracePeriod = 14 * 24 * Hour"

definition closure_metadata :: string where
  "closure_metadata = ''{\"closedBy\":\"system_after_grace_period\",\"kind\":\"task_closed\",'' @
     ''\"reason\":\"closure_request grace period elapsed\"}''"

definition close_if_stale ::
  "'s task_repo \<Rightarrow> 's msg_repo \<Rightarrow> nanos \<Rightarrow> task \<Rightarrow> 's \<Rightarrow> 's" where
  "close_if_stale R M now t s =
     (case mr_List M \<lparr>mf_TaskID = task_ID t, mf_After = None,
              mf_MessageKinds = [TaskMessageKindClosureRequest], mf_IncludeDeleted = False, mf_Limit = 5\<rparr> s of
        Inl _ \<Rightarrow> s
      | Inr [] \<Rightarrow> s
      | Inr (m # ms) \<Rightarrow>
          if now - closureGracePeriod < msg_CreatedAt (last (m # ms)) then s
          else (case tr_TransitionConditional R (task_ID t) [TaskStatusCompleted] TaskStatusClosed
                       (no_transition_opts\<lparr>to_ClosedBy := Some ''system_after_grace_period'',
                          to_SetClosedAtNow := True\<rparr>) s of
                  (Inr True, s1) \<Rightarrow> snd (mr_Insert M (system_message (task_ID t)
                     ''auto-closed after 14d grace period'' closure_metadata now) s1)
                | (_, s1) \<Rightarrow> s1))"

definition scanClosureGrace ::
  "'s task_repo option \<Rightarrow> 's task_repo option \<Rightarrow> 's msg_repo option \<Rightarrow> nanos \<Rightarrow> 's \<Rightarrow> 's" where
  "scanClosureGrace taskRepo persistRepo msgRepo now s = (case (taskRepo, persistRepo, msgRepo) of
       (Some T, Some R, Some M) \<Rightarrow>
         (case tr_List T \<lparr>tf_ProjectID = None, tf_Status = Some TaskStatusCompleted,
                  tf_UpdatedBefore = Some (now - closureGracePeriod), tf_PageSize = 500, tf_Offset = 0\<rparr> s of
            Inl _ \<Rightarrow> s
          | Inr tasks \<Rightarrow> fold (close_if_stale R M now) tasks s)
     | _ \<Rightarrow> s)"

definition scanOnce ::
  "(nanos \<Rightarrow> string) \<Rightarrow> 's task_repo option \<Rightarrow> 's task_repo option \<Rightarrow> 's msg_repo option \<Rightarrow> nanos \<Rightarrow> 's \<Rightarrow>
   's \<times> nat" where
  "scanOnce json_time taskRepo persistRepo msgRepo now s =
     (let (s1, wakes) = (case findExpired taskRepo 100 now s of Inl _ \<Rightarrow> (s, 0)
             | Inr tasks \<Rightarrow> fold (requeue json_time persistRepo msgRepo now) tasks (s, 0))
      in (scanClosureGrace taskRepo persistRepo msgRepo now s1, wakes))"

section \<open>Effects on one row\<close>

text \<open>A step that works on the row with one id and leaves all others as they are.\<close>

definition touches_only :: "string \<Rightarrow> (task \<Rightarrow> task \<Rightarrow> bool) \<Rightarrow> db \<Rightarrow> db \<Rightarrow> bool" where
  "touches_only i T d d' \<longleftrightarrow> tasks_ok (db_tasks d') \<and> map task_ID (db_tasks d') = map task_ID (db_tasks d) \<and>
     (\<forall>r \<in> set (db_tasks d). \<exists>r' \<in> set (db_tasks d'). if task_ID r = i then T r r' \<and> task_ID r' = i else r' = r)"

lemma touches_only_trans:
  assumes "touches_only i T d d1" and "touches_only i U d1 d2" and "\<And>r r1 r2. T r r1 \<Longrightarrow> U r1 r2 \<Longrightarrow> V r r2"
  shows "touches_only i V d d2"
proof -
  have "\<exists>r2 \<in> set (db_tasks d2). if task_ID r = i then V r r2 \<and> task_ID r2 = i else r2 = r"
    if r: "r \<in> set (db_tasks d)" for r
  proof -
    from assms(1) r obtain r1 where r1: "r1 \<in> set (db_tasks d1)"
      "if task_ID r = i then T r r1 \<and> task_ID r1 = i else r1 = r" unfolding touches_only_def by blast
    from assms(2) r1(1) obtain r2 where "r2 \<in> set (db_tasks d2)"
      "if task_ID r1 = i then U r1 r2 \<and> task_ID r2 = i else r2 = r1" unfolding touches_only_def by blast
    with r1(2) assms(3) show ?thesis by (metis (full_types))
  qed
  with assms(1,2) show ?thesis by (simp add: touches_only_def)
qed

lemma touches_only_update:
  assumes "db_tasks d' = sql_update P f (db_tasks d)" and "tasks_ok (db_tasks d')"
    and "\<And>r. P r \<Longrightarrow> task_ID r = i" and "\<And>r. task_ID (f r) = task_ID r"
    and "\<And>r. r \<in> set (db_tasks d) \<Longrightarrow> T r (if P r then f r else r)"
  shows "touches_only i T d d'"
  unfolding touches_only_def
proof (intro conjI ballI)
  fix r assume r: "r \<in> set (db_tasks d)"
  let ?r' = "if P r then f r else r"
  have "?r' \<in> set (db_tasks d')" using r by (auto simp: assms(1) in_set_sql_update)
  then show "\<exists>r' \<in> set (db_tasks d'). if task_ID r = i then T r r' \<and> task_ID r' = i else r' = r"
    using assms(3) [of r] assms(4) [of r] assms(5) [OF r] by (intro bexI [of _ ?r']) auto
qed (use assms in \<open>auto simp: map_sql_update\<close>)

lemma touches_only_refl: "tasks_ok (db_tasks d) \<Longrightarrow> (\<And>r. T r r) \<Longrightarrow> touches_only i T d d"
  by (auto simp: touches_only_def)

definition row_steps ::
  "task list \<Rightarrow> (db \<Rightarrow> bool) \<Rightarrow> (task \<Rightarrow> task \<Rightarrow> task \<Rightarrow> bool) \<Rightarrow> (task \<Rightarrow> db \<Rightarrow> db) \<Rightarrow> bool" where
  "row_steps ts I T g \<longleftrightarrow> (\<forall>t \<in> set ts. \<forall>d. tasks_ok (db_tasks d) \<longrightarrow> I d \<longrightarrow>
     touches_only (task_ID t) (T t) d (g t d) \<and> I (g t d))"

text \<open>Steps on distinct rows compose: each row sees only the step on its own id.\<close>

lemma touches_only_fold:
  assumes "row_steps ts I T g"
    and "distinct (map task_ID ts)" and "tasks_ok (db_tasks d)" and "I d"
  shows "tasks_ok (db_tasks (fold g ts d)) \<and> I (fold g ts d) \<and>
    map task_ID (db_tasks (fold g ts d)) = map task_ID (db_tasks d) \<and>
    (\<forall>r \<in> set (db_tasks d). \<exists>r' \<in> set (db_tasks (fold g ts d)). task_ID r' = task_ID r \<and>
      (if task_ID r \<in> task_ID ` set ts then \<exists>t \<in> set ts. task_ID t = task_ID r \<and> T t r r' else r' = r))"
  using assms
proof (induction ts arbitrary: d)
  case Nil
  then show ?case by auto
next
  case (Cons t ts)
  have one: "touches_only (task_ID t) (T t) d (g t d)" "I (g t d)" using Cons.prems by (auto simp: row_steps_def)
  then have ok: "tasks_ok (db_tasks (g t d))" by (simp add: touches_only_def)
  have rest: "tasks_ok (db_tasks (fold g ts (g t d)))" "I (fold g ts (g t d))"
    "map task_ID (db_tasks (fold g ts (g t d))) = map task_ID (db_tasks (g t d))"
    "\<And>r. r \<in> set (db_tasks (g t d)) \<Longrightarrow> \<exists>r' \<in> set (db_tasks (fold g ts (g t d))). task_ID r' = task_ID r \<and>
      (if task_ID r \<in> task_ID ` set ts then \<exists>u \<in> set ts. task_ID u = task_ID r \<and> T u r r' else r' = r)"
    using Cons.IH [OF _ _ ok one(2)] Cons.prems(1,2) by (auto simp: row_steps_def)
  have "\<exists>r' \<in> set (db_tasks (fold g (t # ts) d)). task_ID r' = task_ID r \<and>
      (if task_ID r \<in> task_ID ` set (t # ts) then \<exists>u \<in> set (t # ts). task_ID u = task_ID r \<and> T u r r' else r' = r)"
    if r: "r \<in> set (db_tasks d)" for r
  proof -
    from one r obtain r1 where r1: "r1 \<in> set (db_tasks (g t d))"
      "if task_ID r = task_ID t then T t r r1 \<and> task_ID r1 = task_ID t else r1 = r"
      unfolding touches_only_def by blast
    from rest(4) [OF r1(1)] obtain r' where r': "r' \<in> set (db_tasks (fold g ts (g t d)))"
      "task_ID r' = task_ID r1" "if task_ID r1 \<in> task_ID ` set ts
        then \<exists>u \<in> set ts. task_ID u = task_ID r1 \<and> T u r1 r' else r' = r1" by blast
    show ?thesis
    proof (cases "task_ID r = task_ID t")
      case True
      then have "task_ID r1 \<notin> task_ID ` set ts" using r1(2) Cons.prems(2) by auto
      with True r1(2) r' show ?thesis by (intro bexI [of _ r']) auto
    next
      case False
      with r1(2) r' show ?thesis by (intro bexI [of _ r']) (auto split: if_splits)
    qed
  qed
  with rest(1-3) one(1) show ?case by (simp add: touches_only_def)
qed

section \<open>The two phases over the SQLite store\<close>

definition closure_requests :: "db \<Rightarrow> task_message list" where
  "closure_requests d = filter (\<lambda>m. msg_MessageKind m = TaskMessageKindClosureRequest) (db_messages d)"

text \<open>Inserting a message changes no status, lease or deadline.\<close>

definition same_lifecycle :: "task \<Rightarrow> task \<Rightarrow> bool" where
  "same_lifecycle r r' \<longleftrightarrow> task_Status r' = task_Status r \<and> task_ClosedBy r' = task_ClosedBy r \<and>
     task_ClosedAt r' = task_ClosedAt r \<and> (lease_free r \<longrightarrow> lease_free r')"

lemma insertWithExec_touches:
  assumes "tasks_ok (db_tasks d)"
  shows "touches_only (msg_TaskID m) same_lifecycle d (snd (insertWithExec m d))"
proof (cases "msg_ID m \<in> msg_ID ` set (db_messages d)")
  case True
  with assms show ?thesis by (simp add: insertWithExec_def touches_only_refl same_lifecycle_def)
next
  case False
  let ?f = "\<lambda>t. t\<lparr>task_MessageCount := task_MessageCount t + 1, task_OpenCheckpointID :=
    (if msg_MessageKind m = TaskMessageKindCheckpoint then Some (msg_ID m) else task_OpenCheckpointID t),
    task_UpdatedAt := db_now d\<rparr>"
  have upd: "db_tasks (snd (insertWithExec m d)) = sql_update (\<lambda>t. task_ID t = msg_TaskID m) ?f (db_tasks d)"
    using False by (simp add: insertWithExec_def)
  have "tasks_ok (db_tasks (snd (insertWithExec m d)))"
    unfolding upd using assms
    by (intro tasks_ok_sql_update) (auto simp: keeps_keys_def tasks_ok_def list_all_iff row_check_def)
  then show ?thesis
    by (rule touches_only_update [OF upd]) (auto simp: same_lifecycle_def lease_free_def)
qed

lemma system_message_insert:
  assumes "tasks_ok (db_tasks d)"
  shows "touches_only i same_lifecycle d (snd (Insert stamp (Some (system_message i c md now)) d)) \<and>
    closure_requests (snd (Insert stamp (Some (system_message i c md now)) d)) = closure_requests d"
proof -
  obtain j d1 where g: "GenerateID stamp ''tmsg'' d = (j, d1)" by fastforce
  then have d1: "db_tasks d1 = db_tasks d" "db_messages d1 = db_messages d"
    by (auto simp: GenerateID_def Let_def split: list.splits)
  define m where "m = (system_message i c md now)\<lparr>msg_ID := j,
    msg_CreatedAt := (if now = 0 then db_now d else now)\<rparr>"
  have mi: "msg_TaskID m = i" "msg_MessageKind m = TaskMessageKindSystem"
    by (simp_all add: m_def system_message_def)
  have "touches_only i same_lifecycle d (snd (insertWithExec m d1))"
    using insertWithExec_touches [of d1 m] assms by (simp add: touches_only_def d1 mi)
  moreover have "closure_requests (snd (insertWithExec m d1)) = closure_requests d"
    by (simp add: closure_requests_def insertWithExec_def d1 mi TaskMessageKindSystem_def
        TaskMessageKindClosureRequest_def)
  moreover have "i \<noteq> [] \<Longrightarrow> Insert stamp (Some (system_message i c md now)) d = insertWithExec m d1"
    by (simp add: Insert_def Let_def g system_message_def m_def TaskMessageAuthorSystem_def
        TaskMessageKindSystem_def)
  moreover have "i = [] \<Longrightarrow> snd (Insert stamp (Some (system_message i c md now)) d) = d"
    by (simp add: Insert_def system_message_def)
  ultimately show ?thesis using assms
    by (cases "i = []") (auto intro!: touches_only_refl simp: same_lifecycle_def)
qed

lemma transition_touches:
  assumes "tasks_ok (db_tasks d)" and "i \<noteq> []" and "declared_status to" and "to \<noteq> TaskStatusOther []"
    and "frm \<noteq> []"
  shows "\<exists>ok d'. TransitionConditional i frm to opts d = (Inr ok, d') \<and> closure_requests d' = closure_requests d \<and>
    touches_only i (\<lambda>r r'. r' = (if task_Status r \<in> set frm
      then apply_transition_opts (db_now d) opts (r\<lparr>task_Status := to\<rparr>) else r)) d d'"
proof -
  let ?P = "\<lambda>t. task_Status t \<in> set frm \<and> task_ID t = i"
  let ?f = "\<lambda>t. apply_transition_opts (db_now d) opts (t\<lparr>task_Status := to\<rparr>)"
  let ?d' = "d\<lparr>db_tasks := sql_update ?P ?f (db_tasks d)\<rparr>"
  have run: "TransitionConditional i frm to opts d = (Inr (rows_affected ?P (db_tasks d) > 0), ?d')"
    using assms by (simp add: TransitionConditional_def update_status_where_def Let_def)
  have "tasks_ok (db_tasks ?d')" using run assms(1) by (rule TransitionConditional_ok)
  then have "touches_only i (\<lambda>r r'. task_ID r = i \<longrightarrow> r' = (if task_Status r \<in> set frm
      then apply_transition_opts (db_now d) opts (r\<lparr>task_Status := to\<rparr>) else r)) d ?d'"
    by (intro touches_only_update [where P = ?P and f = ?f]) auto
  then have "touches_only i (\<lambda>r r'. r' = (if task_Status r \<in> set frm
      then apply_transition_opts (db_now d) opts (r\<lparr>task_Status := to\<rparr>) else r)) d ?d'"
    unfolding touches_only_def by meson
  with run show ?thesis by (intro exI conjI) (auto simp: closure_requests_def)
qed

abbreviation sqlite_scan ::
  "(nanos \<Rightarrow> string) \<Rightarrow> (nanos \<Rightarrow> nanos \<Rightarrow> bool) \<Rightarrow> (nanos \<Rightarrow> string) \<Rightarrow> nanos \<Rightarrow> db \<Rightarrow> db \<times> nat" where
  "sqlite_scan json_time lt stamp \<equiv>
     scanOnce json_time (Some (sqlite_repo lt)) (Some (sqlite_repo lt)) (Some (sqlite_msg_repo stamp))"

definition past_deadline :: "nanos \<Rightarrow> task \<Rightarrow> bool" where
  "past_deadline now r \<longleftrightarrow> task_Status r = TaskStatusAwaitingExternal \<and>
     (case sqlNullTime (task_ExpectedBy r) of None \<Rightarrow> False | Some e \<Rightarrow> e \<le> now)"

lemma requeue_touches:
  assumes "tasks_ok (db_tasks d)" and "task_Status t = TaskStatusAwaitingExternal" and "task_ID t \<noteq> []"
  shows "touches_only (task_ID t) (\<lambda>r r'. task_Status r = TaskStatusAwaitingExternal \<longrightarrow>
        task_Status r' = TaskStatusQueued \<and> lease_free r') d
      (fst (requeue json_time (Some (sqlite_repo lt)) (Some (sqlite_msg_repo stamp)) now t (d, w))) \<and>
    closure_requests (fst (requeue json_time (Some (sqlite_repo lt)) (Some (sqlite_msg_repo stamp)) now t (d, w)))
      = closure_requests d"
proof -
  have valid: "ValidateTransition (task_Status t) TaskStatusQueued TriggerExternalDeadline = None"
    using assms(2) by (simp add: ValidateTransition_def)
  let ?d1 = "snd (Insert stamp (Some (system_message (task_ID t) ''external deadline reached; resuming task''
    (deadline_metadata json_time (task_ExpectedBy t)) now)) d)"
  have ins: "touches_only (task_ID t) same_lifecycle d ?d1" "closure_requests ?d1 = closure_requests d"
    using system_message_insert [OF assms(1)] by blast+
  then have ok1: "tasks_ok (db_tasks ?d1)" by (simp add: touches_only_def)
  obtain ok d' where tr: "TransitionConditional (task_ID t) [TaskStatusAwaitingExternal] TaskStatusQueued
      (no_transition_opts\<lparr>to_ClearLease := True\<rparr>) ?d1 = (Inr ok, d')"
    "closure_requests d' = closure_requests ?d1"
    "touches_only (task_ID t) (\<lambda>r r'. r' = (if task_Status r \<in> set [TaskStatusAwaitingExternal]
      then apply_transition_opts (db_now ?d1) (no_transition_opts\<lparr>to_ClearLease := True\<rparr>)
        (r\<lparr>task_Status := TaskStatusQueued\<rparr>) else r)) ?d1 d'"
    using transition_touches [OF ok1 assms(3), of TaskStatusQueued "[TaskStatusAwaitingExternal]"
        "no_transition_opts\<lparr>to_ClearLease := True\<rparr>"] by auto
  have "touches_only (task_ID t) (\<lambda>r r'. task_Status r = TaskStatusAwaitingExternal \<longrightarrow>
      task_Status r' = TaskStatusQueued \<and> lease_free r') d d'"
    by (rule touches_only_trans [OF ins(1) tr(3)])
      (auto simp: same_lifecycle_def apply_transition_opts_def no_transition_opts_def clear_lease_def
        lease_free_def Let_def)
  with tr(1,2) ins(2) valid show ?thesis
    by (simp add: requeue_def Let_def sqlite_repo_def sqlite_msg_repo_def)
qed

lemma closure_listing:
  assumes "ListMessages \<lparr>mf_TaskID = i, mf_After = None, mf_MessageKinds = [TaskMessageKindClosureRequest],
      mf_IncludeDeleted = False, mf_Limit = 5\<rparr> d = Inr ms" and "m \<in> set ms"
  shows "m \<in> set (closure_requests d) \<and> msg_TaskID m = i"
  using assms by (auto simp: ListMessages_def Let_def closure_requests_def message_match_def
      split: if_splits dest!: in_set_takeD)

definition stale_request :: "task_message list \<Rightarrow> nanos \<Rightarrow> string \<Rightarrow> bool" where
  "stale_request ms now i \<longleftrightarrow> (\<exists>m \<in> set ms. msg_TaskID m = i \<and> msg_CreatedAt m \<le> now - closureGracePeriod)"

definition auto_closed :: "task \<Rightarrow> bool" where
  "auto_closed r \<longleftrightarrow> task_Status r = TaskStatusClosed \<and> task_ClosedBy r = Some ''system_after_grace_period'' \<and>
     task_ClosedAt r \<noteq> None"

lemma close_touches:
  assumes "tasks_ok (db_tasks d)" and "task_ID t \<noteq> []"
  shows "touches_only (task_ID t) (\<lambda>r r'. r' = r \<or> task_Status r \<noteq> TaskStatusCompleted \<or>
        auto_closed r' \<and> stale_request (closure_requests d) now (task_ID t)) d
      (close_if_stale (sqlite_repo lt) (sqlite_msg_repo stamp) now t d) \<and>
    closure_requests (close_if_stale (sqlite_repo lt) (sqlite_msg_repo stamp) now t d) = closure_requests d"
    (is "touches_only _ ?T _ ?d' \<and> _")
proof -
  let ?f = "\<lparr>mf_TaskID = task_ID t, mf_After = None, mf_MessageKinds = [TaskMessageKindClosureRequest],
      mf_IncludeDeleted = False, mf_Limit = 5\<rparr>"
  let ?o = "no_transition_opts\<lparr>to_ClosedBy := Some ''system_after_grace_period'', to_SetClosedAtNow := True\<rparr>"
  obtain ms where ms: "ListMessages ?f d = Inr ms" using assms(2) by (simp add: ListMessages_def Let_def)
  show ?thesis
  proof (cases "ms = [] \<or> now - closureGracePeriod < msg_CreatedAt (last ms)")
    case True
    then have "?d' = d"
      using ms by (auto simp: close_if_stale_def sqlite_msg_repo_def split: list.split)
    then show ?thesis using assms(1) by (simp add: touches_only_refl)
  next
    case False
    then have stale: "stale_request (closure_requests d) now (task_ID t)"
      using closure_listing [OF ms, of "last ms"] unfolding stale_request_def
      by (intro bexI [of _ "last ms"]) auto
    obtain ok d1 where tr: "TransitionConditional (task_ID t) [TaskStatusCompleted] TaskStatusClosed ?o d = (Inr ok, d1)"
      "closure_requests d1 = closure_requests d"
      "touches_only (task_ID t) (\<lambda>r r'. r' = (if task_Status r \<in> set [TaskStatusCompleted]
        then apply_transition_opts (db_now d) ?o (r\<lparr>task_Status := TaskStatusClosed\<rparr>) else r)) d d1"
      using transition_touches [OF assms, of TaskStatusClosed "[TaskStatusCompleted]" ?o] by auto
    then have ok1: "tasks_ok (db_tasks d1)" by (simp add: touches_only_def)
    define d2 where "d2 = (if ok then snd (Insert stamp (Some (system_message (task_ID t)
        ''auto-closed after 14d grace period'' closure_metadata now)) d1) else d1)"
    have d2: "touches_only (task_ID t) same_lifecycle d1 d2 \<and> closure_requests d2 = closure_requests d1"
      using system_message_insert [OF ok1] ok1
      by (cases ok) (auto simp: d2_def same_lifecycle_def intro!: touches_only_refl)
    have "?d' = d2" using False ms tr(1)
      by (cases ms; cases ok) (simp_all add: close_if_stale_def sqlite_msg_repo_def sqlite_repo_def d2_def)
    moreover have "touches_only (task_ID t) ?T d d2"
      using stale by (intro touches_only_trans [OF tr(3) conjunct1 [OF d2]])
        (auto simp: same_lifecycle_def auto_closed_def apply_transition_opts_def no_transition_opts_def Let_def)
    ultimately show ?thesis using d2 tr(2) by simp
  qed
qed

section \<open>One scan\<close>

lemma distinct_ids_listing:
  assumes "tasks_ok ts"
  shows "distinct (map task_ID (map scanSqliteTask (take n (select_desc P k ts))))"
proof -
  have ids: "map (task_ID \<circ> scanSqliteTask) xs = map task_ID xs" for xs by simp
  have "distinct (map task_ID (filter P ts))" using assms by (simp add: tasks_ok_def distinct_map_filter)
  then have "distinct (map task_ID (select_desc P k ts))"
    by (simp add: select_desc_def distinct_map rev_filter [symmetric])
  then show ?thesis by (simp add: ids take_map [symmetric] distinct_take)
qed

lemma List_sqlite:
  "tr_List (sqlite_repo lt) \<lparr>tf_ProjectID = None, tf_Status = Some st, tf_UpdatedBefore = ub, tf_PageSize = n,
     tf_Offset = 0\<rparr> d = Inr ts \<Longrightarrow> 0 < n \<Longrightarrow>
   ts = map scanSqliteTask (take (nat n) (select_desc (\<lambda>t. task_Status t = st \<and>
     (case ub of None \<Rightarrow> True | Some c \<Rightarrow> lt (task_UpdatedAt t) c)) (\<lambda>t. sqliteTime (task_CreatedAt t)) (db_tasks d)))"
  by (simp add: sqlite_repo_def List_def list_filter_def [abs_def])

lemma fold_requeue_fst:
  "fst (fold (requeue json_time R M now) ts (d, w)) = fold (\<lambda>t d. fst (requeue json_time R M now t (d, 0))) ts d"
proof (induction ts arbitrary: d w)
  case (Cons t ts)
  obtain d1 w1 where rq: "requeue json_time R M now t (d, w) = (d1, w1)" by fastforce
  have "fst (requeue json_time R M now t (d, w)) = fst (requeue json_time R M now t (d, 0))"
    by (simp add: requeue_def Let_def split: option.split prod.split sum.split)
  then have "fst (requeue json_time R M now t (d, 0)) = d1" using rq by simp
  with Cons [of d1 w1] rq show ?case by simp
qed simp

abbreviation requeue_all ::
  "(nanos \<Rightarrow> string) \<Rightarrow> (nanos \<Rightarrow> nanos \<Rightarrow> bool) \<Rightarrow> (nanos \<Rightarrow> string) \<Rightarrow> nanos \<Rightarrow> task list \<Rightarrow> db \<Rightarrow> db" where
  "requeue_all json_time lt stamp now ts d \<equiv>
     fst (fold (requeue json_time (Some (sqlite_repo lt)) (Some (sqlite_msg_repo stamp)) now) ts (d, 0))"

text \<open>The tasks \<open>findExpired\<close> returns: the overdue ones among the hundred newest parked tasks.\<close>

definition first_page :: "db \<Rightarrow> task list" where
  "first_page d = take 100 (select_desc (\<lambda>t. task_Status t = TaskStatusAwaitingExternal)
     (\<lambda>t. sqliteTime (task_CreatedAt t)) (db_tasks d))"

lemma filter_scanned_deadline:
  "\<forall>r \<in> set rs. task_Status r = TaskStatusAwaitingExternal \<Longrightarrow>
   filter (\<lambda>t. case task_ExpectedBy t of None \<Rightarrow> False | Some e \<Rightarrow> \<not> now < e) (map scanSqliteTask rs) =
     map scanSqliteTask (filter (past_deadline now) rs)"
  by (induction rs) (auto simp: past_deadline_def split: option.splits)

lemma findExpired_page:
  "findExpired (Some (sqlite_repo lt)) 100 now d =
     Inr (map scanSqliteTask (filter (past_deadline now) (first_page d)))"
proof -
  have "\<forall>r \<in> set (first_page d). task_Status r = TaskStatusAwaitingExternal"
    by (auto simp: first_page_def dest!: in_set_takeD)
  note page = filter_scanned_deadline [OF this, of now]
  have "findExpired (Some (sqlite_repo lt)) 100 now d = Inr (filter (\<lambda>t. case task_ExpectedBy t of
      None \<Rightarrow> False | Some e \<Rightarrow> \<not> now < e) (map scanSqliteTask (first_page d)))"
    by (simp add: findExpired_def sqlite_repo_def List_def list_filter_def [abs_def] first_page_def)
  then show ?thesis unfolding page .
qed

lemma requeue_phase:
  assumes "tasks_ok (db_tasks d)" and "[] \<notin> task_ID ` set (db_tasks d)"
    and ts: "ts = map scanSqliteTask (filter (past_deadline now) (first_page d))"
  shows "tasks_ok (db_tasks (requeue_all json_time lt stamp now ts d))"
    and "closure_requests (requeue_all json_time lt stamp now ts d) = closure_requests d"
    and "map task_ID (db_tasks (requeue_all json_time lt stamp now ts d)) = map task_ID (db_tasks d)"
    and "\<And>r. r \<in> set (db_tasks d) \<Longrightarrow> \<exists>r' \<in> set (db_tasks (requeue_all json_time lt stamp now ts d)).
      task_ID r' = task_ID r \<and> (if past_deadline now r \<and> r \<in> set (first_page d)
        then task_Status r' = TaskStatusQueued \<and> lease_free r' else r' = r)"
proof -
  let ?g = "\<lambda>t d. fst (requeue json_time (Some (sqlite_repo lt)) (Some (sqlite_msg_repo stamp)) now t (d, 0))"
  let ?T = "\<lambda>t r r'. task_Status r = TaskStatusAwaitingExternal \<longrightarrow> task_Status r' = TaskStatusQueued \<and> lease_free r'"
  have page: "set (first_page d) \<subseteq> set (db_tasks d)" by (auto simp: first_page_def dest!: in_set_takeD)
  have ids: "task_ID r \<in> task_ID ` set ts \<longleftrightarrow> past_deadline now r \<and> r \<in> set (first_page d)"
    if "r \<in> set (db_tasks d)" for r
  proof
    assume "task_ID r \<in> task_ID ` set ts"
    then obtain r1 where "r1 \<in> set (first_page d)" "past_deadline now r1" "task_ID r1 = task_ID r"
      by (auto simp: ts)
    with tasks_ok_unique [OF assms(1)] that page show "past_deadline now r \<and> r \<in> set (first_page d)" by blast
  qed (auto simp: ts image_image)
  have step: "touches_only (task_ID t) (?T t) d1 (?g t d1) \<and> closure_requests (?g t d1) = closure_requests d"
    if "t \<in> set ts" "tasks_ok (db_tasks d1)" "closure_requests d1 = closure_requests d" for t d1
  proof -
    from that(1) obtain r where r: "r \<in> set (first_page d)" "past_deadline now r" "t = scanSqliteTask r"
      by (auto simp: ts)
    then have "task_ID t \<in> task_ID ` set (db_tasks d)" using page by auto
    then have "task_Status t = TaskStatusAwaitingExternal" "task_ID t \<noteq> []"
      using r(2,3) assms(2) by (auto simp: past_deadline_def)
    from requeue_touches [OF that(2) this] that(3) show ?thesis by simp
  qed
  have dist: "distinct (map task_ID ts)"
    unfolding ts first_page_def map_map
    by (rule distinct_map_filter) (rule distinct_ids_listing [OF assms(1), unfolded map_map])
  have steps: "row_steps ts (\<lambda>d1. closure_requests d1 = closure_requests d) ?T ?g"
    unfolding row_steps_def using step by blast
  note phase = touches_only_fold [OF steps dist assms(1) refl]
  show "tasks_ok (db_tasks (requeue_all json_time lt stamp now ts d))"
    "closure_requests (requeue_all json_time lt stamp now ts d) = closure_requests d"
    "map task_ID (db_tasks (requeue_all json_time lt stamp now ts d)) = map task_ID (db_tasks d)"
    unfolding fold_requeue_fst using phase by blast+
  fix r assume r: "r \<in> set (db_tasks d)"
  from phase r obtain r' where "r' \<in> set (db_tasks (fold ?g ts d))" "task_ID r' = task_ID r"
    "if past_deadline now r \<and> r \<in> set (first_page d) then \<exists>t \<in> set ts. task_ID t = task_ID r \<and> ?T t r r' else r' = r"
    unfolding ids [OF r, symmetric] by blast
  then show "\<exists>r' \<in> set (db_tasks (requeue_all json_time lt stamp now ts d)).
      task_ID r' = task_ID r \<and> (if past_deadline now r \<and> r \<in> set (first_page d)
        then task_Status r' = TaskStatusQueued \<and> lease_free r' else r' = r)"
    unfolding fold_requeue_fst by (intro bexI [of _ r']) (auto simp: past_deadline_def split: if_splits)
qed

lemma closure_phase:
  assumes "tasks_ok (db_tasks d)" and "[] \<notin> task_ID ` set (db_tasks d)"
    and "d' = scanClosureGrace (Some (sqlite_repo lt)) (Some (sqlite_repo lt)) (Some (sqlite_msg_repo stamp)) now d"
  shows "tasks_ok (db_tasks d')" and "map task_ID (db_tasks d') = map task_ID (db_tasks d)"
    and "\<And>r. r \<in> set (db_tasks d) \<Longrightarrow> \<exists>r' \<in> set (db_tasks d').
    task_ID r' = task_ID r \<and> (r' = r \<or> task_Status r = TaskStatusCompleted \<and> auto_closed r' \<and>
      lt (task_UpdatedAt r) (now - closureGracePeriod) \<and> stale_request (closure_requests d) now (task_ID r))"
proof -
  let ?P = "\<lambda>t. task_Status t = TaskStatusCompleted \<and> lt (task_UpdatedAt t) (now - closureGracePeriod)"
  define ts where "ts = map scanSqliteTask (take 500 (select_desc ?P (\<lambda>t. sqliteTime (task_CreatedAt t)) (db_tasks d)))"
  let ?g = "close_if_stale (sqlite_repo lt) (sqlite_msg_repo stamp) now"
  let ?T = "\<lambda>t r r'. r' = r \<or> task_Status r \<noteq> TaskStatusCompleted \<or>
    auto_closed r' \<and> stale_request (closure_requests d) now (task_ID t)"
  have run: "d' = fold ?g ts d"
    by (simp add: assms(3) scanClosureGrace_def sqlite_repo_def List_def list_filter_def [abs_def] ts_def)
  have ints: "\<exists>r \<in> set (db_tasks d). ?P r \<and> t = scanSqliteTask r" if "t \<in> set ts" for t
    using that by (auto simp: ts_def dest!: in_set_takeD)
  have step: "touches_only (task_ID t) (?T t) d1 (?g t d1) \<and> closure_requests (?g t d1) = closure_requests d"
    if "t \<in> set ts" "tasks_ok (db_tasks d1)" "closure_requests d1 = closure_requests d" for t d1
  proof -
    have "task_ID t \<noteq> []" using ints [OF that(1)] assms(2) by (auto simp: image_iff)
    from close_touches [OF that(2) this] show ?thesis unfolding that(3) .
  qed
  have dist: "distinct (map task_ID ts)" unfolding ts_def by (rule distinct_ids_listing [OF assms(1)])
  have steps: "row_steps ts (\<lambda>d1. closure_requests d1 = closure_requests d) ?T ?g"
    unfolding row_steps_def using step by blast
  note phase = touches_only_fold [OF steps dist assms(1) refl]
  show "tasks_ok (db_tasks d')" unfolding run by (rule conjunct1 [OF phase])
  show "map task_ID (db_tasks d') = map task_ID (db_tasks d)"
    unfolding run by (rule conjunct1 [OF conjunct2 [OF conjunct2 [OF phase]]])
  fix r assume r: "r \<in> set (db_tasks d)"
  have listed: "?P r" if "task_ID r \<in> task_ID ` set ts"
  proof -
    from that obtain r1 where "r1 \<in> set (db_tasks d)" "?P r1" "task_ID r1 = task_ID r" using ints by fastforce
    with tasks_ok_unique [OF assms(1)] r show ?thesis by blast
  qed
  from phase r obtain r' where r': "r' \<in> set (db_tasks d')" "task_ID r' = task_ID r"
    "if task_ID r \<in> task_ID ` set ts then \<exists>t \<in> set ts. task_ID t = task_ID r \<and> ?T t r r' else r' = r"
    unfolding run by blast
  then show "\<exists>r' \<in> set (db_tasks d'). task_ID r' = task_ID r \<and> (r' = r \<or> task_Status r = TaskStatusCompleted \<and>
      auto_closed r' \<and> lt (task_UpdatedAt r) (now - closureGracePeriod) \<and>
      stale_request (closure_requests d) now (task_ID r))"
    using listed by (intro bexI [of _ r']) (auto split: if_splits)
qed

text \<open>One scan, row by row, whatever the number of parked tasks.\<close>

lemma scan_rows:
  fixes d json_time lt stamp now
  assumes "tasks_ok (db_tasks d)" and "[] \<notin> task_ID ` set (db_tasks d)"
  defines "d' \<equiv> fst (sqlite_scan json_time lt stamp now d)"
  shows "tasks_ok (db_tasks d')" and "map task_ID (db_tasks d') = map task_ID (db_tasks d)"
    and "\<And>r. r \<in> set (db_tasks d) \<Longrightarrow> \<exists>r' \<in> set (db_tasks d'). task_ID r' = task_ID r \<and>
      (if past_deadline now r \<and> r \<in> set (first_page d) then task_Status r' = TaskStatusQueued \<and> lease_free r'
       else r' = r \<or> task_Status r = TaskStatusCompleted \<and> auto_closed r' \<and>
         lt (task_UpdatedAt r) (now - closureGracePeriod) \<and> stale_request (closure_requests d) now (task_ID r))"
proof -
  define d1 where "d1 = requeue_all json_time lt stamp now
    (map scanSqliteTask (filter (past_deadline now) (first_page d))) d"
  note ts = requeue_phase [OF assms(1,2) refl, where now = now and json_time = json_time and lt = lt and stamp = stamp, folded d1_def]
  have scan: "d' = scanClosureGrace (Some (sqlite_repo lt)) (Some (sqlite_repo lt)) (Some (sqlite_msg_repo stamp)) now d1"
    by (simp add: scanOnce_def findExpired_page d1_def d'_def split: prod.split)
  have "task_ID ` set (db_tasks d1) = task_ID ` set (db_tasks d)" using ts(3) by (metis set_map)
  then have ids: "[] \<notin> task_ID ` set (db_tasks d1)" using assms(2) by simp
  note closed = closure_phase [OF ts(1) ids scan]
  show "tasks_ok (db_tasks d')" by (rule closed(1))
  show "map task_ID (db_tasks d') = map task_ID (db_tasks d)" using closed(2) ts(3) by simp
  fix r assume r: "r \<in> set (db_tasks d)"
  from ts(4) [OF r] obtain r1 where r1: "r1 \<in> set (db_tasks d1)" "task_ID r1 = task_ID r"
    "if past_deadline now r \<and> r \<in> set (first_page d)
     then task_Status r1 = TaskStatusQueued \<and> lease_free r1 else r1 = r" by blast
  from closed(3) [OF r1(1)] obtain r2 where r2: "r2 \<in> set (db_tasks d')" "task_ID r2 = task_ID r1"
    "r2 = r1 \<or> task_Status r1 = TaskStatusCompleted \<and> auto_closed r2 \<and>
      lt (task_UpdatedAt r1) (now - closureGracePeriod) \<and> stale_request (closure_requests d1) now (task_ID r1)" by blast
  with r1 show "\<exists>r' \<in> set (db_tasks d'). task_ID r' = task_ID r \<and>
      (if past_deadline now r \<and> r \<in> set (first_page d) then task_Status r' = TaskStatusQueued \<and> lease_free r'
       else r' = r \<or> task_Status r = TaskStatusCompleted \<and> auto_closed r' \<and>
         lt (task_UpdatedAt r) (now - closureGracePeriod) \<and> stale_request (closure_requests d) now (task_ID r))"
    by (intro bexI [OF _ r2(1)]) (auto simp: ts(2) split: if_splits)
qed

text \<open>
  \<^bold>\<open>C33.\<close> One scan of the monitor over the SQLite store, with at most a hundred parked tasks. No row
  is added or lost. Every parked task whose deadline has passed is queued again without a lease; a
  completed task is either left exactly as it was or closed by the system, the latter only if its row
  was not updated during the grace period and it holds a closure request at least fourteen days old;
  every other row is unchanged.
\<close>

theorem scan_resumes_and_closes:
  assumes "tasks_ok (db_tasks d)" and "[] \<notin> task_ID ` set (db_tasks d)"
    and "length (filter (\<lambda>r. task_Status r = TaskStatusAwaitingExternal) (db_tasks d)) \<le> 100"
  shows "tasks_ok (db_tasks (fst (sqlite_scan json_time lt stamp now d))) \<and>
    map task_ID (db_tasks (fst (sqlite_scan json_time lt stamp now d))) = map task_ID (db_tasks d) \<and>
    (\<forall>r \<in> set (db_tasks d). \<exists>r' \<in> set (db_tasks (fst (sqlite_scan json_time lt stamp now d))).
      task_ID r' = task_ID r \<and>
      (if past_deadline now r then task_Status r' = TaskStatusQueued \<and> lease_free r'
       else r' = r \<or> task_Status r = TaskStatusCompleted \<and> auto_closed r' \<and>
         lt (task_UpdatedAt r) (now - closureGracePeriod) \<and> stale_request (closure_requests d) now (task_ID r)))"
proof -
  have "past_deadline now r \<and> r \<in> set (first_page d) \<longleftrightarrow> past_deadline now r" if "r \<in> set (db_tasks d)" for r
    using that assms(3) by (auto simp: first_page_def length_select_desc past_deadline_def)
  with scan_rows [OF assms(1,2), where now = now and json_time = json_time and lt = lt and stamp = stamp] show ?thesis by simp
qed

definition parked_db :: db where
  "parked_db = demo_db\<lparr>db_tasks := [(demo_task ''t1'' TaskStatusAwaitingExternal)\<lparr>task_ExpectedBy := Some 5\<rparr>]\<rparr>"

theorem scan_resumes_and_closes_witness:
  "\<exists>r' \<in> set (db_tasks (fst (sqlite_scan (\<lambda>_. []) (<) (\<lambda>_. []) 10 parked_db))).
     task_ID r' = ''t1'' \<and> task_Status r' = TaskStatusQueued \<and> lease_free r'"
  using scan_resumes_and_closes [of parked_db "\<lambda>_. []" "(<)" "\<lambda>_. []" 10]
  by (simp add: parked_db_def demo_db_def demo_task_def zero_task_def tasks_ok_def idem_keys_def row_check_def
      creation_source_check_def delegation_mode_check_def past_deadline_def sqlNullTime_def)

text \<open>
  The hundred-row page starves old tasks. The scan lists the hundred \<^emph>\<open>newest\<close> parked tasks
  and filters by deadline afterwards; a parked task with a hundred newer parked tasks (whether or not
  those are due) stays parked, exactly as it was, however long its deadline has passed.
\<close>

theorem overdue_task_starved:
  assumes "tasks_ok (db_tasks d)" and "[] \<notin> task_ID ` set (db_tasks d)"
    and "r \<in> set (db_tasks d)" and "task_Status r = TaskStatusAwaitingExternal"
    and "100 \<le> length (filter (\<lambda>q. task_Status q = TaskStatusAwaitingExternal \<and>
      sqliteTime (task_CreatedAt r) < sqliteTime (task_CreatedAt q)) (db_tasks d))"
  shows "r \<in> set (db_tasks (fst (sqlite_scan json_time lt stamp now d)))"
proof -
  have "r \<notin> set (first_page d)"
    using select_desc_page [of r 100] assms(5) unfolding first_page_def by fastforce
  with scan_rows(3) [OF assms(1,2,3), where now = now and json_time = json_time and lt = lt and stamp = stamp] assms(4) show ?thesis by auto
qed

definition queue_row :: "nat \<Rightarrow> task" where
  "queue_row n = (demo_task (replicate (Suc n) (CHR ''a'')) TaskStatusAwaitingExternal)\<lparr>
     task_ExpectedBy := Some 5, task_CreatedAt := (if n = 0 then 5 else 9000000000)\<rparr>"

definition crowded_db :: db where
  "crowded_db = demo_db\<lparr>db_tasks := map queue_row [0..<101]\<rparr>"

lemma queue_row_frame [simp]:
  "task_ID (queue_row n) = replicate (Suc n) (CHR ''a'')" "task_Status (queue_row n) = TaskStatusAwaitingExternal"
  "task_CreatedAt (queue_row n) = (if n = 0 then 5 else 9000000000)" "task_IdempotencyKey (queue_row n) = None"
  "row_check (queue_row n)"
  by (simp_all add: queue_row_def demo_task_def zero_task_def row_check_def creation_source_check_def
      delegation_mode_check_def)

lemma crowded_db_ok: "tasks_ok (db_tasks crowded_db)"
proof -
  have "distinct (map task_ID (map queue_row [0..<101]))"
    by (auto simp: distinct_map inj_on_def dest: arg_cong [of _ _ length])
  moreover have "idem_keys (map queue_row ns) = []" for ns
    by (induction ns) (simp_all add: idem_keys_def)
  ultimately show ?thesis by (simp add: tasks_ok_def crowded_db_def list_all_iff)
qed

lemma crowded_db_newer:
  "100 \<le> length (filter (\<lambda>q. task_Status q = TaskStatusAwaitingExternal \<and>
     sqliteTime (task_CreatedAt (queue_row 0)) < sqliteTime (task_CreatedAt q)) (db_tasks crowded_db))"
proof -
  have "sqliteTime 5 < sqliteTime 9000000000" by (rule sqliteTime_gap_less) (simp add: Second_def)
  then have "filter (\<lambda>q. task_Status q = TaskStatusAwaitingExternal \<and>
      sqliteTime (task_CreatedAt (queue_row 0)) < sqliteTime (task_CreatedAt q)) (map queue_row ns) =
      map queue_row (filter (\<lambda>n. n \<noteq> 0) ns)" for ns
    by (induction ns) auto
  moreover have "[0..<101] = (0 :: nat) # [1..<101]" by (simp add: upt_conv_Cons)
  moreover have "filter (\<lambda>n. n \<noteq> 0) [1..<101] = ([1..<101] :: nat list)" by (simp add: filter_id_conv)
  ultimately show ?thesis by (simp add: crowded_db_def del: upt_conv_Cons)
qed

theorem overdue_task_starved_witness:
  "past_deadline 10 (queue_row 0) \<and>
   queue_row 0 \<in> set (db_tasks (fst (sqlite_scan (\<lambda>_. []) (<) (\<lambda>_. []) 10 crowded_db)))"
proof
  show "past_deadline 10 (queue_row 0)" by (simp add: past_deadline_def queue_row_def sqlNullTime_def demo_task_def)
  show "queue_row 0 \<in> set (db_tasks (fst (sqlite_scan (\<lambda>_. []) (<) (\<lambda>_. []) 10 crowded_db)))"
  proof (rule overdue_task_starved [OF crowded_db_ok _ _ _ crowded_db_newer])
    show "[] \<notin> task_ID ` set (db_tasks crowded_db)" by (simp add: crowded_db_def image_iff)
    show "queue_row 0 \<in> set (db_tasks crowded_db)" by (simp add: crowded_db_def)
  qed simp
qed

end
