(* ===== verification/GoStrings.thy ===== *)
theory GoStrings
  imports Prelude
begin

text \<open>
  The functions of Go's \<^verbatim>\<open>strings\<close> package the executor uses, over byte strings. White space and
  letter case are the ASCII ones; the further Unicode spaces \<open>TrimSpace\<close> strips and the non-ASCII
  letters \<open>ToLower\<close> maps are left alone.
\<close>

fun index_of :: "string \<Rightarrow> string \<Rightarrow> nat option" where
  "index_of sub [] = (if sub = [] then Some 0 else None)"
| "index_of sub (c # s) = (if take (length sub) (c # s) = sub then Some 0 else map_option Suc (index_of sub s))"

definition contains :: "string \<Rightarrow> string \<Rightarrow> bool" where
  "contains s sub \<longleftrightarrow> index_of sub s \<noteq> None"

definition containsAny :: "string \<Rightarrow> string list \<Rightarrow> bool" where
  "containsAny hay needles \<longleftrightarrow> list_ex (contains hay) needles"

text \<open>\<open>SplitN(s, sep, 2)\<close>\<close>

definition split_two :: "string \<Rightarrow> string \<Rightarrow> string list" where
  "split_two s sep = (case index_of sep s of None \<Rightarrow> [s] | Some i \<Rightarrow> [take i s, drop (i + length sep) s])"

lemma index_of_bound: "index_of sub s = Some i \<Longrightarrow> i + length sub \<le> length s"
  by (induction s arbitrary: i) (auto simp: take_eq_Nil split: if_splits dest!: arg_cong [of _ _ length])

text \<open>\<open>Split(s, sep)\<close>; with an empty separator it yields the single characters.\<close>

function split :: "string \<Rightarrow> string \<Rightarrow> string list" where
  "split s sep = (if sep = [] then map (\<lambda>c. [c]) s
     else (case index_of sep s of None \<Rightarrow> [s] | Some i \<Rightarrow> take i s # split (drop (i + length sep) s) sep))"
  by auto
termination
  by (relation "measure (\<lambda>(s, _). length s)") 
    (auto dest!: index_of_bound simp: length_greater_0_conv [symmetric] simp del: length_greater_0_conv)

declare split.simps [simp del]

fun join :: "string list \<Rightarrow> string \<Rightarrow> string" where
  "join [] sep = []"
| "join [x] sep = x"
| "join (x # y # xs) sep = x @ sep @ join (y # xs) sep"

definition is_space :: "char \<Rightarrow> bool" where
  "is_space c \<longleftrightarrow> (of_char c :: nat) \<in> {9, 10, 11, 12, 13, 32}"

definition TrimSpace :: "string \<Rightarrow> string" where
  "TrimSpace s = rev (dropWhile is_space (rev (dropWhile is_space s)))"

definition to_lower :: "char \<Rightarrow> char" where
  "to_lower c = (let n = of_char c :: nat in if 65 \<le> n \<and> n \<le> 90 then char_of (n + 32) else c)"

definition ToLower :: "string \<Rightarrow> string" where
  "ToLower s = map to_lower s"

section \<open>Searching and splitting\<close>

lemma index_of_fresh: "c \<notin> set s \<Longrightarrow> index_of (c # sub) s = None"
  by (induction s) auto

lemma index_of_first: "c \<notin> set a \<Longrightarrow> index_of (c # sub) (a @ (c # sub) @ r) = Some (length a)"
  by (induction a) auto

lemma contains_fresh: "c \<notin> set s \<Longrightarrow> \<not> contains s (c # sub)"
  by (simp add: contains_def index_of_fresh)

lemma contains_append: "contains (a @ sub @ r) sub"
proof (induction a)
  case Nil
  have "take (length sub) (sub @ r) = sub" by simp
  then show ?case by (cases "sub @ r") (auto simp: contains_def)
qed (auto simp: contains_def)

lemma contains_iff: "contains s sub \<longleftrightarrow> (\<exists>a r. s = a @ sub @ r)"
proof
  show "contains s sub \<Longrightarrow> \<exists>a r. s = a @ sub @ r"
  proof (induction s)
    case (Cons c s)
    show ?case
    proof (cases "take (length sub) (c # s) = sub")
      case True
      then have "c # s = [] @ sub @ drop (length sub) (c # s)" by (metis append_Nil append_take_drop_id)
      then show ?thesis by blast
    next
      case False
      with Cons obtain a r where "s = a @ sub @ r" by (auto simp: contains_def)
      then have "c # s = (c # a) @ sub @ r" by simp
      then show ?thesis by blast
    qed
  qed (auto simp: contains_def split: if_splits)
qed (auto simp: contains_append)

lemma contains_mono: "contains s sub \<Longrightarrow> contains (a @ s @ b) sub"
  unfolding contains_iff by (metis append_assoc)

lemma split_two_fresh: "c \<notin> set s \<Longrightarrow> split_two s (c # sub) = [s]"
  by (simp add: split_two_def index_of_fresh)

lemma split_two_first: "c \<notin> set a \<Longrightarrow> split_two (a @ (c # sub) @ r) (c # sub) = [a, r]"
  using index_of_first [of c a sub r] by (simp add: split_two_def)

lemma split_fresh: "c \<notin> set s \<Longrightarrow> split s (c # sub) = [s]"
  by (subst split.simps) (simp add: index_of_fresh)

lemma split_first: "c \<notin> set a \<Longrightarrow> split (a @ (c # sub) @ r) (c # sub) = a # split r (c # sub)"
  by (subst split.simps) (use index_of_first [of c a sub r] in simp)

lemma TrimSpace_id: "s = [] \<or> \<not> is_space (hd s) \<and> \<not> is_space (last s) \<Longrightarrow> TrimSpace s = s"
proof (cases "s = []")
  case False
  moreover assume "s = [] \<or> \<not> is_space (hd s) \<and> \<not> is_space (last s)"
  ultimately have ends: "\<not> is_space (hd s)" "\<not> is_space (hd (rev s))" by (simp_all add: hd_rev)
  have "dropWhile is_space x = x" if "\<not> is_space (hd x)" for x using that by (cases x) auto
  with ends show ?thesis by (simp add: TrimSpace_def)
qed (simp add: TrimSpace_def)

lemma TrimSpace_outer:
  assumes "list_all is_space a" and "list_all is_space b"
  shows "TrimSpace (a @ s @ b) = TrimSpace s"
proof -
  have drop: "dropWhile is_space (x @ y) = dropWhile is_space y" if "list_all is_space x" for x y
    using that by (induction x) auto
  show ?thesis
  proof (cases "list_all is_space s")
    case True
    then have "dropWhile is_space s = []" "dropWhile is_space b = []"
      using assms(2) unfolding list_all_iff dropWhile_eq_Nil_conv by blast+
    then show ?thesis by (simp only: TrimSpace_def drop [OF assms(1)] drop [OF True])
  next
    case False
    then have "dropWhile is_space (s @ b) = dropWhile is_space s @ b"
      by (auto simp: list_all_iff dropWhile_append)
    then show ?thesis using assms by (simp add: TrimSpace_def drop [of a] drop [of "rev b"] list_all_iff)
  qed
qed

end
