(* ===== verification/AgentCall.thy ===== *)
theory AgentCall
  imports GoStrings
begin

text \<open>
  The data an executor hands to an agent run and gets back from it: Go errors, swarm roles
  (\<^verbatim>\<open>src/internal/registry/swarm.go\<close>), the per-step agent input (\<open>agentInputOpts\<close> and
  \<open>RecoveryContext\<close> of \<^verbatim>\<open>src/internal/executor/plan.go\<close>) and one call of \<open>executeAgentStep\<close>.

  A Go error is its text together with what \<open>errors.Is\<close> and \<open>errors.As\<close> find in its chain; wrapping with
  \<open>%w\<close> changes the text and keeps the chain. Of the agent input the fields that only travel through to
  the container (permissions, response format and schema, trading blocks, canonical context) are kept as one
  opaque text.
\<close>

datatype wrapped =
    WrapsClass string
  | WrapsDeadline
  | WrapsCanceled
  | WrapsTerminalVerifier
  | WrapsRecoverableVerifier "string list"
  | WrapsLeadHandoff
  | WrapsPaused

record step_err =
  se_msg :: string
  se_retryable :: bool
  se_chain :: "wrapped list"

definition wrap_err :: "string \<Rightarrow> string \<Rightarrow> step_err \<Rightarrow> step_err" where
  "wrap_err a b e = e\<lparr>se_msg := a @ se_msg e @ b\<rparr>"

text \<open>\<open>fmt.Errorf\<close> without \<open>%w\<close>.\<close>

definition plain_err :: "string \<Rightarrow> step_err" where
  "plain_err m = \<lparr>se_msg = m, se_retryable = False, se_chain = []\<rparr>"

lemma plain_err_simps [simp]:
  "se_msg (plain_err m) = m" "se_chain (plain_err m) = []" "se_retryable (plain_err m) = False"
  by (simp_all add: plain_err_def)

lemma wrap_err_simps [simp]:
  "se_msg (wrap_err a b e) = a @ se_msg e @ b" "se_chain (wrap_err a b e) = se_chain e"
  "se_retryable (wrap_err a b e) = se_retryable e"
  by (simp_all add: wrap_err_def)

definition isTerminalVerifierError :: "step_err \<Rightarrow> bool" where
  "isTerminalVerifierError e \<longleftrightarrow> WrapsTerminalVerifier \<in> set (se_chain e)"

definition IsLeadHandoff :: "step_err \<Rightarrow> bool" where
  "IsLeadHandoff e \<longleftrightarrow> WrapsLeadHandoff \<in> set (se_chain e)"

fun blocked_urls :: "wrapped list \<Rightarrow> string list option" where
  "blocked_urls [] = None"
| "blocked_urls (WrapsRecoverableVerifier urls # ws) = Some urls"
| "blocked_urls (_ # ws) = blocked_urls ws"

type_synonym step_result = "string \<times> string \<times> step_err option"

record swarm_role =
  sr_Name :: string
  sr_Model :: string
  sr_ModelFallback :: string
  sr_SchemaPrompt :: string
  sr_ShapeRetryHint :: string
  sr_RuntimePolicy :: string
  sr_MaxToolIterations :: string

type_synonym artifact = "(string \<times> string) list"

record recovery_context =
  rc_FailedStep :: string
  rc_FailureClass :: string
  rc_FailureReason :: string
  rc_BlockedURLs :: "string list"
  rc_LearnedRemediations :: "string list"

record agent_opts =
  ao_StepPrompt :: string
  ao_ShapeRetryHint :: string
  ao_SystemPrompt :: string
  ao_InputArtifacts :: "artifact list"
  ao_PreviousResult :: string
  ao_AdaptiveCandidateWorkflows :: "string list"
  ao_RecoveryContext :: "recovery_context option"
  ao_ComplexityTier :: string
  ao_Passthrough :: string

definition no_opts :: agent_opts where
  "no_opts = \<lparr>ao_StepPrompt = [], ao_ShapeRetryHint = [], ao_SystemPrompt = [], ao_InputArtifacts = [],
     ao_PreviousResult = [], ao_AdaptiveCandidateWorkflows = [], ao_RecoveryContext = None,
     ao_ComplexityTier = [], ao_Passthrough = []\<rparr>"

record step_call =
  call_stepID :: string
  call_role :: string
  call_roles :: "swarm_role list"
  call_timeout :: nanos
  call_opts :: agent_opts

end
