(* ===== verification/FailureClass.thy ===== *)
theory FailureClass
  imports AgentCall TaskModel
begin

text \<open>
  The classifier that turns an execution error into the typed failure class stored on task and execution rows
  (\<^verbatim>\<open>src/internal/executor/failure_classifier.go\<close>) and its mapping to the recovery playbook
  (\<^verbatim>\<open>src/internal/executor/recovery_class.go\<close>).
\<close>

section \<open>The classes\<close>

definition TaskFailureClassLLMError :: string where "TaskFailureClassLLMError = ''LLM_ERROR''"
definition TaskFailureClassTimeout :: string where "TaskFailureClassTimeout = ''TIMEOUT''"
definition TaskFailureClassToolError :: string where "TaskFailureClassToolError = ''TOOL_ERROR''"
definition TaskFailureClassInvalidOutput :: string where "TaskFailureClassInvalidOutput = ''INVALID_OUTPUT''"
definition TaskFailureClassMergeFailed :: string where "TaskFailureClassMergeFailed = ''MERGE_FAILED''"
definition TaskFailureClassGateFailed :: string where "TaskFailureClassGateFailed = ''GATE_FAILED''"
definition TaskFailureClassBudgetBlocked :: string where "TaskFailureClassBudgetBlocked = ''BUDGET_BLOCKED''"
definition TaskFailureClassRateLimited :: string where "TaskFailureClassRateLimited = ''RATE_LIMITED''"
definition TaskFailureClassWorkflowRole :: string where "TaskFailureClassWorkflowRole = ''WORKFLOW_ROLE_MISSING''"
definition TaskFailureClassWorkflowCfg :: string where "TaskFailureClassWorkflowCfg = ''WORKFLOW_CONFIG_ERROR''"
definition TaskFailureClassOrphaned :: string where "TaskFailureClassOrphaned = ''ORPHANED''"
definition TaskFailureClassCancelled :: string where "TaskFailureClassCancelled = ''CANCELLED''"
definition TaskFailureClassUnknown :: string where "TaskFailureClassUnknown = ''UNKNOWN''"
definition TaskFailureClassToolIterationLimit :: string where "TaskFailureClassToolIterationLimit = ''TOOL_ITERATION_LIMIT''"
definition TaskFailureClassSecretLeak :: string where "TaskFailureClassSecretLeak = ''SECRET_LEAK''"
definition TaskFailureClassInvalidOutputLoop :: string where "TaskFailureClassInvalidOutputLoop = ''INVALID_OUTPUT_LOOP''"
definition TaskFailureClassHallucinatedPlacement :: string where
  "TaskFailureClassHallucinatedPlacement = ''HALLUCINATED_PLACEMENT''"

lemmas failure_class_defs = TaskFailureClassLLMError_def TaskFailureClassTimeout_def TaskFailureClassToolError_def
  TaskFailureClassInvalidOutput_def TaskFailureClassMergeFailed_def TaskFailureClassGateFailed_def
  TaskFailureClassBudgetBlocked_def TaskFailureClassRateLimited_def TaskFailureClassWorkflowRole_def
  TaskFailureClassWorkflowCfg_def TaskFailureClassOrphaned_def TaskFailureClassCancelled_def
  TaskFailureClassUnknown_def TaskFailureClassLeaseExpired_def TaskFailureClassToolIterationLimit_def
  TaskFailureClassSecretLeak_def TaskFailureClassInvalidOutputLoop_def TaskFailureClassHallucinatedPlacement_def

section \<open>The classifier\<close>

text \<open>\<open>errors.As\<close> for the \<open>FailureClass()\<close> interface: the first error of the chain that has the method.\<close>

fun typed_class :: "wrapped list \<Rightarrow> string option" where
  "typed_class [] = None"
| "typed_class (WrapsClass c # ws) = Some c"
| "typed_class (_ # ws) = typed_class ws"

definition classify_text :: "string \<Rightarrow> string" where
  "classify_text lowered = (
     if containsAny lowered [''hallucinated placement''] then TaskFailureClassHallucinatedPlacement
     else if containsAny lowered [''secret_leak'', ''secret leak''] then TaskFailureClassSecretLeak
     else if containsAny lowered [''tool iteration limit'', ''tool iteration cap''] then TaskFailureClassToolIterationLimit
     else if containsAny lowered [''merge'', ''worktree''] \<and> containsAny lowered [''fail'', ''could not'']
     then TaskFailureClassMergeFailed
     else if containsAny lowered [''gate '', ''gate_failed'', ''condition'', ''gate did not pass''] then TaskFailureClassGateFailed
     else if containsAny lowered [''shape retry loop cap hit''] then TaskFailureClassInvalidOutputLoop
     else if containsAny lowered [''invalid json'', ''parse'', ''unmarshal'', ''schema violation'', ''could not parse'',
               ''plausibility violation''] then TaskFailureClassInvalidOutput
     else if containsAny lowered [''role '', '' researcher'', ''not present in swarm'', ''workflow role'']
     then TaskFailureClassWorkflowRole
     else if containsAny lowered [''workflow not found'', ''step .* not found'', ''workflow configuration'']
     then TaskFailureClassWorkflowCfg
     else if containsAny lowered [''chat provider'', ''llm'', ''anthropic'', ''openai'', ''gateway'', ''upstream'',
               ''502 bad gateway'', ''503 service'', ''stream closed''] then TaskFailureClassLLMError
     else if containsAny lowered [''rate limit'', ''too many requests'', ''429''] then TaskFailureClassRateLimited
     else if containsAny lowered [''budget'', ''spend cap'', ''over budget''] then TaskFailureClassBudgetBlocked
     else if containsAny lowered [''lease expired'', ''lease recovery''] then TaskFailureClassLeaseExpired
     else if containsAny lowered [''orphaned execution''] then TaskFailureClassOrphaned
     else if containsAny lowered [''tool '', ''shell'', ''exec'', ''podman'', ''container'', ''runtime'']
     then TaskFailureClassToolError
     else if containsAny lowered [''cancelled'', ''canceled''] then TaskFailureClassCancelled
     else if containsAny lowered [''timeout'', ''timed out'', ''deadline''] then TaskFailureClassTimeout
     else TaskFailureClassUnknown)"

definition classify_chain :: "wrapped list \<Rightarrow> string option" where
  "classify_chain ws = (case typed_class ws of
       Some (c # cs) \<Rightarrow> Some (c # cs)
     | _ \<Rightarrow> if WrapsDeadline \<in> set ws then Some TaskFailureClassTimeout
           else if WrapsCanceled \<in> set ws then Some TaskFailureClassCancelled else None)"

definition ClassifyExecutionFailure :: "step_err option \<Rightarrow> string \<Rightarrow> string" where
  "ClassifyExecutionFailure err hint =
     (if err = None \<and> hint = [] then []
      else (let msg = (case err of Some e \<Rightarrow> se_msg e | None \<Rightarrow> []);
                body = (if hint \<noteq> [] then hint @ ''\<newline>'' @ msg else msg)
            in case classify_chain (case err of Some e \<Rightarrow> se_chain e | None \<Rightarrow> []) of
                 Some c \<Rightarrow> c
               | None \<Rightarrow> classify_text (ToLower body)))"

definition recoveryFailureClass :: "string \<Rightarrow> string" where
  "recoveryFailureClass execClass =
     (if execClass = TaskFailureClassBudgetBlocked then ''budget_exhausted''
      else if execClass = TaskFailureClassHallucinatedPlacement then ''hallucination_flagged''
      else if execClass = TaskFailureClassToolError then ''tool_error'' else ''agent_error'')"

section \<open>Properties\<close>

lemma contains_set: "contains s sub \<Longrightarrow> set sub \<subseteq> set s"
  by (auto simp: contains_iff)

lemma to_lower_star: "to_lower c = CHR ''*'' \<Longrightarrow> c = CHR ''*''"
proof -
  assume a: "to_lower c = CHR ''*''"
  show "c = CHR ''*''"
  proof (cases "65 \<le> (of_char c :: nat) \<and> (of_char c :: nat) \<le> 90")
    case True
    then have "to_lower c = char_of (of_char c + 32 :: nat)" by (simp add: to_lower_def Let_def)
    then have "(of_char (to_lower c) :: nat) = of_char c + 32" using True by (simp add: of_char_of)
    with a True show ?thesis by simp
  qed (use a in \<open>auto simp: to_lower_def Let_def split: if_splits\<close>)
qed

lemma ToLower_star: "CHR ''*'' \<notin> set s \<Longrightarrow> CHR ''*'' \<notin> set (ToLower s)"
  by (metis (no_types, lifting) ToLower_def imageE list.set_map to_lower_star)

lemma classify_text_cfg:
  assumes "classify_text t = TaskFailureClassWorkflowCfg" and "CHR ''*'' \<notin> set t"
  shows "contains t ''workflow not found'' \<or> contains t ''workflow configuration''"
proof -
  have "\<not> contains t ''step .* not found''" using contains_set [of t "''step .* not found''"] assms(2) by auto
  moreover have "containsAny t [''workflow not found'', ''step .* not found'', ''workflow configuration'']"
    using assms(1) by (auto simp: classify_text_def failure_class_defs split: if_splits)
  ultimately show ?thesis by (auto simp: containsAny_def)
qed

text \<open>The message with which the workflow engine reports a step its definition lacks.\<close>

definition missing_step_msg :: "string \<Rightarrow> string" where
  "missing_step_msg stepID = ''workflow step '' @ stepID @ '' not found''"

text \<open>
  What an error knows about itself decides its class, whatever its text and however it is
  wrapped: a non-empty typed class first, then an exceeded deadline, then a cancellation. Text decides the
  rest, and there the pattern \<open>step .* not found\<close> is searched literally: a message without an asterisk is
  WORKFLOW_CONFIG_ERROR only if it says ``workflow not found'' or ``workflow configuration'', so the
  engine's own report of a missing step is UNKNOWN.
\<close>

theorem classification_precedence:
  fixes e :: step_err
  defines "cls \<equiv> \<lambda>a b hint. ClassifyExecutionFailure (Some (wrap_err a b e)) hint"
  assumes unmarked: "CHR ''*'' \<notin> set (se_msg e)"
  shows "(\<forall>c. classify_chain (se_chain e) = Some c \<longrightarrow> cls a b hint = c)
       \<and> (WrapsDeadline \<in> set (se_chain e) \<and> typed_class (se_chain e) = None \<longrightarrow> cls a b hint = TaskFailureClassTimeout)
       \<and> (classify_chain (se_chain e) = None \<and> cls [] [] [] = TaskFailureClassWorkflowCfg
            \<longrightarrow> contains (ToLower (se_msg e)) ''workflow not found'' \<or> contains (ToLower (se_msg e)) ''workflow configuration'')
       \<and> ClassifyExecutionFailure (Some (plain_err (missing_step_msg ''build''))) [] = TaskFailureClassUnknown"
proof -
  have "classify_chain (se_chain e) = Some c \<longrightarrow> cls a b hint = c" for c
    by (simp add: cls_def ClassifyExecutionFailure_def Let_def)
  moreover have "WrapsDeadline \<in> set (se_chain e) \<and> typed_class (se_chain e) = None \<longrightarrow> cls a b hint = TaskFailureClassTimeout"
    by (simp add: cls_def ClassifyExecutionFailure_def classify_chain_def Let_def)
  moreover have "classify_chain (se_chain e) = None \<and> cls [] [] [] = TaskFailureClassWorkflowCfg
            \<longrightarrow> contains (ToLower (se_msg e)) ''workflow not found'' \<or> contains (ToLower (se_msg e)) ''workflow configuration''"
    using classify_text_cfg [OF _ ToLower_star [OF unmarked]]
    by (auto simp: cls_def ClassifyExecutionFailure_def Let_def)
  moreover have "ClassifyExecutionFailure (Some (plain_err (missing_step_msg ''build''))) [] = TaskFailureClassUnknown"
    by code_simp
  ultimately show ?thesis by blast
qed

theorem classification_precedence_witness:
  "ClassifyExecutionFailure (Some (wrap_err ''merge failed: '' [] \<lparr>se_msg = ''context canceled'', se_retryable = False,
     se_chain = [WrapsCanceled]\<rparr>)) [] = TaskFailureClassCancelled"
proof -
  let ?e = "\<lparr>se_msg = ''context canceled'', se_retryable = False, se_chain = [WrapsCanceled]\<rparr>"
  have "CHR ''*'' \<notin> set (se_msg ?e)" by simp
  moreover have "classify_chain (se_chain ?e) = Some TaskFailureClassCancelled" by (simp add: classify_chain_def)
  ultimately show ?thesis using classification_precedence [of ?e] by blast
qed

end
