(* ===== verification/ParentWake.thy ===== *)
theory ParentWake
  imports Scheduler FailureClass
begin

text \<open>
  How a task that waits for its delegated children is woken
  (\<^verbatim>\<open>src/internal/executor/workflow.go\<close>: \<open>checkParentUnblock\<close>, \<open>unblockParentIfChildrenDone\<close>,
  \<open>NotifyChildTerminal\<close>; the startup sweep of \<^verbatim>\<open>src/internal/executor/executor.go\<close>). Every child's
  finaliser runs it, so a wake is modelled as the code performs it: a read of the parent and its children, a
  decision, and a conditional write. Logging is left out.
\<close>

section \<open>Definitions\<close>

definition TaskFailureClassChildFailed :: string where
  "TaskFailureClassChildFailed = ''CHILD_FAILED''"

definition child_done :: "task \<Rightarrow> bool" where
  "child_done c \<longleftrightarrow> task_Status c \<in> {TaskStatusCompleted, TaskStatusFailed, TaskStatusCancelled, TaskStatusClosed}"

definition failedChildIDs :: "task list \<Rightarrow> string list" where
  "failedChildIDs children = map task_ID (filter (\<lambda>c. task_Status c = TaskStatusFailed) children)"

definition child_failed_opts :: "task list \<Rightarrow> transition_opts" where
  "child_failed_opts children = no_transition_opts\<lparr>
     to_LastError := Some (''child task(s) failed: ['' @ join (failedChildIDs children) '' '' @ '']''),
     to_LastErrorClass := Some TaskFailureClassChildFailed\<rparr>"

text \<open>The status and options of the conditional write, or nothing when the parent must keep waiting.\<close>

definition wake_decision :: "task \<Rightarrow> task list \<Rightarrow> (task_status \<times> transition_opts) option" where
  "wake_decision parent children =
     (if children = [] \<or> \<not> list_all child_done children then None
      else if failedChildIDs children \<noteq> [] then
        (if task_MaxAttempts parent > 0 \<and> task_Attempt parent < task_MaxAttempts parent
         then Some (TaskStatusQueued, (child_failed_opts children)\<lparr>to_Attempt := task_Attempt parent + 1\<rparr>)
         else Some (TaskStatusFailed, child_failed_opts children))
      else Some (TaskStatusQueued, no_transition_opts))"

definition unblock_read :: "'s task_repo \<Rightarrow> string \<Rightarrow> 's \<Rightarrow> (task \<times> task list) option" where
  "unblock_read R parentID s = (case tr_Get R parentID s of
       Inl _ \<Rightarrow> None
     | Inr parent \<Rightarrow>
         if task_Status parent \<noteq> TaskStatusWaitingForChildren then None
         else (case tr_GetChildren R (task_ID parent) s of
                 Inl _ \<Rightarrow> None
               | Inr children \<Rightarrow> Some (parent, children)))"

definition unblock_write ::
  "'s task_repo \<Rightarrow> string \<Rightarrow> task_status \<times> transition_opts \<Rightarrow> 's \<Rightarrow> 's" where
  "unblock_write R parentID decision s =
     snd (tr_TransitionConditional R parentID [TaskStatusWaitingForChildren] (fst decision) (snd decision) s)"

definition unblockParentIfChildrenDone :: "'s task_repo \<Rightarrow> string \<Rightarrow> 's \<Rightarrow> 's" where
  "unblockParentIfChildrenDone R parentID s =
     (case unblock_read R parentID s of
        None \<Rightarrow> s
      | Some (parent, children) \<Rightarrow>
          (case wake_decision parent children of
             None \<Rightarrow> s
           | Some decision \<Rightarrow> unblock_write R (task_ID parent) decision s))"

definition checkParentUnblock :: "'s task_repo \<Rightarrow> string option \<Rightarrow> 's \<Rightarrow> 's" where
  "checkParentUnblock R parentTaskID s = (case parentTaskID of
       None \<Rightarrow> s
     | Some p \<Rightarrow> if p = [] then s else unblockParentIfChildrenDone R p s)"

definition NotifyChildTerminal :: "'s task_repo \<Rightarrow> string \<Rightarrow> 's \<Rightarrow> 's" where
  "NotifyChildTerminal R childTaskID s =
     (if childTaskID = [] then s
      else (case tr_Get R childTaskID s of
              Inl _ \<Rightarrow> s
            | Inr child \<Rightarrow> checkParentUnblock R (task_ParentTaskID child) s))"

definition waiting_filter :: task_filter where
  "waiting_filter = \<lparr>tf_ProjectID = None, tf_Status = Some TaskStatusWaitingForChildren, tf_UpdatedBefore = None,
     tf_PageSize = 500, tf_Offset = 0\<rparr>"

definition sweepStuckWaitingForChildren :: "'s task_repo \<Rightarrow> 's \<Rightarrow> 's" where
  "sweepStuckWaitingForChildren R s = (case tr_List R waiting_filter s of
       Inl _ \<Rightarrow> s
     | Inr stuck \<Rightarrow> fold (\<lambda>parent. checkParentUnblock R (Some (task_ID parent))) stuck s)"

section \<open>On the SQLite repository\<close>

abbreviation children_of :: "string \<Rightarrow> task list \<Rightarrow> task list" where
  "children_of i ts \<equiv> filter (\<lambda>t. task_ParentTaskID t = Some i) ts"

definition all_children_done :: "string \<Rightarrow> task list \<Rightarrow> bool" where
  "all_children_done i ts \<longleftrightarrow> children_of i ts \<noteq> [] \<and> list_all child_done (children_of i ts)"

definition woken_row :: "task_status \<times> transition_opts \<Rightarrow> nanos \<Rightarrow> task \<Rightarrow> task" where
  "woken_row decision now t = apply_transition_opts now (snd decision) (t\<lparr>task_Status := fst decision\<rparr>)"

definition waiting_row :: "string \<Rightarrow> task \<Rightarrow> bool" where
  "waiting_row i t \<longleftrightarrow> task_Status t = TaskStatusWaitingForChildren \<and> task_ID t = i"

lemma wake_decision_status:
  "wake_decision p cs = Some w \<Longrightarrow> fst w = TaskStatusQueued \<or> fst w = TaskStatusFailed"
  by (auto simp: wake_decision_def split: if_splits)

lemma wake_decision_scan [simp]: "wake_decision (scanSqliteTask t) cs = wake_decision t cs"
  by (simp add: wake_decision_def)

lemma unblock_write_sqlite:
  assumes "i \<noteq> []" and "fst w = TaskStatusQueued \<or> fst w = TaskStatusFailed"
  shows "unblock_write (sqlite_repo lt) i w d
       = d\<lparr>db_tasks := sql_update (waiting_row i) (woken_row w (db_now d)) (db_tasks d)\<rparr>"
proof -
  have "declared_status (fst w)" using assms(2) by (auto simp: declared_status_def)
  moreover have "fst w \<noteq> TaskStatusOther []" using assms(2) by auto
  moreover have "(\<lambda>t. task_Status t \<in> set [TaskStatusWaitingForChildren] \<and> task_ID t = i) = waiting_row i"
    by (auto simp: waiting_row_def)
  moreover have "(\<lambda>t. apply_transition_opts (db_now d) (snd w) (t\<lparr>task_Status := fst w\<rparr>)) = woken_row w (db_now d)"
    by (simp add: woken_row_def fun_eq_iff)
  ultimately show ?thesis using assms(1)
    by (simp add: unblock_write_def sqlite_repo_def TransitionConditional_def update_status_where_def Let_def)
qed

lemma woken_row_frame [simp]:
  "task_ID (woken_row w now t) = task_ID t" "task_Status (woken_row w now t) = fst w"
  by (simp_all add: woken_row_def)

lemma woken_row_ParentTaskID [simp]: "task_ParentTaskID (woken_row w now t) = task_ParentTaskID t"
  by (simp add: woken_row_def apply_transition_opts_def Let_def clear_lease_def split: option.split)

lemma woken_not_waiting:
  assumes "t \<in> set (sql_update (waiting_row i) (woken_row w now) ts)"
    and "fst w = TaskStatusQueued \<or> fst w = TaskStatusFailed"
  shows "\<not> waiting_row i t"
proof -
  from assms(1) consider "\<not> waiting_row i t" | r0 where "t = woken_row w now r0" unfolding in_set_sql_update by blast
  then show ?thesis using assms(2) by cases (auto simp: waiting_row_def)
qed

lemma db_tasks_collapse: "db_tasks d = ts \<Longrightarrow> d\<lparr>db_tasks := ts\<rparr> = d" by auto

lemma unblock_write_loses:
  assumes "i \<noteq> []" and "fst w = TaskStatusQueued \<or> fst w = TaskStatusFailed"
    and "\<And>t. t \<in> set (db_tasks d) \<Longrightarrow> \<not> waiting_row i t"
  shows "unblock_write (sqlite_repo lt) i w d = d"
  by (simp add: unblock_write_sqlite [OF assms(1,2)] sql_update_id assms(3) db_tasks_collapse)

lemma unblock_writes_lose:
  assumes "i \<noteq> []" and "\<And>w. w \<in> set ws \<Longrightarrow> fst w = TaskStatusQueued \<or> fst w = TaskStatusFailed"
    and "\<And>t. t \<in> set (db_tasks d) \<Longrightarrow> \<not> waiting_row i t"
  shows "fold (unblock_write (sqlite_repo lt) i) ws d = d"
  using assms(2) by (induction ws) (simp_all add: unblock_write_loses [OF assms(1) _ assms(3)])

lemma filter_unique_key:
  "distinct (map k ts) \<Longrightarrow> t \<in> set ts \<Longrightarrow> filter (\<lambda>r. k r = k t) ts = [t]"
proof (induction ts)
  case (Cons a ts)
  show ?case
  proof (cases "a = t")
    case True
    then have "filter (\<lambda>r. k r = k t) ts = []" using Cons.prems by (auto simp: filter_empty_conv) (metis image_eqI)
    with True show ?thesis by simp
  next
    case False
    with Cons.prems have "t \<in> set ts" "k a \<noteq> k t" by auto
    with Cons show ?thesis by simp
  qed
qed simp

lemma unblock_read_sqlite:
  assumes "tasks_ok (db_tasks d)" and "r \<in> set (db_tasks d)"
  shows "unblock_read (sqlite_repo lt) (task_ID r) d =
     (if task_Status r = TaskStatusWaitingForChildren then Some (scanSqliteTask r, GetChildren (task_ID r) d) else None)"
proof -
  have "tr_Get (sqlite_repo lt) (task_ID r) d = Inr (scanSqliteTask r)"
    using filter_unique_key [OF tasks_ok_distinct [OF assms(1)] assms(2)]
    by (simp add: sqlite_repo_def Get_def scan_one_def query_row_def)
  then show ?thesis by (simp add: unblock_read_def sqlite_repo_def)
qed

lemma children_facts:
  "GetChildren i d = [] \<longleftrightarrow> children_of i (db_tasks d) = []"
  "list_all child_done (GetChildren i d) \<longleftrightarrow> list_all child_done (children_of i (db_tasks d))"
  "failedChildIDs (GetChildren i d) \<noteq> [] \<longleftrightarrow> list_ex (\<lambda>c. task_Status c = TaskStatusFailed) (children_of i (db_tasks d))"
  by (auto simp: GetChildren_def failedChildIDs_def child_done_def list_all_iff list_ex_iff select_asc_empty
      filter_empty_conv)

lemma wake_decision_None: "wake_decision p cs = None \<longleftrightarrow> cs = [] \<or> \<not> list_all child_done cs"
  by (simp add: wake_decision_def)

lemma wake_decision_exists:
  assumes "all_children_done i (db_tasks d)"
  obtains w where "wake_decision r (GetChildren i d) = Some w"
  using assms wake_decision_None [of r "GetChildren i d"]
  by (cases "wake_decision r (GetChildren i d)") (auto simp: all_children_done_def children_facts)

text \<open>One wake, atomically, in every branch.\<close>

lemma unblock_sqlite:
  assumes "tasks_ok (db_tasks d)" and "r \<in> set (db_tasks d)" and "task_ID r \<noteq> []"
  shows "unblockParentIfChildrenDone (sqlite_repo lt) (task_ID r) d =
     (if task_Status r = TaskStatusWaitingForChildren \<and> all_children_done (task_ID r) (db_tasks d)
      then d\<lparr>db_tasks := sql_update (waiting_row (task_ID r))
               (woken_row (the (wake_decision r (GetChildren (task_ID r) d))) (db_now d)) (db_tasks d)\<rparr>
      else d)"
proof (cases "task_Status r = TaskStatusWaitingForChildren \<and> all_children_done (task_ID r) (db_tasks d)")
  case True
  then obtain w where w: "wake_decision r (GetChildren (task_ID r) d) = Some w"
    using wake_decision_exists by blast
  from unblock_write_sqlite [OF assms(3) wake_decision_status [OF w]] w True show ?thesis
    by (simp add: unblockParentIfChildrenDone_def unblock_read_sqlite [OF assms(1,2)])
next
  case False
  then have "task_Status r = TaskStatusWaitingForChildren \<Longrightarrow> wake_decision r (GetChildren (task_ID r) d) = None"
    by (auto simp: wake_decision_def all_children_done_def children_facts)
  with False show ?thesis
    by (auto simp: unblockParentIfChildrenDone_def unblock_read_sqlite [OF assms(1,2)])
qed

section \<open>Concurrent finalisers\<close>

lemma wake_attempt:
  assumes "wake_decision r cs = Some w" and "0 \<le> task_Attempt r"
  shows "task_Attempt (woken_row w now r) =
     (if failedChildIDs cs \<noteq> [] \<and> 0 < task_MaxAttempts r \<and> task_Attempt r < task_MaxAttempts r
      then task_Attempt r + 1 else task_Attempt r)"
  using assms by (auto simp: wake_decision_def woken_row_def apply_transition_opts_def child_failed_opts_def
      no_transition_opts_def Let_def split: if_splits)

text \<open>
  \<^bold>\<open>C19.\<close> Exactly one of the finalisers that race to wake a parent wins. However many of them read the
  waiting parent and found its children done, and whatever children each of them saw, the conditional writes
  that follow have the effect of the first alone: the parent leaves WAITING_FOR_CHILDREN for QUEUED or FAILED,
  its attempt counter grows by at most one and never past its maximum, and no other row changes.
\<close>

theorem parent_woken_once:
  assumes "tasks_ok (db_tasks d)" and "r \<in> set (db_tasks d)" and "task_ID r \<noteq> []"
    and "task_Status r = TaskStatusWaitingForChildren" and "0 \<le> task_Attempt r"
    and "list_all (\<lambda>w. \<exists>cs. wake_decision r cs = Some w) (w # ws)"
  shows "fold (unblock_write (sqlite_repo lt) (task_ID r)) (w # ws) d = unblock_write (sqlite_repo lt) (task_ID r) w d
       \<and> (\<exists>r'. db_tasks (unblock_write (sqlite_repo lt) (task_ID r) w d)
                 = sql_update (\<lambda>t. t = r) (\<lambda>_. r') (db_tasks d)
             \<and> task_ID r' = task_ID r \<and> (task_Status r' = TaskStatusQueued \<or> task_Status r' = TaskStatusFailed)
             \<and> task_Attempt r \<le> task_Attempt r' \<and> task_Attempt r' \<le> max (task_Attempt r) (min (task_Attempt r + 1) (task_MaxAttempts r)))"
proof -
  have st: "fst v = TaskStatusQueued \<or> fst v = TaskStatusFailed" if "v \<in> set (w # ws)" for v
    using assms(6) that wake_decision_status unfolding list_all_iff by blast
  have eq: "waiting_row (task_ID r) t \<longleftrightarrow> t = r" if "t \<in> set (db_tasks d)" for t
    using tasks_ok_unique [OF assms(1) that assms(2)] assms(4) by (auto simp: waiting_row_def)
  let ?d = "unblock_write (sqlite_repo lt) (task_ID r) w d"
  have d: "?d = d\<lparr>db_tasks := sql_update (waiting_row (task_ID r)) (woken_row w (db_now d)) (db_tasks d)\<rparr>"
    by (rule unblock_write_sqlite [OF assms(3) st]) simp
  have gone: "\<not> waiting_row (task_ID r) t" if "t \<in> set (db_tasks ?d)" for t
    using woken_not_waiting [OF _ st, of t "task_ID r" w] that by (simp add: d)
  have "fold (unblock_write (sqlite_repo lt) (task_ID r)) ws ?d = ?d"
    by (rule unblock_writes_lose [OF assms(3) st gone]) simp_all
  moreover have "db_tasks ?d = sql_update (\<lambda>t. t = r) (\<lambda>_. woken_row w (db_now d) r) (db_tasks d)"
    by (auto simp: d sql_update_def eq intro!: map_cong)
  moreover from assms(6) obtain cs where "wake_decision r cs = Some w" by auto
  then have "task_Attempt r \<le> task_Attempt (woken_row w (db_now d) r)
      \<and> task_Attempt (woken_row w (db_now d) r) \<le> max (task_Attempt r) (min (task_Attempt r + 1) (task_MaxAttempts r))"
    using wake_attempt [OF _ assms(5), of cs w "db_now d"] by auto
  ultimately show ?thesis using st [of w] by (intro conjI exI [of _ "woken_row w (db_now d) r"]) auto
qed

definition wake_parent :: task where
  "wake_parent = zero_task\<lparr>task_ID := ''parent'', task_ProjectID := ''p'', task_Status := TaskStatusWaitingForChildren, task_CreationSource := TaskCreationSourceUser,
     task_MaxAttempts := 3, task_LeaseID := Some ''lease'', task_LeasedAt := Some 0, task_LeasedBy := Some ''w'',
     task_LeaseExpiresAt := Some Hour\<rparr>"

definition wake_child :: task where
  "wake_child = zero_task\<lparr>task_ID := ''child'', task_ProjectID := ''p'', task_Status := TaskStatusCompleted, task_CreationSource := TaskCreationSourceDelegation,
     task_ParentTaskID := Some ''parent''\<rparr>"

definition wake_db :: db where
  "wake_db = \<lparr>db_tasks = [wake_parent, wake_child], db_messages = [], db_now = Minute, db_rand = []\<rparr>"

lemma wake_db_facts:
  "tasks_ok (db_tasks wake_db)" "wake_parent \<in> set (db_tasks wake_db)" "task_ID wake_parent \<noteq> []"
  "task_Status wake_parent = TaskStatusWaitingForChildren" "0 \<le> task_Attempt wake_parent"
  "task_LeaseID wake_parent = Some ''lease''"
  "all_children_done (task_ID wake_parent) (db_tasks wake_db)"
  by (simp_all add: tasks_ok_def wake_db_def wake_parent_def wake_child_def zero_task_def idem_keys_def row_check_def
      declared_status_def creation_source_check_def delegation_mode_check_def all_children_done_def child_done_def)

theorem parent_woken_once_witness:
  "\<exists>w. fold (unblock_write (sqlite_repo (<)) ''parent'') [w, w, w] wake_db = unblock_write (sqlite_repo (<)) ''parent'' w wake_db
     \<and> wake_decision wake_parent [wake_child] = Some w"
proof -
  obtain w where w: "wake_decision wake_parent [wake_child] = Some w"
    using wake_decision_None [of wake_parent "[wake_child]"]
    by (auto simp: child_done_def wake_child_def zero_task_def)
  then have "list_all (\<lambda>w. \<exists>cs. wake_decision wake_parent cs = Some w) [w, w, w]" by auto
  moreover have "task_ID wake_parent = ''parent''" by (simp add: wake_parent_def)
  ultimately show ?thesis
    using parent_woken_once [OF wake_db_facts(1-5), of w "[w, w]" "(<)"] w by (intro exI [of _ w]) simp
qed

section \<open>The wake-up and the lease release\<close>

text \<open>
  The scheduler's half of a delegating pause, as \<open>releaseExecutorLease\<close> performs it for a paused dispatch:
  it reads the task, and later releases the lease writing back the status it read.
\<close>

definition release_paused :: "string \<Rightarrow> string \<Rightarrow> task \<Rightarrow> db \<Rightarrow> db" where
  "release_paused i l current d = snd (ReleaseLease i l
     (if task_Status current \<in> {TaskStatusLeased, TaskStatusRunning} then TaskStatusPending else task_Status current)
     no_release_options d)"

definition row_of :: "string \<Rightarrow> db \<Rightarrow> task option" where
  "row_of i d = query_row (filter (\<lambda>t. task_ID t = i) (db_tasks d))"

lemma row_of_unique: "tasks_ok (db_tasks d) \<Longrightarrow> r \<in> set (db_tasks d) \<Longrightarrow> row_of (task_ID r) d = Some r"
  using filter_unique_key [OF tasks_ok_distinct] by (simp add: row_of_def query_row_def)

lemma row_of_update:
  assumes "row_of i d = Some r" and "\<And>t. task_ID (f t) = task_ID t" and "P r"
  shows "row_of i (d\<lparr>db_tasks := sql_update P f (db_tasks d)\<rparr>) = Some (f r)"
proof -
  have "filter (\<lambda>t. task_ID t = i) (sql_update P f ts) = sql_update P f (filter (\<lambda>t. task_ID t = i) ts)" for ts
    by (induction ts) (simp_all add: assms(2))
  with assms(1,3) show ?thesis by (auto simp: row_of_def query_row_Some)
qed

lemma released_row_ParentTaskID [simp]: "task_ParentTaskID (released_row st opts now t) = task_ParentTaskID t"
  by (simp add: released_row_def clear_lease_def)

lemma children_of_update:
  "(\<And>t. task_ParentTaskID (f t) = task_ParentTaskID t) \<Longrightarrow> children_of i (sql_update P f ts) = sql_update P f (children_of i ts)"
  by (induction ts) simp_all

lemma release_paused_tasks:
  assumes "l \<noteq> []" and "declared_status (task_Status current)"
    and "task_Status current \<notin> {TaskStatusLeased, TaskStatusRunning}"
  shows "release_paused i l current d = d\<lparr>db_tasks := sql_update (\<lambda>t. task_ID t = i \<and> task_LeaseID t = Some l)
           (released_row (task_Status current) no_release_options (db_now d)) (db_tasks d)\<rparr>"
  using assms by (simp add: release_paused_def ReleaseLease_def update_status_where_def Let_def released_row_status_idem)

lemma woken_row_lease: "to_ClearLease (snd w) = False \<Longrightarrow> task_LeaseID (woken_row w now t) = task_LeaseID t"
  by (simp add: woken_row_def apply_transition_opts_def Let_def split: option.split)

lemma wake_decision_keeps_lease: "wake_decision r cs = Some w \<Longrightarrow> to_ClearLease (snd w) = False"
  by (auto simp: wake_decision_def child_failed_opts_def no_transition_opts_def split: if_splits)

text \<open>
  A wake-up can be lost. Let a parent wait for children that are all done, its lease not yet
  released by the scheduler. If the last child's finaliser wakes it between the scheduler's read and its
  release, the release (which is fenced by the lease id only, and the wake left the lease in place) writes
  WAITING_FOR_CHILDREN back over QUEUED or FAILED: the parent waits without a lease for children that will
  never report again. In the other order the wake sticks, without a lease, and a queued parent can be leased.
\<close>

theorem wake_up_lost:
  assumes "tasks_ok (db_tasks d)" and "r \<in> set (db_tasks d)" and "task_ID r \<noteq> []"
    and "task_Status r = TaskStatusWaitingForChildren" and "task_LeaseID r = Some l" and "l \<noteq> []"
    and "all_children_done (task_ID r) (db_tasks d)" and "Get (task_ID r) d = Inr current"
  shows "(\<exists>r'. row_of (task_ID r) (unblockParentIfChildrenDone (sqlite_repo lt) (task_ID r) d) = Some r'
            \<and> (task_Status r' = TaskStatusQueued \<or> task_Status r' = TaskStatusFailed))
       \<and> (\<exists>r'. row_of (task_ID r) (release_paused (task_ID r) l current
                 (unblockParentIfChildrenDone (sqlite_repo lt) (task_ID r) d)) = Some r'
            \<and> task_Status r' = TaskStatusWaitingForChildren \<and> task_LeaseID r' = None)
       \<and> (\<exists>r'. row_of (task_ID r) (unblockParentIfChildrenDone (sqlite_repo lt) (task_ID r)
                 (release_paused (task_ID r) l current d)) = Some r'
            \<and> (task_Status r' = TaskStatusQueued \<or> task_Status r' = TaskStatusFailed) \<and> task_LeaseID r' = None)"
proof -
  let ?i = "task_ID r"
  have cur: "task_Status current = TaskStatusWaitingForChildren"
    using assms(8) filter_unique_key [OF tasks_ok_distinct [OF assms(1)] assms(2)] assms(4)
    by (auto simp: Get_def scan_one_def query_row_def)
  obtain w where w: "wake_decision r (GetChildren ?i d) = Some w"
    using wake_decision_exists [OF assms(7)] by blast
  note row = row_of_unique [OF assms(1,2)]
  have unb: "unblockParentIfChildrenDone (sqlite_repo lt) ?i d
      = d\<lparr>db_tasks := sql_update (waiting_row ?i) (woken_row w (db_now d)) (db_tasks d)\<rparr>" (is "_ = ?d1")
    using unblock_sqlite [OF assms(1-3), of lt] w assms(4,7) by simp
  have row1: "row_of ?i ?d1 = Some (woken_row w (db_now d) r)"
    by (rule row_of_update [OF row]) (simp_all add: waiting_row_def assms(4))
  have rel: "release_paused ?i l current e = e\<lparr>db_tasks := sql_update (\<lambda>t. task_ID t = ?i \<and> task_LeaseID t = Some l)
      (released_row TaskStatusWaitingForChildren no_release_options (db_now e)) (db_tasks e)\<rparr>" for e
    using release_paused_tasks [OF assms(6), of current ?i e] cur by (simp add: declared_status_def)
  have "task_LeaseID (woken_row w (db_now d) r) = Some l"
    using woken_row_lease [OF wake_decision_keeps_lease [OF w]] assms(5) by simp
  then have row2: "row_of ?i (release_paused ?i l current ?d1)
      = Some (released_row TaskStatusWaitingForChildren no_release_options (db_now ?d1) (woken_row w (db_now d) r))"
    unfolding rel by (intro row_of_update [OF row1]) simp_all
  let ?r = "released_row TaskStatusWaitingForChildren no_release_options (db_now d) r"
  let ?d2 = "release_paused ?i l current d"
  have ok2: "tasks_ok (db_tasks ?d2)"
    by (cases "ReleaseLease ?i l TaskStatusWaitingForChildren no_release_options d")
      (use assms(1) cur in \<open>auto simp: release_paused_def intro: ReleaseLease_ok\<close>)
  have in2: "?r \<in> set (db_tasks ?d2)" using assms(2,5) by (auto simp: rel in_set_sql_update)
  have "task_ID t \<noteq> ?i" if "t \<in> set (children_of ?i (db_tasks d))" for t
  proof
    assume "task_ID t = ?i"
    with that tasks_ok_unique [OF assms(1) _ assms(2)] have "t = r" by auto
    with that assms(7,4) show False by (auto simp: all_children_done_def list_all_iff child_done_def)
  qed
  then have "children_of ?i (db_tasks ?d2) = children_of ?i (db_tasks d)"
    unfolding rel by (simp add: children_of_update) (rule sql_update_id, auto)
  then have done2: "all_children_done ?i (db_tasks ?d2)" using assms(7) by (simp add: all_children_done_def)
  obtain w2 where w2: "wake_decision ?r (GetChildren ?i ?d2) = Some w2"
    using wake_decision_exists [OF done2] by blast
  have "unblockParentIfChildrenDone (sqlite_repo lt) ?i ?d2
      = ?d2\<lparr>db_tasks := sql_update (waiting_row ?i) (woken_row w2 (db_now ?d2)) (db_tasks ?d2)\<rparr>"
    using unblock_sqlite [OF ok2 in2, of lt] w2 done2 assms(3) by simp
  moreover have "row_of ?i \<dots> = Some (woken_row w2 (db_now ?d2) ?r)"
    by (rule row_of_update [OF row_of_unique [OF ok2 in2, simplified]]) (simp_all add: waiting_row_def)
  moreover have "task_LeaseID (woken_row w2 (db_now ?d2) ?r) = None"
    using woken_row_lease [OF wake_decision_keeps_lease [OF w2]] by simp
  ultimately show ?thesis
    using row1 row2 wake_decision_status [OF w] wake_decision_status [OF w2] by (simp add: unb)
qed

theorem wake_up_lost_witness:
  "\<exists>r'. row_of ''parent'' (release_paused ''parent'' ''lease'' (scanSqliteTask wake_parent)
           (unblockParentIfChildrenDone (sqlite_repo (<)) ''parent'' wake_db)) = Some r'
     \<and> task_Status r' = TaskStatusWaitingForChildren \<and> task_LeaseID r' = None"
proof -
  have i: "task_ID wake_parent = ''parent''" by (simp add: wake_parent_def)
  have "Get ''parent'' wake_db = Inr (scanSqliteTask wake_parent)"
    using filter_unique_key [OF tasks_ok_distinct [OF wake_db_facts(1)] wake_db_facts(2)]
    by (simp add: Get_def scan_one_def query_row_def i)
  with wake_up_lost [OF wake_db_facts(1-4,6) _ wake_db_facts(7), of "scanSqliteTask wake_parent" "(<)"]
  show ?thesis by (simp add: i)
qed

section \<open>The startup sweep\<close>

text \<open>What one wake does to the table: a waiting row with finished children leaves, nothing else moves.\<close>

definition wake_keeps :: "db \<Rightarrow> db \<Rightarrow> bool" where
  "wake_keeps d d' \<longleftrightarrow> tasks_ok (db_tasks d') \<and>
     (\<forall>i. all_children_done i (db_tasks d) \<longrightarrow> all_children_done i (db_tasks d')) \<and>
     map task_ID (db_tasks d') = map task_ID (db_tasks d) \<and>
     (\<forall>t' \<in> set (db_tasks d'). task_Status t' = TaskStatusWaitingForChildren \<longrightarrow> t' \<in> set (db_tasks d))"

lemma wake_keeps_refl: "tasks_ok (db_tasks d) \<Longrightarrow> wake_keeps d d"
  by (simp add: wake_keeps_def)

lemma wake_keeps_trans: "wake_keeps d d' \<Longrightarrow> wake_keeps d' d'' \<Longrightarrow> wake_keeps d d''"
  by (auto simp: wake_keeps_def)

lemma wake_keeps_update:
  assumes "tasks_ok (db_tasks d)" and "fst w = TaskStatusQueued \<or> fst w = TaskStatusFailed"
  shows "wake_keeps d (d\<lparr>db_tasks := sql_update (waiting_row i) (woken_row w now) (db_tasks d)\<rparr>)"
proof -
  let ?ts = "sql_update (waiting_row i) (woken_row w now) (db_tasks d)"
  have "keeps_keys (woken_row w now)" by (simp add: keeps_keys_def woken_row_def)
  then have "tasks_ok ?ts"
    by (rule tasks_ok_sql_update [OF assms(1)]) (use assms(2) in \<open>auto simp: declared_status_def\<close>)
  moreover have "all_children_done j ?ts" if "all_children_done j (db_tasks d)" for j
  proof -
    have "children_of j ?ts = sql_update (waiting_row i) (woken_row w now) (children_of j (db_tasks d))"
      by (rule children_of_update) simp
    also have "\<dots> = children_of j (db_tasks d)"
      by (rule sql_update_id) (use that in \<open>auto simp: all_children_done_def list_all_iff child_done_def waiting_row_def\<close>)
    finally show ?thesis using that by (simp add: all_children_done_def)
  qed
  moreover have "map task_ID ?ts = map task_ID (db_tasks d)" by (rule map_sql_update) simp
  ultimately show ?thesis using assms(2) by (auto simp: wake_keeps_def in_set_sql_update)
qed

lemma check_sqlite:
  assumes "tasks_ok (db_tasks d)" and "i \<in> task_ID ` set (db_tasks d)"
  shows "wake_keeps d (checkParentUnblock (sqlite_repo lt) (Some i) d)"
    and "i \<noteq> [] \<Longrightarrow> all_children_done i (db_tasks d) \<Longrightarrow>
      t \<in> set (db_tasks (checkParentUnblock (sqlite_repo lt) (Some i) d)) \<Longrightarrow> \<not> waiting_row i t"
proof -
  from assms(2) obtain r where r: "r \<in> set (db_tasks d)" "i = task_ID r" by blast
  let ?d = "unblockParentIfChildrenDone (sqlite_repo lt) i d"
  have ex: "\<exists>w. (fst w = TaskStatusQueued \<or> fst w = TaskStatusFailed) \<and>
      ?d = d\<lparr>db_tasks := sql_update (waiting_row i) (woken_row w (db_now d)) (db_tasks d)\<rparr>"
    if "i \<noteq> []" "task_Status r = TaskStatusWaitingForChildren" and all: "all_children_done i (db_tasks d)"
  proof -
    obtain w where w: "wake_decision r (GetChildren i d) = Some w"
      using wake_decision_exists [OF all] by blast
    with unblock_sqlite [OF assms(1) r(1), of lt] that all r(2) wake_decision_status [OF w] show ?thesis
      by (intro exI [of _ w] conjI) simp_all
  qed
  have stay: "?d = d" if "i \<noteq> []" "\<not> (task_Status r = TaskStatusWaitingForChildren \<and> all_children_done i (db_tasks d))"
    using unblock_sqlite [OF assms(1) r(1), of lt] that r(2) by auto
  show "wake_keeps d (checkParentUnblock (sqlite_repo lt) (Some i) d)"
    using ex stay wake_keeps_update [OF assms(1)] wake_keeps_refl [OF assms(1)]
    by (cases "i = []") (force simp: checkParentUnblock_def)+
  show "\<not> waiting_row i t" if ne: "i \<noteq> []" and all: "all_children_done i (db_tasks d)"
    and t: "t \<in> set (db_tasks (checkParentUnblock (sqlite_repo lt) (Some i) d))"
  proof (cases "task_Status r = TaskStatusWaitingForChildren")
    case True
    from ex [OF ne True all] obtain w where w: "fst w = TaskStatusQueued \<or> fst w = TaskStatusFailed"
      and d: "?d = d\<lparr>db_tasks := sql_update (waiting_row i) (woken_row w (db_now d)) (db_tasks d)\<rparr>" by blast
    have "t \<in> set (sql_update (waiting_row i) (woken_row w (db_now d)) (db_tasks d))"
      using t ne by (simp add: checkParentUnblock_def d)
    then show ?thesis by (rule woken_not_waiting [OF _ w])
  next
    case False
    with stay ne t have "t \<in> set (db_tasks d)" by (simp add: checkParentUnblock_def)
    then have "task_ID t = i \<Longrightarrow> t = r" using tasks_ok_unique [OF assms(1) _ r(1)] r(2) by blast
    with False show ?thesis by (auto simp: waiting_row_def)
  qed
qed

lemma sweep_fold:
  assumes "tasks_ok (db_tasks d)" and "set (map task_ID ps) \<subseteq> task_ID ` set (db_tasks d)"
  shows "wake_keeps d (fold (\<lambda>p. checkParentUnblock (sqlite_repo lt) (Some (task_ID p))) ps d) \<and>
    (\<forall>i \<in> set (map task_ID ps). i \<noteq> [] \<and> all_children_done i (db_tasks d) \<longrightarrow>
       (\<forall>t \<in> set (db_tasks (fold (\<lambda>p. checkParentUnblock (sqlite_repo lt) (Some (task_ID p))) ps d)). \<not> waiting_row i t))"
  using assms
proof (induction ps arbitrary: d)
  case Nil
  then show ?case by (simp add: wake_keeps_refl)
next
  case (Cons p ps)
  let ?d1 = "checkParentUnblock (sqlite_repo lt) (Some (task_ID p)) d"
  let ?d2 = "fold (\<lambda>p. checkParentUnblock (sqlite_repo lt) (Some (task_ID p))) ps ?d1"
  from Cons.prems have "task_ID p \<in> task_ID ` set (db_tasks d)" by simp
  note one = check_sqlite [OF Cons.prems(1) this, where lt = lt]
  have "tasks_ok (db_tasks ?d1)" "task_ID ` set (db_tasks ?d1) = task_ID ` set (db_tasks d)"
    using one(1) by (auto simp: wake_keeps_def simp flip: set_map)
  with Cons.IH [of ?d1] Cons.prems(2)
  have IH: "wake_keeps ?d1 ?d2" "\<forall>i \<in> set (map task_ID ps). i \<noteq> [] \<and> all_children_done i (db_tasks ?d1) \<longrightarrow>
       (\<forall>t \<in> set (db_tasks ?d2). \<not> waiting_row i t)" by auto
  have "\<not> waiting_row i t" if "i \<in> set (map task_ID (p # ps))" "i \<noteq> []" "all_children_done i (db_tasks d)"
    "t \<in> set (db_tasks ?d2)" for i t
  proof (cases "i = task_ID p")
    case True
    show ?thesis
    proof
      assume w: "waiting_row i t"
      then have "t \<in> set (db_tasks ?d1)" using IH(1) that(4) by (auto simp: wake_keeps_def waiting_row_def)
      with one(2) w that True show False by simp
    qed
  next
    case False
    with that IH(2) one(1) show ?thesis by (auto simp: wake_keeps_def)
  qed
  with wake_keeps_trans [OF one(1) IH(1)] show ?case by simp
qed



end
