(* ===== verification/StepRetry.thy ===== *)
theory StepRetry
  imports AgentCall "HOL-Library.Sublist"
begin

text \<open>
  The three retry layers around an agent step (\<^verbatim>\<open>src/internal/executor/retry.go\<close>): infrastructure
  retry with backoff, one corrective retry on a malformed answer, one retry on the role's fallback
  model. The agent run itself (\<open>executeAgentStep\<close>, a container), the sleep, the stored step outcomes and
  the reading of an earlier answer are parameters over an arbitrary state, so every theorem holds for
  whatever the agent does. Metrics and logging are left out.
\<close>

section \<open>Constants\<close>

definition shapeRetryMaxAttempts :: int where "shapeRetryMaxAttempts = 1"

definition shapeRetryLoopCap :: nat where "shapeRetryLoopCap = 3"

definition infraRetryMaxAttempts :: nat where "infraRetryMaxAttempts = 6"

definition infraRetryTimeoutAttempts :: nat where "infraRetryTimeoutAttempts = 2"

definition infraRetryBaseDelay :: nanos where "infraRetryBaseDelay = 1500000000"

definition infraRetryMaxDelay :: nanos where "infraRetryMaxDelay = 20 * Second"

definition ellipsis :: string where
  "ellipsis = map char_of [226, 128, 166 :: nat]"

section \<open>Classification of errors\<close>

definition infraFailureMarkers :: "string list" where
  "infraFailureMarkers = [''curl: (6)'', ''curl: (7)'', ''curl: (28)'', ''curl: (35)'', ''curl: (52)'', ''curl: (56)'',
     ''gateway error 502'', ''gateway error 503'', ''gateway error 504'', ''PROVIDER_ERROR'',
     ''connection refused'', ''Connection refused'', ''no such host'', ''i/o timeout'']"

definition isInfraFailure :: "step_err \<Rightarrow> bool" where
  "isInfraFailure e \<longleftrightarrow> \<not> se_retryable e \<and> containsAny (se_msg e) infraFailureMarkers"

definition timeout_words :: "string list" where
  "timeout_words = [''timed out'', ''timeout'', ''deadline'', ''(28)'', ''no bytes received'']"

definition isTimeoutInfraFailure :: "step_err \<Rightarrow> bool" where
  "isTimeoutInfraFailure e \<longleftrightarrow> containsAny (ToLower (se_msg e)) timeout_words"

definition isPersistentTimeoutFailure :: "step_err \<Rightarrow> bool" where
  "isPersistentTimeoutFailure e \<longleftrightarrow> contains (se_msg e) ''infra retry exhausted'' \<and>
     containsAny (ToLower (se_msg e)) timeout_words"

datatype shapeFailureKind = shapeFailureNone | shapeFailureJSON | shapeFailurePlausibility

definition classifyShapeFailure :: "step_err \<Rightarrow> shapeFailureKind" where
  "classifyShapeFailure e = (let msg = se_msg e in
     if contains msg ''plausibility violation'' then shapeFailurePlausibility
     else if contains msg ''schema violation: role'' then shapeFailureJSON
     else if contains msg ''is missing required keys'' then shapeFailureJSON
     else if contains msg ''could not parse plan from lead output'' then shapeFailureJSON
     else if contains msg ''result.json'' \<and> (contains msg ''parse'' \<or> contains msg ''unmarshal'') then shapeFailureJSON
     else shapeFailureNone)"

definition isModelShapedFailure :: "step_err \<Rightarrow> bool" where
  "isModelShapedFailure e \<longleftrightarrow> classifyShapeFailure e \<noteq> shapeFailureNone \<or>
     contains (se_msg e) ''Tool iteration limit'' \<or> contains (se_msg e) ''tool iteration cap'' \<or>
     contains (se_msg e) ''PROVIDER_ERROR''"

section \<open>The corrective prompt\<close>

definition truncateForPrompt :: "string \<Rightarrow> nat \<Rightarrow> string" where
  "truncateForPrompt s n = (if length s \<le> n then s else take n s @ ellipsis @ ''(truncated)'')"

text \<open>The first match of \<open>is missing required keys:\s*\[([^\]]*)\]\<close>, as its group.\<close>

definition match_missing_keys :: "string \<Rightarrow> string option" where
  "match_missing_keys s = (let lit = ''is missing required keys:'' in
     if take (length lit) s = lit then
       (case dropWhile (\<lambda>c. (of_char c :: nat) \<in> {9, 10, 12, 13, 32}) (drop (length lit) s) of
          c # r \<Rightarrow> if c = CHR ''['' \<and> CHR '']'' \<in> set r then Some (takeWhile (\<lambda>x. x \<noteq> CHR '']'') r) else None
        | [] \<Rightarrow> None)
     else None)"

fun find_missing_keys :: "string \<Rightarrow> string option" where
  "find_missing_keys [] = None"
| "find_missing_keys (c # s) = (case match_missing_keys (c # s) of Some g \<Rightarrow> Some g | None \<Rightarrow> find_missing_keys s)"

text \<open>\<open>strings.FieldsFunc\<close> with the separators space, comma and tab.\<close>

definition key_separator :: "char \<Rightarrow> bool" where
  "key_separator c \<longleftrightarrow> c = CHR '' '' \<or> c = CHR '','' \<or> c = CHR 0x09"

function key_fields :: "string \<Rightarrow> string list" where
  "key_fields s = (let s1 = dropWhile key_separator s in
     if s1 = [] then [] else takeWhile (\<lambda>c. \<not> key_separator c) s1 # key_fields (dropWhile (\<lambda>c. \<not> key_separator c) s1))"
  by auto
termination
proof (relation "measure length")
  fix s s1 :: string
  assume s1: "s1 = dropWhile key_separator s" and ne: "s1 \<noteq> []"
  have "\<not> key_separator (hd s1)" unfolding s1 by (rule hd_dropWhile) (use ne s1 in auto)
  then have "length (dropWhile (\<lambda>c. \<not> key_separator c) s1) < length s1"
    using ne by (cases s1) (auto simp: le_imp_less_Suc length_dropWhile_le)
  then show "(dropWhile (\<lambda>c. \<not> key_separator c) s1, s) \<in> measure length"
    using length_dropWhile_le [of key_separator s] s1 by simp
qed simp

declare key_fields.simps [simp del]

definition extractMissingKeysFromError :: "step_err \<Rightarrow> string list" where
  "extractMissingKeysFromError e = (case find_missing_keys (se_msg e) of None \<Rightarrow> []
     | Some g \<Rightarrow> (let inner = TrimSpace g in
         if inner = [] then [] else filter (\<lambda>p. p \<noteq> []) (map TrimSpace (key_fields inner))))"

definition shapeRetryHint :: "string \<Rightarrow> string" where
  "shapeRetryHint detail = ''\<newline>\<newline>[CORRECTION: your previous attempt failed schema validation: '' @ detail @ ''. '' @
     ''Respond ONLY with the required JSON object as a top-level value. '' @
     ''No prose before or after. No markdown code fences. '' @
     ''No 'Here is the result:' preamble. '' @
     ''The output must parse with `jq .` and contain every required key.]''"

definition plausibilityRetryHint :: "string \<Rightarrow> string" where
  "plausibilityRetryHint detail = ''\<newline>\<newline>[CORRECTION: your previous attempt failed plausibility validation: '' @ detail @ ''. '' @
     ''Your JSON shape was correct but the field values were inconsistent or empty where they shouldn't be. '' @
     ''Re-answer with values that match each other (e.g. if approved:false, populate feedback with the specific issue) '' @
     ''and don't leave required-content fields blank. Same JSON structure as before; just fix the content.]''"

definition priorAttemptAnchor :: "string \<Rightarrow> string" where
  "priorAttemptAnchor msg = ''\<newline>\<newline>Your previous attempt's content (re-format it into the JSON shape above; '' @
     ''do NOT abandon prior decisions or substantive findings):\<newline><<<PRIOR_ATTEMPT\<newline>'' @ msg @ ''\<newline>>>>PRIOR_ATTEMPT''"

text \<open>\<open>prior\<close> stands for \<open>extractPriorMessage\<close>; a role without an output schema renders as the empty text.\<close>

definition buildShapeRetryHint ::
  "(string \<Rightarrow> string) \<Rightarrow> step_err \<Rightarrow> shapeFailureKind \<Rightarrow> string \<Rightarrow> string \<Rightarrow> swarm_role option \<Rightarrow> string" where
  "buildShapeRetryHint prior e kind priorResult roleHint role =
     (let detail = truncateForPrompt (se_msg e) 400;
          h1 = (if kind = shapeFailurePlausibility then plausibilityRetryHint detail else shapeRetryHint detail);
          missing = extractMissingKeysFromError e;
          h2 = (if kind = shapeFailureJSON \<and> missing \<noteq> []
                then h1 @ ''\<newline>\<newline>Missing keys: ['' @ join missing '', '' @ '']'' else h1);
          h3 = (case role of
                  Some r \<Rightarrow> if kind = shapeFailureJSON \<and> sr_SchemaPrompt r \<noteq> []
                    then h2 @ ''\<newline>\<newline>Required schema:\<newline>'' @ sr_SchemaPrompt r else h2
                | None \<Rightarrow> h2);
          h4 = (if prior priorResult \<noteq> [] then h3 @ priorAttemptAnchor (prior priorResult) else h3)
      in if roleHint \<noteq> [] then h4 @ ''\<newline>\<newline>[ROLE GUIDANCE: '' @ roleHint @ '']'' else h4)"

section \<open>Infrastructure retry\<close>

type_synonym 's agent = "step_call \<Rightarrow> 's \<Rightarrow> step_result \<times> 's"

text \<open>A sleep that the context may cut short (\<open>True\<close>: the context was done).\<close>

type_synonym 's sleep = "nanos \<Rightarrow> 's \<Rightarrow> bool \<times> 's"

definition ctx_err :: step_err where
  "ctx_err = \<lparr>se_msg = ''context canceled'', se_retryable = False, se_chain = [WrapsCanceled]\<rparr>"

definition attempt_id :: "string \<Rightarrow> nat \<Rightarrow> string" where
  "attempt_id stepID attempt = (if attempt > 1 then stepID @ ''_infra_retry'' @ show_nat (attempt - 1) else stepID)"

definition count_timeout :: "step_err \<Rightarrow> nat \<Rightarrow> nat" where
  "count_timeout e timeoutFailures = (if isTimeoutInfraFailure e then timeoutFailures + 1 else timeoutFailures)"

definition budget_spent :: "step_err \<Rightarrow> nat \<Rightarrow> nat \<Rightarrow> bool" where
  "budget_spent e attempt timeoutFailures \<longleftrightarrow>
     (isTimeoutInfraFailure e \<and> timeoutFailures \<ge> infraRetryTimeoutAttempts) \<or> attempt \<ge> infraRetryMaxAttempts"

definition clamp_delay :: "nanos \<Rightarrow> nanos" where
  "clamp_delay delay = (if delay > infraRetryMaxDelay then infraRetryMaxDelay else delay)"

function infra_loop :: "'s agent \<Rightarrow> 's sleep \<Rightarrow> step_call \<Rightarrow> nat \<Rightarrow> nanos \<Rightarrow> nat \<Rightarrow> 's \<Rightarrow> step_result \<times> 's" where
  "infra_loop agent sleep c attempt delay timeoutFailures s =
     (case agent (c\<lparr>call_stepID := attempt_id (call_stepID c) attempt\<rparr>) s of
        ((cid, result, None), s1) \<Rightarrow> ((cid, result, None), s1)
      | ((cid, result, Some e), s1) \<Rightarrow>
          if \<not> isInfraFailure e then ((cid, result, Some e), s1)
          else if budget_spent e attempt (count_timeout e timeoutFailures)
          then ((cid, result, Some (wrap_err (''infra retry exhausted after '' @ show_nat attempt @ '' attempts: '') [] e)), s1)
          else (case sleep (clamp_delay delay) s1 of
                (True, s2) \<Rightarrow> ((cid, result, Some ctx_err), s2)
              | (False, s2) \<Rightarrow>
                  infra_loop agent sleep c (attempt + 1) (2 * clamp_delay delay) (count_timeout e timeoutFailures) s2))"
  by pat_completeness auto
termination
  by (relation "measure (\<lambda>(_, _, _, attempt, _). infraRetryMaxAttempts - attempt)") (auto simp: budget_spent_def)

declare infra_loop.simps [simp del]

definition executeAgentStepWithInfraRetry :: "'s agent \<Rightarrow> 's sleep \<Rightarrow> step_call \<Rightarrow> 's \<Rightarrow> step_result \<times> 's" where
  "executeAgentStepWithInfraRetry agent sleep c s = infra_loop agent sleep c 1 infraRetryBaseDelay 0 s"

section \<open>Shape retry and model fallback\<close>

text \<open>\<open>outcomes\<close>: the execution's stored step outcomes (the first fifty), or nothing on a failed read.\<close>

definition priorShapeFailureCount :: "('s \<Rightarrow> string list option) \<Rightarrow> 's \<Rightarrow> nat" where
  "priorShapeFailureCount outcomes s = (case outcomes s of None \<Rightarrow> 0
     | Some rows \<Rightarrow> length (filter (\<lambda>r. r = ''schema_violation'' \<or> r = ''parse_error'') rows))"

definition findSwarmRole :: "swarm_role list \<Rightarrow> string \<Rightarrow> swarm_role option" where
  "findSwarmRole roles name = find (\<lambda>r. sr_Name r = name) roles"

definition executeAgentStepWithShapeRetry ::
  "'s agent \<Rightarrow> 's sleep \<Rightarrow> ('s \<Rightarrow> string list option) \<Rightarrow> (string \<Rightarrow> string) \<Rightarrow> step_call \<Rightarrow> 's \<Rightarrow> step_result \<times> 's" where
  "executeAgentStepWithShapeRetry agent sleep outcomes prior c s =
     (case executeAgentStepWithInfraRetry agent sleep c s of
        ((cid, result, None), s1) \<Rightarrow> ((cid, result, None), s1)
      | ((cid, result, Some e), s1) \<Rightarrow>
          let kind = classifyShapeFailure e in
          if kind = shapeFailureNone \<or> shapeRetryMaxAttempts \<le> 0 then ((cid, result, Some e), s1)
          else if priorShapeFailureCount outcomes s1 \<ge> shapeRetryLoopCap
          then ((cid, result, Some (wrap_err (''shape retry loop cap hit ('' @ show_nat shapeRetryLoopCap @
                   '' prior shape failures): '') [] e)), s1)
          else (let hint = buildShapeRetryHint prior e kind result (ao_ShapeRetryHint (call_opts c))
                        (findSwarmRole (call_roles c) (call_role c));
                    c' = c\<lparr>call_stepID := call_stepID c @ ''_shape_retry'',
                           call_opts := (call_opts c)\<lparr>ao_StepPrompt := ao_StepPrompt (call_opts c) @ hint\<rparr>\<rparr>
                in case executeAgentStepWithInfraRetry agent sleep c' s1 of
                     ((cid2, result2, None), s2) \<Rightarrow> ((cid2, result2, None), s2)
                   | ((cid2, result2, Some e2), s2) \<Rightarrow>
                       ((cid2, result2, Some (wrap_err [] ('' (original error before retry: '' @
                          truncateForPrompt (se_msg e) 200 @ '')'') e2)), s2)))"

definition swap_role :: "swarm_role \<Rightarrow> swarm_role list \<Rightarrow> swarm_role list" where
  "swap_role r roles = (let pre = takeWhile (\<lambda>x. sr_Name x \<noteq> sr_Name r) roles
     in if length pre < length roles
        then pre @ r\<lparr>sr_Model := sr_ModelFallback r, sr_ModelFallback := []\<rparr> # drop (length pre + 1) roles
        else roles)"

definition executeAgentStepWithFallback ::
  "(string \<Rightarrow> string) \<Rightarrow> 's agent \<Rightarrow> 's sleep \<Rightarrow> ('s \<Rightarrow> string list option) \<Rightarrow> (string \<Rightarrow> string) \<Rightarrow>
   step_call \<Rightarrow> swarm_role option \<Rightarrow> 's \<Rightarrow> step_result \<times> 's" where
  "executeAgentStepWithFallback quote agent sleep outcomes prior c roleConfig s =
     (case executeAgentStepWithShapeRetry agent sleep outcomes prior c s of
        ((cid, result, None), s1) \<Rightarrow> ((cid, result, None), s1)
      | ((cid, result, Some e), s1) \<Rightarrow>
          (case roleConfig of
             None \<Rightarrow> ((cid, result, Some e), s1)
           | Some r \<Rightarrow>
               if TrimSpace (sr_ModelFallback r) = [] \<or> (\<not> isModelShapedFailure e \<and> \<not> isPersistentTimeoutFailure e)
               then ((cid, result, Some e), s1)
               else (let c' = c\<lparr>call_stepID := call_stepID c @ ''_model_fallback'', call_roles := swap_role r (call_roles c)\<rparr>
                     in case executeAgentStepWithShapeRetry agent sleep outcomes prior c' s1 of
                          ((cid2, result2, None), s2) \<Rightarrow> ((cid2, result2, None), s2)
                        | ((cid2, result2, Some e2), s2) \<Rightarrow>
                            ((cid2, result2, Some (wrap_err [] ('' (primary model '' @ quote (sr_Model r) @
                               '' also failed: '' @ truncateForPrompt (se_msg e) 200 @ '')'') e2)), s2))))"

section \<open>What a step costs at most\<close>

text \<open>The run of a step, observed: every agent run with its success, every sleep.\<close>

datatype retry_event = Ran step_call bool | Slept nanos

definition observed_agent :: "'s agent \<Rightarrow> ('s \<times> retry_event list) agent" where
  "observed_agent agent c se = (case se of (s, evs) \<Rightarrow>
     (case agent c s of ((cid, result, err), s1) \<Rightarrow> ((cid, result, err), s1, evs @ [Ran c (err = None)])))"

definition observed_sleep :: "'s sleep \<Rightarrow> ('s \<times> retry_event list) sleep" where
  "observed_sleep sleep d se = (case se of (s, evs) \<Rightarrow>
     (case sleep d s of (halted, s1) \<Rightarrow> (halted, s1, evs @ [Slept d])))"

fun ran_ids :: "retry_event list \<Rightarrow> string list" where
  "ran_ids [] = []"
| "ran_ids (Ran c _ # evs) = call_stepID c # ran_ids evs"
| "ran_ids (Slept _ # evs) = ran_ids evs"

fun ran_oks :: "retry_event list \<Rightarrow> bool list" where
  "ran_oks [] = []"
| "ran_oks (Ran _ b # evs) = b # ran_oks evs"
| "ran_oks (Slept _ # evs) = ran_oks evs"

fun slept :: "retry_event list \<Rightarrow> nanos" where
  "slept [] = 0"
| "slept (Ran _ _ # evs) = slept evs"
| "slept (Slept d # evs) = d + slept evs"

definition failed :: "step_result \<Rightarrow> bool" where
  "failed r \<longleftrightarrow> snd (snd r) \<noteq> None"

text \<open>A part of a run: which step ids it may use, how long it may sleep, and how it ended.\<close>

definition run_within :: "string list \<Rightarrow> nanos \<Rightarrow> bool \<Rightarrow> retry_event list \<Rightarrow> bool" where
  "run_within ids budget ok evs \<longleftrightarrow> subseq (ran_ids evs) ids \<and> slept evs \<le> budget \<and>
     (\<exists>n. ran_oks evs = replicate n False @ [ok])"

lemma observed_append [simp]:
  "ran_ids (xs @ ys) = ran_ids xs @ ran_ids ys" "ran_oks (xs @ ys) = ran_oks xs @ ran_oks ys"
  "slept (xs @ ys) = slept xs + slept ys"
  by (induction xs rule: ran_ids.induct) simp_all

lemma run_within_seq:
  assumes "run_within A b1 False xs" and "run_within B b2 ok ys"
  shows "run_within (A @ B) (b1 + b2) ok (xs @ ys)"
proof -
  from assms obtain n m where "ran_oks xs = replicate n False @ [False]" "ran_oks ys = replicate m False @ [ok]"
    by (auto simp: run_within_def)
  then have "ran_oks (xs @ ys) = replicate (n + 1 + m) False @ [ok]" by (simp add: replicate_add replicate_append_same)
  with assms show ?thesis unfolding run_within_def observed_append
    by (intro conjI exI [of _ "n + 1 + m"]) (auto intro: list_emb_append_mono)
qed

lemma run_within_weaken: "run_within A b1 ok xs \<Longrightarrow> 0 \<le> b2 \<Longrightarrow> run_within (A @ B) (b1 + b2) ok xs"
  using list_emb_append_mono [of "(=)" "ran_ids xs" A "[]" B] by (auto simp: run_within_def)

fun nap_budget :: "nat \<Rightarrow> nanos \<Rightarrow> nanos" where
  "nap_budget 0 d = 0"
| "nap_budget (Suc n) d = min d infraRetryMaxDelay + nap_budget n (2 * min d infraRetryMaxDelay)"

lemma nap_budget_nonneg: "0 \<le> d \<Longrightarrow> 0 \<le> nap_budget n d"
  by (induction n arbitrary: d) (auto simp: infraRetryMaxDelay_def Second_def)

lemma run_within_one:
  assumes "1 \<le> a" and "a \<le> infraRetryMaxAttempts" and "slept naps \<le> b" and "ran_ids naps = []" and "ran_oks naps = []"
  shows "run_within (map (attempt_id i) [a..<Suc infraRetryMaxAttempts]) b ok
    (Ran (c\<lparr>call_stepID := attempt_id i a\<rparr>) ok # naps)"
proof -
  have "[a..<Suc infraRetryMaxAttempts] = a # [Suc a..<Suc infraRetryMaxAttempts]"
    using assms(2) by (intro upt_conv_Cons) simp
  then show ?thesis using assms(3-5) by (simp add: run_within_def del: upt_Suc)
qed

lemma infra_loop_stop:
  assumes "agent (c\<lparr>call_stepID := attempt_id (call_stepID c) a\<rparr>) s = ((cid, result, err), s1)"
    and "err = None \<or> (\<exists>e. err = Some e \<and> (\<not> isInfraFailure e \<or> budget_spent e a (count_timeout e tf)))"
    and "infra_loop (observed_agent agent) (observed_sleep sleep) c a d tf (s, evs) = (r, (s', evs'))"
  shows "(failed r \<longleftrightarrow> err \<noteq> None) \<and>
    evs' = evs @ [Ran (c\<lparr>call_stepID := attempt_id (call_stepID c) a\<rparr>) (err = None)]"
  using assms by (auto simp: infra_loop.simps [of _ _ c a] observed_agent_def failed_def split: if_splits)

lemma infra_loop_go:
  assumes "agent (c\<lparr>call_stepID := attempt_id (call_stepID c) a\<rparr>) s = ((cid, result, Some e), s1)"
    and "isInfraFailure e" and "\<not> budget_spent e a (count_timeout e tf)" and "sleep (clamp_delay d) s1 = (halted, s2)"
  shows "infra_loop (observed_agent agent) (observed_sleep sleep) c a d tf (s, evs) =
    (let evs1 = evs @ [Ran (c\<lparr>call_stepID := attempt_id (call_stepID c) a\<rparr>) False, Slept (clamp_delay d)] in
     if halted then ((cid, result, Some ctx_err), s2, evs1)
     else infra_loop (observed_agent agent) (observed_sleep sleep) c (Suc a) (2 * clamp_delay d) (count_timeout e tf) (s2, evs1))"
  using assms by (simp add: infra_loop.simps [of _ _ c a] observed_agent_def observed_sleep_def Let_def)

lemma infra_loop_within:
  assumes "infra_loop (observed_agent agent) (observed_sleep sleep) c a d tf (s, evs) = (r, (s', evs'))"
    and "1 \<le> a" and "a \<le> infraRetryMaxAttempts" and "0 \<le> d"
  shows "\<exists>new. evs' = evs @ new \<and> run_within (map (attempt_id (call_stepID c)) [a..<Suc infraRetryMaxAttempts])
    (nap_budget (infraRetryMaxAttempts - a) d) (\<not> failed r) new"
  using assms
proof (induction "infraRetryMaxAttempts - a" arbitrary: a d tf s evs rule: less_induct)
  case less
  let ?ids = "\<lambda>a. map (attempt_id (call_stepID c)) [a..<Suc infraRetryMaxAttempts]"
  let ?b = "nap_budget (infraRetryMaxAttempts - a) d"
  let ?call = "c\<lparr>call_stepID := attempt_id (call_stepID c) a\<rparr>"
  obtain cid result err s1 where ag: "agent ?call s = ((cid, result, err), s1)" by (metis prod_cases3 surj_pair)
  show ?case
  proof (cases "err = None \<or> (\<exists>e. err = Some e \<and> (\<not> isInfraFailure e \<or> budget_spent e a (count_timeout e tf)))")
    case True
    note stop = infra_loop_stop [where agent = agent and c = c and a = a, OF ag True less.prems(1)]
    have "run_within (?ids a) ?b (err = None) [Ran ?call (err = None)]"
      by (rule run_within_one [OF less.prems(2,3)]) (simp_all add: nap_budget_nonneg less.prems(4))
    with stop show ?thesis by simp
  next
    case False
    then obtain e where e: "err = Some e" "isInfraFailure e" "\<not> budget_spent e a (count_timeout e tf)" by auto
    let ?d = "clamp_delay d"
    let ?two = "[Ran ?call False, Slept ?d]"
    have lt: "a < infraRetryMaxAttempts" using e(3) by (simp add: budget_spent_def)
    then have left: "infraRetryMaxAttempts - a = Suc (infraRetryMaxAttempts - Suc a)" by simp
    have d: "?d = min d infraRetryMaxDelay" "0 \<le> ?d"
      using less.prems(4) by (auto simp: clamp_delay_def infraRetryMaxDelay_def Second_def)
    obtain halted s2 where sl: "sleep ?d s1 = (halted, s2)" by fastforce
    note go = less.prems(1) [unfolded infra_loop_go [where agent = agent and c = c and a = a and sleep = sleep and d = d,
          OF ag [unfolded e(1)] e(2,3) sl] Let_def]
    show ?thesis
    proof (cases halted)
      case True
      have "run_within (?ids a) ?b False ?two"
        using nap_budget_nonneg [of "2 * ?d" "infraRetryMaxAttempts - Suc a"] d
        by (intro run_within_one [OF less.prems(2,3)]) (simp_all add: left)
      with go True show ?thesis by (auto simp: failed_def)
    next
      case False
      with go have "infra_loop (observed_agent agent) (observed_sleep sleep) c (Suc a) (2 * ?d) (count_timeout e tf)
          (s2, evs @ ?two) = (r, (s', evs'))" by simp
      moreover have "infraRetryMaxAttempts - Suc a < infraRetryMaxAttempts - a" using lt by simp
      ultimately obtain new where new: "evs' = (evs @ ?two) @ new"
        "run_within (?ids (Suc a)) (nap_budget (infraRetryMaxAttempts - Suc a) (2 * ?d)) (\<not> failed r) new"
        using less.hyps [of "Suc a"] lt d(2) by (metis Suc_leI le_add1 mult_nonneg_nonneg plus_1_eq_Suc zero_le_numeral)
      have "run_within [attempt_id (call_stepID c) a] ?d False ?two" by (simp add: run_within_def)
      from run_within_seq [OF this new(2)] have "run_within (attempt_id (call_stepID c) a # ?ids (Suc a)) ?b (\<not> failed r) (?two @ new)"
        by (simp add: left d(1))
      moreover have "?ids a = attempt_id (call_stepID c) a # ?ids (Suc a)"
        using lt by (simp add: upt_conv_Cons del: upt_Suc)
      ultimately show ?thesis using new(1) by (intro exI [of _ "?two @ new"]) simp
    qed
  qed
qed

definition infra_ids :: "string \<Rightarrow> string list" where
  "infra_ids i = map (attempt_id i) [1..<Suc infraRetryMaxAttempts]"

text \<open>1.5 + 3 + 6 + 12 + 20 seconds.\<close>

definition infra_nap :: nanos where
  "infra_nap = nap_budget 5 infraRetryBaseDelay"

lemma infra_nap_value: "infra_nap = 42500000000"
  by (simp add: infra_nap_def infraRetryBaseDelay_def infraRetryMaxDelay_def Second_def eval_nat_numeral)

lemma infra_within:
  assumes "executeAgentStepWithInfraRetry (observed_agent agent) (observed_sleep sleep) c (s, evs) = (r, (s', evs'))"
  shows "\<exists>new. evs' = evs @ new \<and> run_within (infra_ids (call_stepID c)) infra_nap (\<not> failed r) new"
  using infra_loop_within [OF assms [unfolded executeAgentStepWithInfraRetry_def]]
  by (simp add: infra_ids_def infra_nap_def infraRetryMaxAttempts_def infraRetryBaseDelay_def del: upt_Suc)

text \<open>A layer that may follow a failed run by a second one.\<close>

lemma layer_within:
  assumes "evs1 = evs @ new1" and "run_within A b1 (\<not> failed r1) new1" and "0 \<le> b2"
    and "(failed r \<longleftrightarrow> failed r1) \<and> evs' = evs1 \<or>
      failed r1 \<and> (\<exists>new2. evs' = evs1 @ new2 \<and> run_within B b2 (\<not> failed r) new2)"
  shows "\<exists>new. evs' = evs @ new \<and> run_within (A @ B) (b1 + b2) (\<not> failed r) new"
  using assms(4)
proof (elim disjE conjE exE)
  assume "failed r \<longleftrightarrow> failed r1" "evs' = evs1"
  with assms(1) run_within_weaken [OF assms(2,3), of B] show ?thesis by auto
next
  fix new2 assume "failed r1" "evs' = evs1 @ new2" "run_within B b2 (\<not> failed r) new2"
  with assms(1,2) run_within_seq [of A b1 new1 B b2 "\<not> failed r" new2] show ?thesis by auto
qed

definition shape_ids :: "string \<Rightarrow> string list" where
  "shape_ids i = infra_ids i @ infra_ids (i @ ''_shape_retry'')"

lemma shape_retry_cases:
  assumes "executeAgentStepWithShapeRetry agent sleep outcomes prior c s = (r, s')"
    and "executeAgentStepWithInfraRetry agent sleep c s = (r1, s1)"
  shows "(failed r \<longleftrightarrow> failed r1) \<and> s' = s1 \<or> failed r1 \<and> (\<exists>c' r2. call_stepID c' = call_stepID c @ ''_shape_retry'' \<and>
    executeAgentStepWithInfraRetry agent sleep c' s1 = (r2, s') \<and> (failed r \<longleftrightarrow> failed r2))"
proof -
  obtain cid result err where r1: "r1 = (cid, result, err)" by (metis surj_pair)
  show ?thesis
  proof (cases err)
    case None
    with assms r1 show ?thesis by (simp add: executeAgentStepWithShapeRetry_def)
  next
    case (Some e)
    define c' where "c' = c\<lparr>call_stepID := call_stepID c @ ''_shape_retry'', call_opts := (call_opts c)\<lparr>ao_StepPrompt :=
      ao_StepPrompt (call_opts c) @ buildShapeRetryHint prior e (classifyShapeFailure e) result
        (ao_ShapeRetryHint (call_opts c)) (findSwarmRole (call_roles c) (call_role c))\<rparr>\<rparr>"
    obtain cid2 result2 err2 s2 where second: "executeAgentStepWithInfraRetry agent sleep c' s1 = ((cid2, result2, err2), s2)"
      by (metis surj_pair)
    show ?thesis
    proof (cases "classifyShapeFailure e = shapeFailureNone \<or> shapeRetryMaxAttempts \<le> 0 \<or>
        priorShapeFailureCount outcomes s1 \<ge> shapeRetryLoopCap")
      case True
      with assms r1 Some show ?thesis
        by (auto simp: executeAgentStepWithShapeRetry_def Let_def failed_def split: if_splits)
    next
      case False
      with assms r1 Some second have "s' = s2 \<and> (failed r \<longleftrightarrow> err2 \<noteq> None)"
        by (auto simp: executeAgentStepWithShapeRetry_def Let_def failed_def c'_def split: option.splits)
      then show ?thesis using second r1 Some
        by (intro disjI2 conjI exI [of _ c'] exI [of _ "(cid2, result2, err2)"]) (auto simp: failed_def c'_def)
    qed
  qed
qed

lemma shape_within:
  assumes "executeAgentStepWithShapeRetry (observed_agent agent) (observed_sleep sleep) outcomes prior c (s, evs)
    = (r, (s', evs'))"
  shows "\<exists>new. evs' = evs @ new \<and> run_within (shape_ids (call_stepID c)) (infra_nap + infra_nap) (\<not> failed r) new"
proof -
  obtain r1 s1 evs1 where first: "executeAgentStepWithInfraRetry (observed_agent agent) (observed_sleep sleep) c (s, evs)
    = (r1, (s1, evs1))" by (metis surj_pair)
  from infra_within [OF first] obtain new1 where new1: "evs1 = evs @ new1"
    "run_within (infra_ids (call_stepID c)) infra_nap (\<not> failed r1) new1" by blast
  have "(failed r \<longleftrightarrow> failed r1) \<and> evs' = evs1 \<or> failed r1 \<and> (\<exists>new2. evs' = evs1 @ new2 \<and>
      run_within (infra_ids (call_stepID c @ ''_shape_retry'')) infra_nap (\<not> failed r) new2)"
    using shape_retry_cases [OF assms first] infra_within by fastforce
  then show ?thesis unfolding shape_ids_def
    by (intro layer_within [OF new1]) (simp_all add: infra_nap_value)
qed

lemma fallback_cases:
  assumes "executeAgentStepWithFallback quote agent sleep outcomes prior c role s = (r, s')"
    and "executeAgentStepWithShapeRetry agent sleep outcomes prior c s = (r1, s1)"
  shows "(failed r \<longleftrightarrow> failed r1) \<and> s' = s1 \<or> failed r1 \<and> (\<exists>c' r2. call_stepID c' = call_stepID c @ ''_model_fallback'' \<and>
    executeAgentStepWithShapeRetry agent sleep outcomes prior c' s1 = (r2, s') \<and> (failed r \<longleftrightarrow> failed r2))"
proof -
  obtain cid result err where r1: "r1 = (cid, result, err)" by (metis surj_pair)
  show ?thesis
  proof (cases "err = None \<or> role = None")
    case True
    with assms r1 show ?thesis by (auto simp: executeAgentStepWithFallback_def failed_def split: option.splits)
  next
    case False
    then obtain e rc where e: "err = Some e" "role = Some rc" by auto
    define c' where "c' = c\<lparr>call_stepID := call_stepID c @ ''_model_fallback'', call_roles := swap_role rc (call_roles c)\<rparr>"
    obtain cid2 result2 err2 s2 where second: "executeAgentStepWithShapeRetry agent sleep outcomes prior c' s1 = ((cid2, result2, err2), s2)"
      by (metis surj_pair)
    show ?thesis
    proof (cases "TrimSpace (sr_ModelFallback rc) = [] \<or> (\<not> isModelShapedFailure e \<and> \<not> isPersistentTimeoutFailure e)")
      case True
      with assms r1 e show ?thesis by (auto simp: executeAgentStepWithFallback_def failed_def)
    next
      case False
      with assms r1 e second have "s' = s2 \<and> (failed r \<longleftrightarrow> err2 \<noteq> None)"
        by (auto simp: executeAgentStepWithFallback_def Let_def failed_def c'_def split: option.splits)
      then show ?thesis using second r1 e
        by (intro disjI2 conjI exI [of _ c'] exI [of _ "(cid2, result2, err2)"]) (auto simp: failed_def c'_def)
    qed
  qed
qed

definition step_ids :: "string \<Rightarrow> string list" where
  "step_ids i = shape_ids i @ shape_ids (i @ ''_model_fallback'')"

lemma step_ids_distinct: "distinct (step_ids i)" and step_ids_length: "length (step_ids i) = 24"
proof -
  define sfx where "sfx = step_ids []"
  have ids: "infra_ids (i @ x) = map ((@) i) (infra_ids x)" for x
    by (simp add: infra_ids_def attempt_id_def comp_def)
  have eq: "step_ids i = map ((@) i) sfx"
    using ids [of "[]"] by (simp add: step_ids_def shape_ids_def sfx_def ids)
  have "distinct sfx" "length sfx = 24" unfolding sfx_def by code_simp+
  then show "distinct (step_ids i)" "length (step_ids i) = 24"
    unfolding eq by (simp_all add: distinct_map inj_on_def)
qed

lemma fallback_within:
  assumes "executeAgentStepWithFallback quote (observed_agent agent) (observed_sleep sleep) outcomes prior c role (s, evs)
    = (r, (s', evs'))"
  shows "\<exists>new. evs' = evs @ new \<and> run_within (step_ids (call_stepID c)) (4 * infra_nap) (\<not> failed r) new"
proof -
  obtain r1 s1 evs1 where first: "executeAgentStepWithShapeRetry (observed_agent agent) (observed_sleep sleep) outcomes
    prior c (s, evs) = (r1, (s1, evs1))" by (metis surj_pair)
  from shape_within [OF first] obtain new1 where new1: "evs1 = evs @ new1"
    "run_within (shape_ids (call_stepID c)) (infra_nap + infra_nap) (\<not> failed r1) new1" by blast
  have "(failed r \<longleftrightarrow> failed r1) \<and> evs' = evs1 \<or> failed r1 \<and> (\<exists>new2. evs' = evs1 @ new2 \<and>
      run_within (shape_ids (call_stepID c @ ''_model_fallback'')) (infra_nap + infra_nap) (\<not> failed r) new2)"
    using fallback_cases [OF assms first] shape_within by fastforce
  from layer_within [OF new1 _ this] show ?thesis by (simp add: step_ids_def infra_nap_value)
qed

text \<open>
  \<^bold>\<open>C32.\<close> Self-healing is bounded. Whatever the agent returns, whatever its errors say and however the
  stored outcomes read, one step runs the agent at most 24 times and sleeps at most 170 seconds in
  total; every run has its own step id, one of 24 derived from the step's, so audit rows never clash;
  no run follows a successful one, and the step succeeds exactly when its last run did.
\<close>

theorem step_attempts_bounded:
  assumes "executeAgentStepWithFallback quote (observed_agent agent) (observed_sleep sleep) outcomes prior c role (s, [])
    = (r, (s', evs))"
  shows "distinct (ran_ids evs) \<and> set (ran_ids evs) \<subseteq> set (step_ids (call_stepID c)) \<and> length (ran_ids evs) \<le> 24 \<and>
    slept evs \<le> 170 * Second \<and> (\<exists>n. ran_oks evs = replicate n False @ [\<not> failed r])"
proof -
  from fallback_within [OF assms] have within: "run_within (step_ids (call_stepID c)) (4 * infra_nap) (\<not> failed r) evs"
    by simp
  then have sub: "subseq (ran_ids evs) (step_ids (call_stepID c))" by (simp add: run_within_def)
  have "length (ran_ids evs) \<le> 24" using list_emb_length [OF sub] by (simp add: step_ids_length)
  moreover have "distinct (ran_ids evs)"
    by (rule subseqs_distinctD [of _ "step_ids (call_stepID c)"]) (simp_all add: sub step_ids_distinct)
  moreover have "set (ran_ids evs) \<subseteq> set (step_ids (call_stepID c))" using list_emb_set [OF sub] by blast
  ultimately show ?thesis using within by (simp add: run_within_def infra_nap_value Second_def)
qed

definition demo_call :: step_call where
  "demo_call = \<lparr>call_stepID = ''plan'', call_role = ''lead'', call_roles = [],
     call_timeout = 60 * Second, call_opts = no_opts\<rparr>"

text \<open>An agent that is refused the connection once.\<close>

definition demo_agent :: "nat agent" where
  "demo_agent c n = (([], [], if n = 0 then Some \<lparr>se_msg = ''curl: (7)'', se_retryable = False, se_chain = []\<rparr> else None), n + 1)"

theorem step_attempts_bounded_witness:
  "\<exists>r s' evs. executeAgentStepWithFallback id (observed_agent demo_agent) (observed_sleep (\<lambda>_ s. (False, s)))
     (\<lambda>_. None) id demo_call None (0, []) = (r, (s', evs)) \<and> length (ran_ids evs) \<le> 24 \<and> slept evs \<le> 170 * Second"
proof -
  obtain r s' evs where run: "executeAgentStepWithFallback id (observed_agent demo_agent) (observed_sleep (\<lambda>_ s. (False, s)))
     (\<lambda>_. None) id demo_call None (0, []) = (r, (s', evs))" by (metis surj_pair)
  from step_attempts_bounded [OF this] run show ?thesis by blast
qed

end
