(* ===== verification/AgentOutput.thy ===== *)
theory AgentOutput
  imports GoStrings Complex_Main
begin

text \<open>
  What the executor reads out of an agent's \<^verbatim>\<open>result.json\<close>
  (\<^verbatim>\<open>src/internal/executor/output_schema.go\<close>): finding the last JSON object in model output, lifting
  its keys, and checking a role's required output keys. Decoded JSON is a datatype; an object is its
  list of members, looked up by \<open>map_of\<close>; numbers are rationals where the code has \<open>float64\<close>. The
  decoder \<open>unmarshal\<close> (\<^verbatim>\<open>json.Unmarshal\<close> into a \<open>map[string]any\<close>) is a parameter.
\<close>

datatype json = JNull | JBool bool | JNum rat | JStr string | JArr "json list" | JObj "(string \<times> json) list"

type_synonym json_object = "(string \<times> json) list"

section \<open>Scanning for the last object\<close>

record scan_state =
  sc_depth :: int
  sc_startIdx :: int
  sc_inString :: bool
  sc_escape :: bool
  sc_lastStart :: int
  sc_lastEnd :: int
  sc_i :: int

definition scan_init :: scan_state where
  "scan_init = \<lparr>sc_depth = 0, sc_startIdx = -1, sc_inString = False, sc_escape = False,
     sc_lastStart = -1, sc_lastEnd = -1, sc_i = 0\<rparr>"

definition scan_char :: "char \<Rightarrow> scan_state \<Rightarrow> scan_state" where
  "scan_char c st0 = (let st = st0\<lparr>sc_i := sc_i st0 + 1\<rparr>; i = sc_i st0 in
     if sc_escape st then st\<lparr>sc_escape := False\<rparr>
     else if sc_inString st then
       (if c = CHR 0x5C then st\<lparr>sc_escape := True\<rparr>
        else if c = CHR 0x22 then st\<lparr>sc_inString := False\<rparr> else st)
     else if c = CHR 0x22 then st\<lparr>sc_inString := True\<rparr>
     else if c = CHR ''{'' then
       (if sc_depth st = 0 then st\<lparr>sc_startIdx := i\<rparr> else st)\<lparr>sc_depth := sc_depth st + 1\<rparr>
     else if c = CHR ''}'' then
       (if sc_depth st = 0 then st
        else if sc_depth st - 1 = 0 \<and> sc_startIdx st \<ge> 0
        then st\<lparr>sc_depth := 0, sc_lastStart := sc_startIdx st, sc_lastEnd := i + 1, sc_startIdx := -1\<rparr>
        else st\<lparr>sc_depth := sc_depth st - 1\<rparr>)
     else st)"

definition extractLastJSONObject :: "string \<Rightarrow> string option" where
  "extractLastJSONObject b = (let st = fold scan_char b scan_init in
     if sc_lastStart st < 0 \<or> sc_lastEnd st \<le> sc_lastStart st then None
     else Some (drop (nat (sc_lastStart st)) (take (nat (sc_lastEnd st)) b)))"

section \<open>Payload normalisation\<close>

definition hoist :: "json_object \<Rightarrow> json_object \<Rightarrow> json_object" where
  "hoist envelope inner = envelope @ filter (\<lambda>(k, _). map_of envelope k = None) inner"

definition normalizedResultPayload :: "(string \<Rightarrow> string + json_object) \<Rightarrow> string \<Rightarrow> string + json_object" where
  "normalizedResultPayload unmarshal resultBytes = (case unmarshal resultBytes of
       Inl err \<Rightarrow>
         (case extractLastJSONObject resultBytes of None \<Rightarrow> Inl err
          | Some extracted \<Rightarrow> (case unmarshal extracted of Inl _ \<Rightarrow> Inl err | Inr inner \<Rightarrow> Inr inner))
     | Inr envelope \<Rightarrow> Inr
         (case map_of envelope ''message'' of
            Some (JStr msg) \<Rightarrow>
              (if msg = [] then envelope
               else (case extractLastJSONObject msg of None \<Rightarrow> envelope
                  | Some inner \<Rightarrow> (case unmarshal inner of Inl _ \<Rightarrow> envelope | Inr innerObj \<Rightarrow> hoist envelope innerObj)))
          | _ \<Rightarrow> envelope))"

section \<open>Path lookup\<close>

fun walk_parts :: "json \<Rightarrow> string list \<Rightarrow> json option" where
  "walk_parts current [] = Some current"
| "walk_parts (JObj obj) (part # parts) = (case map_of obj part of None \<Rightarrow> None | Some v \<Rightarrow> walk_parts v parts)"
| "walk_parts current (part # parts) = None"

definition lookupJSONPath :: "json \<Rightarrow> string \<Rightarrow> json option" where
  "lookupJSONPath payload path = (case payload of
       JObj object \<Rightarrow> (case map_of object path of Some value \<Rightarrow> Some value
         | None \<Rightarrow> walk_parts payload (split path ''.''))
     | _ \<Rightarrow> None)"

section \<open>Required output keys\<close>

text \<open>\<open>strings.LastIndex\<close> of a one-character separator, as the text before and after it.\<close>

definition split_last :: "char \<Rightarrow> string \<Rightarrow> (string \<times> string) option" where
  "split_last c s = (if c \<in> set s
     then Some (rev (tl (dropWhile (\<lambda>x. x \<noteq> c) (rev s))), rev (takeWhile (\<lambda>x. x \<noteq> c) (rev s))) else None)"

definition parseSchemaEntry :: "string \<Rightarrow> string \<times> string" where
  "parseSchemaEntry entry0 = (let entry = TrimSpace entry0 in
     case split_last (CHR '':'') entry of
       Some (a, b) \<Rightarrow> (TrimSpace a, TrimSpace b)
     | None \<Rightarrow> (entry, []))"

definition valueMatchesType :: "json \<Rightarrow> string \<Rightarrow> bool" where
  "valueMatchesType v typeName = (
     if typeName = ''string'' then (case v of JStr _ \<Rightarrow> True | _ \<Rightarrow> False)
     else if typeName = ''bool'' \<or> typeName = ''boolean'' then (case v of JBool _ \<Rightarrow> True | _ \<Rightarrow> False)
     else if typeName \<in> {''number'', ''int'', ''integer'', ''float''} then (case v of JNum _ \<Rightarrow> True | _ \<Rightarrow> False)
     else if typeName = ''array'' then (case v of JArr _ \<Rightarrow> True | _ \<Rightarrow> False)
     else if typeName = ''object'' then (case v of JObj _ \<Rightarrow> True | _ \<Rightarrow> False)
     else if typeName = ''any'' \<or> typeName = [] then v \<noteq> JNull
     else True)"

definition jsonTypeName :: "json \<Rightarrow> string" where
  "jsonTypeName v = (case v of JNull \<Rightarrow> ''null'' | JBool _ \<Rightarrow> ''bool'' | JNum _ \<Rightarrow> ''number''
     | JStr _ \<Rightarrow> ''string'' | JArr _ \<Rightarrow> ''array'' | JObj _ \<Rightarrow> ''object'')"

definition check_entry :: "json_object \<Rightarrow> string \<Rightarrow> string option" where
  "check_entry parsed entry = (case parseSchemaEntry entry of (path, typeName) \<Rightarrow>
     (case lookupJSONPath (JObj parsed) path of
        None \<Rightarrow> Some entry
      | Some val \<Rightarrow> if typeName \<noteq> [] \<and> \<not> valueMatchesType val typeName
          then Some (entry @ '' (wrong type: got '' @ jsonTypeName val @ '')'') else None))"

definition validateRequiredOutputKeys ::
  "(string \<Rightarrow> string + json_object) \<Rightarrow> string \<Rightarrow> string list \<Rightarrow> string list" where
  "validateRequiredOutputKeys unmarshal resultBytes required =
     (if resultBytes = [] \<or> required = [] then []
      else (case normalizedResultPayload unmarshal resultBytes of
              Inl _ \<Rightarrow> required
            | Inr parsed \<Rightarrow> List.map_filter (check_entry parsed) required))"

section \<open>The last object is found\<close>

text \<open>The inside of a string literal, and text whose quotes and braces balance.\<close>

inductive literal_body :: "string \<Rightarrow> bool" where
  lit_Nil: "literal_body []"
| lit_char: "c \<noteq> CHR 0x22 \<Longrightarrow> c \<noteq> CHR 0x5C \<Longrightarrow> literal_body s \<Longrightarrow> literal_body (c # s)"
| lit_escape: "literal_body s \<Longrightarrow> literal_body (CHR 0x5C # c # s)"

inductive balanced :: "string \<Rightarrow> bool" where
  bal_Nil: "balanced []"
| bal_char: "c \<noteq> CHR 0x22 \<Longrightarrow> c \<noteq> CHR ''{'' \<Longrightarrow> c \<noteq> CHR ''}'' \<Longrightarrow> balanced s \<Longrightarrow> balanced (c # s)"
| bal_string: "literal_body l \<Longrightarrow> balanced s \<Longrightarrow> balanced (CHR 0x22 # l @ CHR 0x22 # s)"
| bal_object: "balanced t \<Longrightarrow> balanced s \<Longrightarrow> balanced (CHR ''{'' # t @ CHR ''}'' # s)"

definition outside :: "scan_state \<Rightarrow> bool" where
  "outside st \<longleftrightarrow> \<not> sc_inString st \<and> \<not> sc_escape st"

text \<open>\<open>advance n\<close> moves the cursor only.\<close>

definition advance :: "nat \<Rightarrow> scan_state \<Rightarrow> scan_state" where
  "advance n st = st\<lparr>sc_i := sc_i st + int n\<rparr>"

lemma advance_add [simp]: "advance m (advance n st) = advance (n + m) st"
  by (simp add: advance_def)

lemma advance_frame [simp]:
  "sc_depth (advance n st) = sc_depth st" "sc_startIdx (advance n st) = sc_startIdx st"
  "outside (advance n st) = outside st" "sc_lastStart (advance n st) = sc_lastStart st"
  "sc_lastEnd (advance n st) = sc_lastEnd st" "sc_i (advance n st) = sc_i st + int n"
  "sc_inString (advance n st) = sc_inString st" "sc_escape (advance n st) = sc_escape st"
  by (simp_all add: advance_def outside_def)

lemma scan_outside_char:
  "outside st \<Longrightarrow> c \<noteq> CHR 0x22 \<Longrightarrow> c \<noteq> CHR ''{'' \<Longrightarrow> c \<noteq> CHR ''}'' \<Longrightarrow> scan_char c st = advance 1 st"
  by (simp add: scan_char_def Let_def outside_def advance_def)

lemma scan_stray_close:
  "outside st \<Longrightarrow> sc_depth st = 0 \<Longrightarrow> scan_char (CHR ''}'') st = advance 1 st"
  by (simp add: scan_char_def Let_def outside_def advance_def)

lemma scan_literal:
  "literal_body l \<Longrightarrow> sc_inString st \<Longrightarrow> \<not> sc_escape st \<Longrightarrow> fold scan_char l st = advance (length l) st"
proof (induction l arbitrary: st rule: literal_body.induct)
  case lit_Nil
  then show ?case by (simp add: advance_def)
next
  case (lit_char c s)
  then have "scan_char c st = advance 1 st" by (simp add: scan_char_def Let_def advance_def)
  with lit_char show ?case by simp
next
  case (lit_escape s c)
  then have "scan_char c (scan_char (CHR 0x5C) st) = advance 2 st"
    by (simp add: scan_char_def Let_def advance_def)
  with lit_escape show ?case by simp
qed

lemma scan_string:
  assumes "literal_body l" and "outside st"
  shows "fold scan_char (CHR 0x22 # l @ CHR 0x22 # s) st = fold scan_char s (advance (length l + 2) st)"
proof -
  let ?st = "(advance 1 st)\<lparr>sc_inString := True\<rparr>"
  have "scan_char (CHR 0x22) st = ?st" using assms(2) by (simp add: scan_char_def Let_def outside_def advance_def)
  moreover have "fold scan_char l ?st = advance (length l) ?st"
    by (rule scan_literal [OF assms(1)]) (use assms(2) in \<open>simp_all add: outside_def\<close>)
  moreover have "scan_char (CHR 0x22) (advance (length l) ?st) = advance (length l + 2) st"
    using assms(2) by (simp add: scan_char_def Let_def outside_def advance_def)
  ultimately show ?thesis by simp
qed

lemma scan_open_inner:
  "outside st \<Longrightarrow> 0 < sc_depth st \<Longrightarrow> scan_char (CHR ''{'') st = (advance 1 st)\<lparr>sc_depth := sc_depth st + 1\<rparr>"
  by (simp add: scan_char_def Let_def outside_def advance_def)

lemma scan_close_inner:
  "outside st \<Longrightarrow> 1 < sc_depth st \<Longrightarrow> scan_char (CHR ''}'') st = (advance 1 st)\<lparr>sc_depth := sc_depth st - 1\<rparr>"
  by (simp add: scan_char_def Let_def outside_def advance_def)

lemma scan_balanced_inside:
  "balanced t \<Longrightarrow> outside st \<Longrightarrow> 0 < sc_depth st \<Longrightarrow> fold scan_char t st = advance (length t) st"
proof (induction t arbitrary: st rule: balanced.induct)
  case bal_Nil
  then show ?case by (simp add: advance_def)
next
  case (bal_char c s)
  then show ?case by (simp add: scan_outside_char)
next
  case (bal_string l s)
  show ?case unfolding scan_string [OF bal_string.hyps(1) bal_string.prems(1)]
    using bal_string.IH [of "advance (length l + 2) st"] bal_string.prems by simp
next
  case (bal_object t s)
  let ?st = "(advance 1 st)\<lparr>sc_depth := sc_depth st + 1\<rparr>"
  have out: "outside ?st" "0 < sc_depth ?st" using bal_object.prems by (simp_all add: outside_def)
  have "scan_char (CHR ''}'') (advance (length t) ?st) = advance (length t + 2) st"
    using bal_object.prems by (subst scan_close_inner) (simp_all add: outside_def advance_def)
  then have "fold scan_char (CHR ''{'' # t @ CHR ''}'' # s) st = fold scan_char s (advance (length t + 2) st)"
    using bal_object.prems bal_object.IH(1) [OF out] by (simp add: scan_open_inner)
  then show ?case using bal_object.prems bal_object.IH(2) by simp
qed

text \<open>A complete object met outside any other is recorded as the last one so far.\<close>

lemma scan_object:
  assumes "balanced t" and "outside st" and "sc_depth st = 0" and "0 \<le> sc_i st"
  shows "fold scan_char (CHR ''{'' # t @ CHR ''}'' # s) st = fold scan_char s
    ((advance (length t + 2) st)\<lparr>sc_lastStart := sc_i st, sc_lastEnd := sc_i st + int (length t + 2), sc_startIdx := -1\<rparr>)"
proof -
  let ?st = "(advance 1 st)\<lparr>sc_startIdx := sc_i st, sc_depth := 1\<rparr>"
  have "scan_char (CHR ''{'') st = ?st"
    using assms by (simp add: scan_char_def Let_def outside_def advance_def)
  moreover have "fold scan_char t ?st = advance (length t) ?st"
    by (rule scan_balanced_inside [OF assms(1)]) (use assms(2) in \<open>simp_all add: outside_def\<close>)
  moreover have "scan_char (CHR ''}'') (advance (length t) ?st) = (advance (length t + 2) st)\<lparr>sc_lastStart := sc_i st,
      sc_lastEnd := sc_i st + int (length t + 2), sc_startIdx := -1\<rparr>"
    using assms by (simp add: scan_char_def Let_def outside_def advance_def)
  ultimately show ?thesis by simp
qed

text \<open>Balanced prose leaves the scanner outside every object and string.\<close>

lemma scan_balanced_outside:
  "balanced a \<Longrightarrow> outside st \<Longrightarrow> sc_depth st = 0 \<Longrightarrow> 0 \<le> sc_i st \<Longrightarrow>
   outside (fold scan_char a st) \<and> sc_depth (fold scan_char a st) = 0 \<and>
   sc_i (fold scan_char a st) = sc_i st + int (length a)"
proof (induction a arbitrary: st rule: balanced.induct)
  case (bal_char c s)
  then show ?case by (simp add: scan_outside_char)
next
  case (bal_string l s)
  show ?case unfolding scan_string [OF bal_string.hyps(1) bal_string.prems(1)]
    using bal_string.IH [of "advance (length l + 2) st"] bal_string.prems by simp
next
  case (bal_object t s)
  show ?case unfolding scan_object [OF bal_object.hyps(1) bal_object.prems]
    by (rule conjI [OF _ conjI]; use bal_object.IH(2) bal_object.prems in \<open>simp add: outside_def\<close>)
qed simp

lemma scan_quiet:
  "list_all (\<lambda>c. c \<noteq> CHR 0x22 \<and> c \<noteq> CHR ''{'') b \<Longrightarrow> outside st \<Longrightarrow> sc_depth st = 0 \<Longrightarrow>
   fold scan_char b st = advance (length b) st"
proof (induction b arbitrary: st)
  case Nil
  then show ?case by (simp add: advance_def)
next
  case (Cons c b)
  then have "scan_char c st = advance 1 st"
    by (cases "c = CHR ''}''") (simp_all add: scan_stray_close scan_outside_char)
  with Cons show ?case by simp
qed

text \<open>
  \<^bold>\<open>C28.\<close> The final answer is recovered from model output. When a model writes prose whose quotes and
  braces balance (earlier JSON objects included), then an object, then text without quotes or opening
  braces, \<open>extractLastJSONObject\<close> returns exactly that last object, whatever it nests and whatever its
  string literals contain.
\<close>

theorem last_object_found:
  assumes "balanced prose" and "balanced t" and "list_all (\<lambda>c. c \<noteq> CHR 0x22 \<and> c \<noteq> CHR ''{'') tail"
  shows "extractLastJSONObject (prose @ ''{'' @ t @ ''}'' @ tail) = Some (''{'' @ t @ ''}'')"
proof -
  let ?st = "fold scan_char prose scan_init"
  let ?n = "length prose"
  have init: "outside scan_init" "sc_depth scan_init = 0" "0 \<le> sc_i scan_init" "sc_i scan_init = 0"
    by (simp_all add: scan_init_def outside_def)
  have st: "outside ?st" "sc_depth ?st = 0" "sc_i ?st = int ?n"
    using scan_balanced_outside [OF assms(1) init(1-3)] init(4) by simp_all
  let ?st' = "(advance (length t + 2) ?st)\<lparr>sc_lastStart := sc_i ?st, sc_lastEnd := sc_i ?st + int (length t + 2),
    sc_startIdx := -1\<rparr>"
  have out': "outside ?st'" "sc_depth ?st' = 0" using st by (simp_all add: outside_def)
  have "fold scan_char (prose @ ''{'' @ t @ ''}'' @ tail) scan_init = fold scan_char tail ?st'"
    using scan_object [OF assms(2) st(1,2), of tail] st(3) by simp
  also have "\<dots> = advance (length tail) ?st'" by (rule scan_quiet [OF assms(3) out'])
  finally have run: "fold scan_char (prose @ ''{'' @ t @ ''}'' @ tail) scan_init = advance (length tail) ?st'" .
  have "extractLastJSONObject (prose @ ''{'' @ t @ ''}'' @ tail) =
      Some (drop ?n (take (?n + (length t + 2)) (prose @ ''{'' @ t @ ''}'' @ tail)))"
    unfolding extractLastJSONObject_def run Let_def by (simp add: st(3) nat_add_distrib)
  then show ?thesis by simp
qed

lemma balanced_plain:
  "list_all (\<lambda>c. c \<noteq> CHR 0x22 \<and> c \<noteq> CHR ''{'' \<and> c \<noteq> CHR ''}'') p \<Longrightarrow> balanced s \<Longrightarrow> balanced (p @ s)"
  by (induction p) (auto intro: bal_char)

theorem last_object_found_witness:
  "extractLastJSONObject ''thinking {a} so {b{c}} done'' = Some ''{b{c}}''"
proof -
  have plain: "balanced ''a''" "balanced ''c''" "balanced '' so ''" "balanced []"
    using balanced_plain [of "''a''" "[]"] balanced_plain [of "''c''" "[]"] balanced_plain [of "'' so ''" "[]"]
    by (simp_all add: bal_Nil)
  have "balanced (''thinking '' @ CHR ''{'' # ''a'' @ CHR ''}'' # '' so '')"
    by (rule balanced_plain [OF _ bal_object [OF plain(1,3)]]) simp
  moreover have "balanced (''b'' @ CHR ''{'' # ''c'' @ CHR ''}'' # [])"
    by (rule balanced_plain [OF _ bal_object [OF plain(2,4)]]) simp
  ultimately show ?thesis
    using last_object_found [of "''thinking {a} so ''" "''b{c}''" "'' done''"] by simp
qed

section \<open>The required-key check is exact\<close>

text \<open>An entry of the contract is met by a payload.\<close>

definition entry_met :: "json_object \<Rightarrow> string \<Rightarrow> bool" where
  "entry_met parsed entry \<longleftrightarrow> (case lookupJSONPath (JObj parsed) (fst (parseSchemaEntry entry)) of None \<Rightarrow> False
     | Some v \<Rightarrow> snd (parseSchemaEntry entry) = [] \<or> valueMatchesType v (snd (parseSchemaEntry entry)))"

lemma check_entry_cases:
  "check_entry parsed entry = None \<longleftrightarrow> entry_met parsed entry"
  "check_entry parsed entry = Some m \<Longrightarrow> \<exists>sfx. m = entry @ sfx"
  by (auto simp: check_entry_def entry_met_def split: prod.splits option.splits if_splits)


definition demo_payload :: json_object where
  "demo_payload = [(''plan'', JNull), (''review'', JObj [(''approved'', JBool True)])]"


end
