(* ===== verification/Gates.thy ===== *)
theory Gates
  imports AgentOutput
begin

text \<open>
  Gate steps (\<^verbatim>\<open>src/internal/executor/gates.go\<close>): routing a workflow by conditions of the form
  \<open>path == literal && \<dots>\<close> on the previous step's JSON. \<open>quote\<close> stands for Go's \<open>%q\<close>. Errors keep
  their kind and arguments; \<open>gate_error_text\<close> is the message the code builds from them, which
  \<open>classifyGateEvalError\<close> searches.
\<close>

record workflow_gate =
  wg_Condition :: string
  wg_Target :: string

datatype gate_error =
    NoGates
  | ParseFailed string string
  | EmptySubterm string
  | UnsupportedCondition string
  | NoGateMatched "string list" string

section \<open>Literals\<close>

definition is_digit :: "char \<Rightarrow> bool" where
  "is_digit c \<longleftrightarrow> 48 \<le> (of_char c :: nat) \<and> (of_char c :: nat) \<le> 57"

definition digits_value :: "string \<Rightarrow> nat" where
  "digits_value ds = foldl (\<lambda>n c. 10 * n + (of_char c - 48)) 0 ds"

text \<open>A JSON number, with nothing after it.\<close>

definition parse_exponent :: "string \<Rightarrow> int option" where
  "parse_exponent s = (case s of [] \<Rightarrow> Some 0
     | c # r \<Rightarrow>
         if c = CHR ''e'' \<or> c = CHR ''E'' then
           (let (sg, ds) = (case r of d # r' \<Rightarrow> if d = CHR ''-'' then (-1, r') else if d = CHR ''+'' then (1, r') else (1, r)
                            | [] \<Rightarrow> (1, []))
            in if ds \<noteq> [] \<and> list_all is_digit ds then Some (sg * int (digits_value ds)) else None)
         else None)"

definition parse_fraction :: "string \<Rightarrow> (rat \<times> string) option" where
  "parse_fraction s = (case s of [] \<Rightarrow> Some (0, [])
     | c # r \<Rightarrow> if c = CHR ''.'' then
         (let ds = takeWhile is_digit r
          in if ds = [] then None
             else Some (of_nat (digits_value ds) / 10 ^ length ds, dropWhile is_digit r))
       else Some (0, s))"

definition parse_unsigned :: "string \<Rightarrow> rat option" where
  "parse_unsigned s = (let ip = takeWhile is_digit s; r = dropWhile is_digit s in
     if ip = [] \<or> (hd ip = CHR ''0'' \<and> length ip > 1) then None
     else (case parse_fraction r of None \<Rightarrow> None
       | Some (f, r') \<Rightarrow>
           (case parse_exponent r' of None \<Rightarrow> None
            | Some x \<Rightarrow> Some ((of_nat (digits_value ip) + f) *
                (if 0 \<le> x then 10 ^ nat x else 1 / 10 ^ nat (- x))))))"

definition json_number :: "string \<Rightarrow> rat option" where
  "json_number s = (case s of [] \<Rightarrow> None
     | c # r \<Rightarrow> if c = CHR ''-'' then map_option uminus (parse_unsigned r) else parse_unsigned s)"

definition parseGateValue :: "string \<Rightarrow> json" where
  "parseGateValue raw = (
     if raw = ''true'' then JBool True
     else if raw = ''false'' then JBool False
     else if raw = ''null'' then JNull
     else if length raw \<ge> 2 \<and> hd raw = CHR 0x22 \<and> last raw = CHR 0x22 then JStr (butlast (tl raw))
     else (case json_number raw of Some n \<Rightarrow> JNum n | None \<Rightarrow> JStr raw))"

section \<open>Conditions\<close>

definition evaluateSingleCondition :: "string \<Rightarrow> json \<Rightarrow> gate_error + bool" where
  "evaluateSingleCondition condition payload = (case split_two condition ''=='' of
       [l, r] \<Rightarrow>
         (case lookupJSONPath payload (TrimSpace l) of
            None \<Rightarrow> Inr False
          | Some actual \<Rightarrow> Inr (actual = parseGateValue (TrimSpace r)))
     | _ \<Rightarrow> Inl (UnsupportedCondition condition))"

fun all_subterms :: "string \<Rightarrow> string list \<Rightarrow> json \<Rightarrow> gate_error + bool" where
  "all_subterms condition [] payload = Inr True"
| "all_subterms condition (sub0 # subs) payload = (let sub = TrimSpace sub0 in
     if sub = [] then Inl (EmptySubterm condition)
     else (case evaluateSingleCondition sub payload of
             Inl e \<Rightarrow> Inl e
           | Inr matched \<Rightarrow> if \<not> matched then Inr False else all_subterms condition subs payload))"

definition evaluateGateCondition :: "string \<Rightarrow> json \<Rightarrow> gate_error + bool" where
  "evaluateGateCondition condition payload =
     (if contains condition ''&&'' then all_subterms condition (split condition ''&&'') payload
      else evaluateSingleCondition condition payload)"

section \<open>Gate steps\<close>

record gate_entry =
  ge_Condition :: string
  ge_Target :: string
  ge_Matched :: bool
  ge_Observed :: "json option"
  ge_Wanted :: "json option"
  ge_Err :: "gate_error option"

definition previewJSON :: "string \<Rightarrow> string" where
  "previewJSON raw = (if length raw > 300 then take 300 raw @ ''...'' else raw)"

definition gate_trace_entry :: "workflow_gate \<Rightarrow> json \<Rightarrow> gate_entry" where
  "gate_trace_entry g payload =
     (let base = \<lparr>ge_Condition = wg_Condition g, ge_Target = wg_Target g, ge_Matched = False,
                  ge_Observed = None, ge_Wanted = None, ge_Err = None\<rparr>
      in case split_two (wg_Condition g) ''=='' of
           [l, r] \<Rightarrow> if contains (wg_Condition g) ''&&'' then base
             else base\<lparr>ge_Observed := lookupJSONPath payload (TrimSpace l),
                       ge_Wanted := Some (parseGateValue (TrimSpace r))\<rparr>
         | _ \<Rightarrow> base)"

fun walk_gates ::
  "workflow_gate list \<Rightarrow> json \<Rightarrow> gate_entry list \<Rightarrow> (gate_error + string option) \<times> gate_entry list" where
  "walk_gates [] payload entries = (Inr None, entries)"
| "walk_gates (g # gs) payload entries = (let entry = gate_trace_entry g payload in
     case evaluateGateCondition (wg_Condition g) payload of
       Inl e \<Rightarrow> (Inl e, entries @ [entry\<lparr>ge_Err := Some e\<rparr>])
     | Inr matched \<Rightarrow>
         (if matched then (Inr (Some (wg_Target g)), entries @ [entry\<lparr>ge_Matched := True\<rparr>])
          else walk_gates gs payload (entries @ [entry])))"

definition evaluateGateStepTraced ::
  "(string \<Rightarrow> string + json_object) \<Rightarrow> workflow_gate list \<Rightarrow> string \<Rightarrow> (gate_error + string) \<times> gate_entry list" where
  "evaluateGateStepTraced unmarshal gates lastResult =
     (if gates = [] then (Inl NoGates, [])
      else (case (if lastResult = [] then Inr JNull
                  else (case normalizedResultPayload unmarshal lastResult of Inl e \<Rightarrow> Inl e | Inr obj \<Rightarrow> Inr (JObj obj))) of
          Inl e \<Rightarrow> (Inl (ParseFailed e (previewJSON lastResult)), [])
        | Inr payload \<Rightarrow>
            (case walk_gates gates payload [] of
               (Inl e, entries) \<Rightarrow> (Inl e, entries)
             | (Inr (Some target), entries) \<Rightarrow> (Inr target, entries)
             | (Inr None, entries) \<Rightarrow>
                 (Inl (NoGateMatched (map wg_Condition gates) (previewJSON lastResult)), entries))))"

section \<open>Classifying a failed evaluation\<close>

definition gate_error_text :: "(string \<Rightarrow> string) \<Rightarrow> gate_error \<Rightarrow> string" where
  "gate_error_text quote e = (case e of
       NoGates \<Rightarrow> ''gate step has no gates''
     | ParseFailed err preview \<Rightarrow> ''failed to parse gate input as JSON: '' @ err @ '' '' @
         map char_of [226, 128, 148 :: nat] @ '' agent response was: '' @ preview
     | EmptySubterm c \<Rightarrow> ''gate condition '' @ quote c @ '' has empty sub-term '' @
         map char_of [226, 128, 148 :: nat] @ '' check for trailing/double &&''
     | UnsupportedCondition c \<Rightarrow> ''unsupported gate condition '' @ quote c
     | NoGateMatched conditions preview \<Rightarrow> ''no gate condition matched (expected one of: ['' @
         join conditions '' | '' @ ''], got: '' @ preview @ '')'')"

definition classifyGateEvalError :: "string option \<Rightarrow> string \<times> string" where
  "classifyGateEvalError err = (case err of None \<Rightarrow> (''ok'', [])
     | Some msg \<Rightarrow>
         if contains msg ''failed to parse gate input as JSON'' then (''parse_error'', ''gate_invalid_json'')
         else if contains msg ''no gate condition matched'' then (''downstream_rejected'', ''gate_eval_failed'')
         else (''gate_failed'', ''gate_eval_failed''))"

text \<open>The format instructions appended to the prompt of a step with gates.\<close>

definition buildGatePromptSuffix :: "workflow_gate list \<Rightarrow> string" where
  "buildGatePromptSuffix gates =
     ''\<newline>\<newline>IMPORTANT: You MUST respond with a pure JSON object (no markdown, no extra text).\<newline>'' @
     ''The following conditions will be evaluated on your response to decide the next workflow step:\<newline>'' @
     join (map (\<lambda>g. ''  - '' @ wg_Condition g @ '' (routes to: '' @ wg_Target g @ '')'') gates) ''\<newline>'' @
     ''\<newline>\<newline>Your entire response must be a valid JSON object containing the fields referenced above.\<newline>'' @
     ''Do NOT wrap the JSON in markdown code fences. Do NOT include any text outside the JSON object.''"

section \<open>The meaning of a written condition\<close>

text \<open>
  A condition as an operator writes it: atoms \<open>path == literal\<close> joined by \<open>&&\<close>. Paths hold no white
  space, \<open>=\<close> or \<open>&\<close>; literals are \<open>null\<close>, booleans, integers and quoted strings without \<open>&\<close>.
\<close>

datatype gate_literal = LNull | LBool bool | LInt int | LStr string

fun literal_value :: "gate_literal \<Rightarrow> json" where
  "literal_value LNull = JNull"
| "literal_value (LBool b) = JBool b"
| "literal_value (LInt i) = JNum (of_int i)"
| "literal_value (LStr s) = JStr s"

fun literal_text :: "gate_literal \<Rightarrow> string" where
  "literal_text LNull = ''null''"
| "literal_text (LBool b) = (if b then ''true'' else ''false'')"
| "literal_text (LInt i) = show_int i"
| "literal_text (LStr s) = CHR 0x22 # s @ [CHR 0x22]"

definition plain_path :: "string \<Rightarrow> bool" where
  "plain_path p \<longleftrightarrow> p \<noteq> [] \<and> list_all (\<lambda>c. \<not> is_space c \<and> c \<noteq> CHR ''='' \<and> c \<noteq> CHR ''&'') p"

fun plain_literal :: "gate_literal \<Rightarrow> bool" where
  "plain_literal (LStr s) \<longleftrightarrow> CHR ''&'' \<notin> set s"
| "plain_literal _ \<longleftrightarrow> True"

definition atom_text :: "string \<times> gate_literal \<Rightarrow> string" where
  "atom_text a = fst a @ '' == '' @ literal_text (snd a)"

definition condition_text :: "(string \<times> gate_literal) list \<Rightarrow> string" where
  "condition_text atoms = join (map atom_text atoms) '' && ''"

definition atom_holds :: "json \<Rightarrow> string \<times> gate_literal \<Rightarrow> bool" where
  "atom_holds payload a \<longleftrightarrow> lookupJSONPath payload (fst a) = Some (literal_value (snd a))"

text \<open>Decimal text: digits only, no superfluous zero, and read back to the number.\<close>

lemma digit_char:
  "n < 10 \<Longrightarrow> is_digit (char_of (48 + n :: nat)) \<and> (of_char (char_of (48 + n :: nat)) :: nat) = 48 + n"
  by (simp add: is_digit_def)

lemma digit_char_zero: "n < 10 \<Longrightarrow> char_of (48 + n :: nat) = CHR ''0'' \<longleftrightarrow> n = 0"
proof
  assume n: "n < 10" "char_of (48 + n :: nat) = CHR ''0''"
  then have "(of_char (char_of (48 + n :: nat)) :: nat) = of_char (CHR ''0'')" by simp
  moreover have "(of_char (CHR ''0'') :: nat) = 48" by simp
  ultimately show "n = 0" using digit_char [OF n(1)] by simp
next
  have "char_of (48 :: nat) = CHR ''0''" by code_simp
  then show "n = 0 \<Longrightarrow> char_of (48 + n :: nat) = CHR ''0''" by simp
qed

lemma digits_value_snoc: "digits_value (ds @ [c]) = 10 * digits_value ds + (of_char c - 48)"
  by (simp add: digits_value_def)

lemma show_nat_props:
  "list_all is_digit (show_nat n) \<and> show_nat n \<noteq> [] \<and> (hd (show_nat n) = CHR ''0'' \<longleftrightarrow> n = 0) \<and>
   digits_value (show_nat n) = n"
proof (induction n rule: show_nat.induct)
  case (1 n)
  show ?case
  proof (cases "n < 10")
    case True
    then have "show_nat n = [char_of (48 + n)]" by (simp add: show_nat.simps)
    with True digit_char [OF True] digit_char_zero [OF True] show ?thesis by (simp add: digits_value_def)
  next
    case False
    then have eq: "show_nat n = show_nat (n div 10) @ [char_of (48 + n mod 10)]" by (subst show_nat.simps) simp
    have "digits_value (show_nat n) = 10 * (n div 10) + n mod 10"
      using 1 [OF False] digit_char [of "n mod 10"] by (simp add: eq digits_value_snoc)
    then have "digits_value (show_nat n) = n" by simp
    with 1 [OF False] digit_char [of "n mod 10"] False show ?thesis by (simp add: eq)
  qed
qed

lemma parse_unsigned_show_nat: "parse_unsigned (show_nat n) = Some (of_nat n)"
proof -
  note props = show_nat_props [of n]
  then have tw: "takeWhile is_digit (show_nat n) = show_nat n" "dropWhile is_digit (show_nat n) = []"
    by (auto simp: list_all_iff)
  have "n = 0 \<Longrightarrow> length (show_nat n) = 1" by (simp add: show_nat.simps)
  with props have "\<not> (show_nat n = [] \<or> (hd (show_nat n) = CHR ''0'' \<and> 1 < length (show_nat n)))" by auto
  then show ?thesis unfolding parse_unsigned_def Let_def tw using props
    by (simp add: parse_fraction_def parse_exponent_def)
qed

lemma show_int_chars: "\<forall>c \<in> set (show_int i). is_digit c \<or> c = CHR ''-''"
  using show_nat_props [of "nat i"] show_nat_props [of "nat (- i)"] by (auto simp: show_int_def list_all_iff)

lemma show_int_ne: "show_int i \<noteq> []"
  using show_nat_props [of "nat i"] by (auto simp: show_int_def)

lemma is_digit_not_minus: "is_digit c \<Longrightarrow> c \<noteq> CHR ''-''"
  by (auto simp: is_digit_def)

lemma json_number_show_int: "json_number (show_int i) = Some (of_int i)"
proof (cases "i < 0")
  case True
  then show ?thesis by (simp add: show_int_def json_number_def parse_unsigned_show_nat)
next
  case False
  obtain c r where cr: "show_nat (nat i) = c # r" using show_nat_props [of "nat i"] by (cases "show_nat (nat i)") auto
  with show_nat_props [of "nat i"] have "c \<noteq> CHR ''-''" by (auto dest: is_digit_not_minus)
  with False cr show ?thesis using parse_unsigned_show_nat [of "nat i"] by (simp add: show_int_def json_number_def)
qed

lemma digit_plain: "is_digit c \<or> c = CHR ''-'' \<Longrightarrow> \<not> is_space c \<and> c \<noteq> CHR 0x22 \<and> c \<noteq> CHR ''&'' \<and>
    c \<noteq> CHR ''n'' \<and> c \<noteq> CHR ''t'' \<and> c \<noteq> CHR ''f''"
  by (auto simp: is_digit_def is_space_def)

lemma show_int_plain: "c \<in> set (show_int i) \<Longrightarrow> \<not> is_space c \<and> c \<noteq> CHR 0x22 \<and> c \<noteq> CHR ''&'' \<and>
    c \<noteq> CHR ''n'' \<and> c \<noteq> CHR ''t'' \<and> c \<noteq> CHR ''f''"
  using show_int_chars [of i] digit_plain by blast

lemma parse_literal: "parseGateValue (literal_text l) = literal_value l"
proof (cases l)
  case (LInt i)
  have "hd (show_int i) \<in> set (show_int i)" using show_int_ne by simp
  then have "hd (show_int i) \<noteq> CHR ''n''" "hd (show_int i) \<noteq> CHR ''t''" "hd (show_int i) \<noteq> CHR ''f''"
    "hd (show_int i) \<noteq> CHR 0x22"
    using show_int_plain by blast+
  then have "show_int i \<noteq> ''true''" "show_int i \<noteq> ''false''" "show_int i \<noteq> ''null''" by auto
  with LInt \<open>hd (show_int i) \<noteq> CHR 0x22\<close> show ?thesis by (simp add: parseGateValue_def json_number_show_int)
qed (auto simp: parseGateValue_def butlast_append)

lemma literal_ends:
  "\<not> is_space (hd (literal_text l)) \<and> \<not> is_space (last (literal_text l)) \<and> literal_text l \<noteq> []"
proof (cases l)
  case (LInt i)
  have "hd (show_int i) \<in> set (show_int i)" "last (show_int i) \<in> set (show_int i)" using show_int_ne by simp_all
  then have "\<not> is_space (hd (show_int i))" "\<not> is_space (last (show_int i))" using show_int_plain by blast+
  with LInt show ?thesis using show_int_ne by simp
qed (auto simp: is_space_def)

lemma literal_text_trim: "TrimSpace (literal_text l) = literal_text l"
  using literal_ends by (intro TrimSpace_id) blast

lemma literal_text_amp: "plain_literal l \<Longrightarrow> CHR ''&'' \<notin> set (literal_text l)"
  using show_int_plain by (cases l) auto

lemma plain_path_trim: "plain_path p \<Longrightarrow> TrimSpace p = p"
  by (rule TrimSpace_id) (auto simp: plain_path_def list_all_iff)

lemma single_atom:
  assumes "plain_path p"
  shows "evaluateSingleCondition (p @ '' == '' @ literal_text l) payload = Inr (atom_holds payload (p, l))"
proof -
  have "CHR ''='' \<notin> set (p @ '' '')" using assms by (auto simp: plain_path_def list_all_iff)
  from split_two_first [OF this, of "''=''" "'' '' @ literal_text l"]
  have split: "split_two (p @ '' == '' @ literal_text l) ''=='' = [p @ '' '', '' '' @ literal_text l]" by simp
  have sp: "list_all is_space '' ''" by (simp add: is_space_def)
  have "TrimSpace (p @ '' '') = p"
    using TrimSpace_outer [of "[]" "'' ''" p] sp plain_path_trim [OF assms] by simp
  moreover have "TrimSpace ('' '' @ literal_text l) = literal_text l"
    using TrimSpace_outer [of "'' ''" "[]" "literal_text l"] sp literal_text_trim by simp
  ultimately show ?thesis
    unfolding evaluateSingleCondition_def split
    by (simp add: parse_literal atom_holds_def split: option.split)
qed

lemma atom_text_facts:
  assumes "plain_path (fst a)" and "plain_literal (snd a)"
  shows "CHR ''&'' \<notin> set (atom_text a)" and "TrimSpace (atom_text a) = atom_text a" and "atom_text a \<noteq> []"
proof -
  show "CHR ''&'' \<notin> set (atom_text a)"
    using assms literal_text_amp [of "snd a"] by (auto simp: atom_text_def plain_path_def list_all_iff)
  show "atom_text a \<noteq> []" by (simp add: atom_text_def)
  have "\<not> is_space (hd (fst a))" "fst a \<noteq> []" using assms(1) by (auto simp: plain_path_def list_all_iff)
  then show "TrimSpace (atom_text a) = atom_text a"
    using literal_ends [of "snd a"] by (intro TrimSpace_id) (auto simp: atom_text_def)
qed

lemma all_subterms_atoms:
  assumes "list_all (\<lambda>a. plain_path (fst a) \<and> plain_literal (snd a)) atoms"
    and "list_all2 (\<lambda>t a. TrimSpace t = atom_text a) texts atoms"
  shows "all_subterms cond texts payload = Inr (list_all (atom_holds payload) atoms)"
  using assms(2,1)
proof (induction rule: list_all2_induct)
  case (Cons t ts a as)
  then have "evaluateSingleCondition (atom_text a) payload = Inr (atom_holds payload a)"
    using single_atom [of "fst a" "snd a" payload] by (simp add: atom_text_def)
  with Cons show ?case by (simp add: Let_def atom_text_facts(3))
qed simp

lemma split_atoms:
  assumes "list_all (\<lambda>a. plain_path (fst a) \<and> plain_literal (snd a)) (a # atoms)" and "list_all is_space sp"
  shows "list_all2 (\<lambda>t a. TrimSpace t = atom_text a) (split (sp @ condition_text (a # atoms)) ''&&'') (a # atoms)"
  using assms
proof (induction atoms arbitrary: a sp)
  case Nil
  have "CHR ''&'' \<notin> set sp" using Nil.prems(2) by (auto simp: list_all_iff is_space_def)
  then have "CHR ''&'' \<notin> set (sp @ atom_text a)" using Nil.prems atom_text_facts(1) [of a] by simp
  from split_fresh [OF this, of "''&''"] show ?case
    using TrimSpace_outer [of sp "[]" "atom_text a"] Nil.prems atom_text_facts(2) [of a] by (simp add: condition_text_def)
next
  case (Cons b atoms)
  have "CHR ''&'' \<notin> set sp" using Cons.prems(2) by (auto simp: list_all_iff is_space_def)
  then have fresh: "CHR ''&'' \<notin> set (sp @ atom_text a @ '' '')" using Cons.prems atom_text_facts(1) [of a] by simp
  have layout: "sp @ condition_text (a # b # atoms) =
      (sp @ atom_text a @ '' '') @ (CHR ''&'' # ''&'') @ ('' '' @ condition_text (b # atoms))"
    by (simp add: condition_text_def)
  have "list_all is_space '' ''" by (simp add: is_space_def)
  with Cons.IH [of b "'' ''"] Cons.prems(1) have rest: "list_all2 (\<lambda>t a. TrimSpace t = atom_text a)
      (split ('' '' @ condition_text (b # atoms)) ''&&'') (b # atoms)" by simp
  have "TrimSpace (sp @ atom_text a @ '' '') = atom_text a"
    using TrimSpace_outer [of sp "'' ''" "atom_text a"] Cons.prems atom_text_facts(2) [of a]
      \<open>list_all is_space '' ''\<close> by simp
  with rest show ?case unfolding layout split_first [OF fresh] by simp
qed



section \<open>Routing\<close>

lemma gate_trace_entry_frame [simp]:
  "ge_Target (gate_trace_entry g p) = wg_Target g" "ge_Matched (gate_trace_entry g p) = False"
  by (simp_all add: gate_trace_entry_def Let_def split: list.split)

lemma walk_gates_skip:
  "list_all (\<lambda>g. evaluateGateCondition (wg_Condition g) p = Inr False) pre \<Longrightarrow>
   walk_gates (pre @ gs) p es = walk_gates gs p (es @ map (\<lambda>g. gate_trace_entry g p) pre)"
  by (induction pre arbitrary: es) (simp_all add: Let_def)

lemma walk_gates_some:
  "walk_gates gs p es = (Inr (Some t), es') \<Longrightarrow> \<exists>pre g post. gs = pre @ g # post \<and> wg_Target g = t \<and>
     evaluateGateCondition (wg_Condition g) p = Inr True \<and>
     list_all (\<lambda>g. evaluateGateCondition (wg_Condition g) p = Inr False) pre"
proof (induction gs arbitrary: es)
  case (Cons g gs)
  show ?case
  proof (cases "evaluateGateCondition (wg_Condition g) p")
    case (Inl e)
    with Cons.prems show ?thesis by (simp add: Let_def)
  next
    case (Inr matched)
    show ?thesis
    proof (cases matched)
      case True
      with Cons.prems Inr show ?thesis by (intro exI [of _ "[]"]) (simp add: Let_def)
    next
      case False
      with Cons.prems Inr have "walk_gates gs p (es @ [gate_trace_entry g p]) = (Inr (Some t), es')" by (simp add: Let_def)
      from Cons.IH [OF this] obtain pre h post where "gs = pre @ h # post" "wg_Target h = t"
        "evaluateGateCondition (wg_Condition h) p = Inr True"
        "list_all (\<lambda>g. evaluateGateCondition (wg_Condition g) p = Inr False) pre" by blast
      with False Inr show ?thesis by (intro exI [of _ "g # pre"]) simp
    qed
  qed
qed simp

text \<open>The gate that decides: it holds, and those before it were evaluated and did not.\<close>

definition deciding_gate :: "json \<Rightarrow> workflow_gate list \<Rightarrow> workflow_gate list \<Rightarrow> workflow_gate \<Rightarrow> bool" where
  "deciding_gate payload gates pre g \<longleftrightarrow> (\<exists>post. gates = pre @ g # post) \<and>
     evaluateGateCondition (wg_Condition g) payload = Inr True \<and>
     list_all (\<lambda>g. evaluateGateCondition (wg_Condition g) payload = Inr False) pre"

lemma gate_step_walk:
  assumes "gates \<noteq> []" and "raw \<noteq> []" and "normalizedResultPayload unmarshal raw = Inr obj"
  shows "evaluateGateStepTraced unmarshal gates raw = (case walk_gates gates (JObj obj) [] of
      (Inl e, entries) \<Rightarrow> (Inl e, entries) | (Inr (Some target), entries) \<Rightarrow> (Inr target, entries)
    | (Inr None, entries) \<Rightarrow> (Inl (NoGateMatched (map wg_Condition gates) (previewJSON raw)), entries))"
  using assms by (simp add: evaluateGateStepTraced_def)

lemma walk_gates_match:
  assumes "deciding_gate payload gates pre g"
  shows "\<exists>es. walk_gates gates payload [] = (Inr (Some (wg_Target g)), es) \<and>
    map ge_Target es = map wg_Target (pre @ [g]) \<and> map ge_Matched es = replicate (length pre) False @ [True]"
proof -
  from assms obtain post where post: "gates = pre @ g # post"
    "evaluateGateCondition (wg_Condition g) payload = Inr True"
    "list_all (\<lambda>g. evaluateGateCondition (wg_Condition g) payload = Inr False) pre"
    unfolding deciding_gate_def by blast
  then show ?thesis by (simp add: walk_gates_skip Let_def comp_def map_replicate_const)
qed

lemma no_match_text:
  fixes quote conds raw
  defines "msg \<equiv> gate_error_text quote (NoGateMatched conds (previewJSON raw))"
  shows "contains msg ''no gate condition matched''" and "contains (take 300 raw) x \<Longrightarrow> contains msg x"
proof -
  have "msg = [] @ ''no gate condition matched'' @ ('' (expected one of: ['' @ join conds '' | '' @ ''], got: '' @
      previewJSON raw @ '')'')"
    by (simp add: gate_error_text_def msg_def)
  then show "contains msg ''no gate condition matched''" by (simp only: contains_append)
  let ?a = "''no gate condition matched (expected one of: ['' @ join conds '' | '' @ ''], got: ''"
  let ?b = "(if length raw > 300 then ''...'' else []) @ '')''"
  have "msg = ?a @ take 300 raw @ ?b" by (simp add: gate_error_text_def msg_def previewJSON_def)
  then show "contains (take 300 raw) x \<Longrightarrow> contains msg x" using contains_mono by metis
qed

text \<open>
  \<^bold>\<open>C31.\<close> Routing. A gate step goes to a target exactly when some gate with that target holds and all
  gates before it were evaluated without error and did not hold; its trace then lists those gates, the
  last one alone marked as matched. When no gate holds, the step fails with an error that
  \<open>classifyGateEvalError\<close> blames on the consumer (\<open>downstream_rejected\<close>), unless the error text holds
  the words the classifier looks for first; it does whenever the agent's response holds them in its
  first 300 characters, and then a response that parsed is classified as malformed JSON.
\<close>

theorem gate_step_routing:
  assumes "gates \<noteq> []" and "raw \<noteq> []" and "normalizedResultPayload unmarshal raw = Inr obj"
  shows "((\<exists>es. evaluateGateStepTraced unmarshal gates raw = (Inr t, es)) \<longleftrightarrow>
      (\<exists>pre g. deciding_gate (JObj obj) gates pre g \<and> wg_Target g = t)) \<and>
    (\<forall>pre g. deciding_gate (JObj obj) gates pre g \<longrightarrow>
      (\<exists>es. evaluateGateStepTraced unmarshal gates raw = (Inr (wg_Target g), es) \<and>
        map ge_Target es = map wg_Target (pre @ [g]) \<and> map ge_Matched es = replicate (length pre) False @ [True])) \<and>
    (list_all (\<lambda>g. evaluateGateCondition (wg_Condition g) (JObj obj) = Inr False) gates \<longrightarrow>
      (\<exists>e es. evaluateGateStepTraced unmarshal gates raw = (Inl e, es) \<and>
        classifyGateEvalError (Some (gate_error_text quote e)) =
          (if contains (gate_error_text quote e) ''failed to parse gate input as JSON''
           then (''parse_error'', ''gate_invalid_json'') else (''downstream_rejected'', ''gate_eval_failed'')) \<and>
        (contains (take 300 raw) ''failed to parse gate input as JSON'' \<longrightarrow>
           contains (gate_error_text quote e) ''failed to parse gate input as JSON'')))"
proof (intro conjI allI impI)
  note step = gate_step_walk [OF assms]
  show match: "\<exists>es. evaluateGateStepTraced unmarshal gates raw = (Inr (wg_Target g), es) \<and>
      map ge_Target es = map wg_Target (pre @ [g]) \<and> map ge_Matched es = replicate (length pre) False @ [True]"
    if "deciding_gate (JObj obj) gates pre g" for pre g
    using walk_gates_match [OF that] by (auto simp: step)
  show "(\<exists>es. evaluateGateStepTraced unmarshal gates raw = (Inr t, es)) \<longleftrightarrow>
      (\<exists>pre g. deciding_gate (JObj obj) gates pre g \<and> wg_Target g = t)"
  proof
    assume "\<exists>es. evaluateGateStepTraced unmarshal gates raw = (Inr t, es)"
    then obtain es where "walk_gates gates (JObj obj) [] = (Inr (Some t), es)"
      by (auto simp: step split: prod.splits sum.splits option.splits)
    from walk_gates_some [OF this] show "\<exists>pre g. deciding_gate (JObj obj) gates pre g \<and> wg_Target g = t"
      unfolding deciding_gate_def by blast
  qed (use match in blast)
  assume none: "list_all (\<lambda>g. evaluateGateCondition (wg_Condition g) (JObj obj) = Inr False) gates"
  let ?e = "NoGateMatched (map wg_Condition gates) (previewJSON raw)"
  have "\<exists>es. evaluateGateStepTraced unmarshal gates raw = (Inl ?e, es)"
    using walk_gates_skip [OF none, of "[]" "[]"] by (simp add: step)
  then show "\<exists>e es. evaluateGateStepTraced unmarshal gates raw = (Inl e, es) \<and>
        classifyGateEvalError (Some (gate_error_text quote e)) =
          (if contains (gate_error_text quote e) ''failed to parse gate input as JSON''
           then (''parse_error'', ''gate_invalid_json'') else (''downstream_rejected'', ''gate_eval_failed'')) \<and>
        (contains (take 300 raw) ''failed to parse gate input as JSON'' \<longrightarrow>
           contains (gate_error_text quote e) ''failed to parse gate input as JSON'')"
    using no_match_text by (auto simp: classifyGateEvalError_def)
qed

definition demo_gates :: "workflow_gate list" where
  "demo_gates = [\<lparr>wg_Condition = ''ok == true'', wg_Target = ''done''\<rparr>, \<lparr>wg_Condition = ''ok == false'', wg_Target = ''redo''\<rparr>]"

theorem gate_step_routing_witness:
  "\<exists>es. evaluateGateStepTraced (\<lambda>_. Inr [(''ok'', JBool False)]) demo_gates ''x'' = (Inr ''redo'', es)"
proof -
  have "deciding_gate (JObj [(''ok'', JBool False)]) demo_gates (take 1 demo_gates) (demo_gates ! 1)"
    unfolding deciding_gate_def by (intro conjI exI [of _ "[]"]) code_simp+
  moreover have "wg_Target (demo_gates ! 1) = ''redo''" by code_simp
  moreover have "demo_gates \<noteq> []" by (simp add: demo_gates_def)
  moreover have "normalizedResultPayload (\<lambda>_. Inr [(''ok'', JBool False)]) ''x'' = Inr [(''ok'', JBool False)]"
    by (simp add: normalizedResultPayload_def)
  ultimately show ?thesis
    using gate_step_routing [of demo_gates "''x''" "\<lambda>_. Inr [(''ok'', JBool False)]" "[(''ok'', JBool False)]" "''redo''"]
    by blast
qed

end
