(* ===== verification/ToolBudget.thy ===== *)
theory ToolBudget
  imports AgentCall Complex_Main
begin

text \<open>
  The dynamic tool budget (\<^verbatim>\<open>src/internal/toolbudget/toolbudget.go\<close> and
  \<^verbatim>\<open>src/internal/executor/tool_budget_inject.go\<close>): a complexity verdict scales a role's tool
  iterations and its step's wall-clock by one factor, and each tool call inside a step gets a timeout below
  the step's. The factors are rationals where the code has \<open>float64\<close>; \<open>atoi\<close> stands for \<open>strconv.Atoi\<close>.
\<close>

record tool_budget_config =
  tb_Enabled :: bool
  tb_Factors :: "string \<rightharpoonup> rat"
  tb_MaxFactor :: rat
  tb_AutonomyMaxFactor :: rat
  tb_MinStepTimeout :: nanos

definition TierTrivial :: string where "TierTrivial = ''trivial''"
definition TierStandard :: string where "TierStandard = ''standard''"
definition TierComplex :: string where "TierComplex = ''complex''"
definition TierOpenEnded :: string where "TierOpenEnded = ''open_ended''"

text \<open>\<open>math.Round\<close>: to the nearest integer, halves away from zero.\<close>

definition math_Round :: "rat \<Rightarrow> int" where
  "math_Round x = (if x \<ge> 0 then \<lfloor>x + 1 / 2\<rfloor> else \<lceil>x - 1 / 2\<rceil>)"

definition tier_factor :: "string \<Rightarrow> tool_budget_config \<Rightarrow> rat" where
  "tier_factor tier cfg = (let t = TrimSpace tier in
     if t = [] then 1 else (case tb_Factors cfg t of Some f \<Rightarrow> f | None \<Rightarrow> 1))"

definition factorFor :: "string \<Rightarrow> bool \<Rightarrow> tool_budget_config \<Rightarrow> rat" where
  "factorFor tier autonomous cfg =
     (let factor = tier_factor tier cfg;
          factor = (if tb_MaxFactor cfg > 0 \<and> factor > tb_MaxFactor cfg then tb_MaxFactor cfg else factor)
      in if autonomous \<and> tb_AutonomyMaxFactor cfg > 0 \<and> factor > tb_AutonomyMaxFactor cfg
         then tb_AutonomyMaxFactor cfg else factor)"

definition ScaleTimeout :: "nanos \<Rightarrow> string \<Rightarrow> bool \<Rightarrow> tool_budget_config \<Rightarrow> nanos" where
  "ScaleTimeout base tier autonomous cfg =
     (if \<not> tb_Enabled cfg \<or> base \<le> 0 then base
      else (let scaled = math_Round (of_int base * factorFor tier autonomous cfg);
                flr = (if tb_MinStepTimeout cfg > base then base else tb_MinStepTimeout cfg)
            in if scaled < flr then flr else scaled))"

definition Resolve :: "int \<Rightarrow> string \<Rightarrow> bool \<Rightarrow> tool_budget_config \<Rightarrow> int" where
  "Resolve roleBase tier autonomous cfg =
     (if \<not> tb_Enabled cfg then roleBase
      else (let effective = math_Round (of_int roleBase * factorFor tier autonomous cfg)
            in if effective < 1 then 1 else effective))"

definition applyStepTimeoutBudget ::
  "nanos \<Rightarrow> swarm_role option \<Rightarrow> string \<Rightarrow> bool \<Rightarrow> tool_budget_config \<Rightarrow> nanos" where
  "applyStepTimeoutBudget native roleConfig tier autonomous cfg =
     (case roleConfig of
        None \<Rightarrow> native
      | Some r \<Rightarrow> if \<not> tb_Enabled cfg \<or> sr_RuntimePolicy r = ''warm'' then native
                  else ScaleTimeout native tier autonomous cfg)"

definition perCallTimeoutFloor :: nanos where "perCallTimeoutFloor = 20 * Second"

definition defaultAgentShellTimeout :: nanos where "defaultAgentShellTimeout = 300 * Second"

text \<open>The cap of half the step: converting the positive float truncates.\<close>

definition perCallTimeoutForStep :: "nanos \<Rightarrow> nanos \<Rightarrow> nanos" where
  "perCallTimeoutForStep stepTimeout configuredCeiling =
     (let capped = stepTimeout div 2;
          out1 = (if stepTimeout > 0 \<and> (configuredCeiling \<le> 0 \<or> capped < configuredCeiling) then capped
                  else configuredCeiling)
      in if out1 \<le> 0 then 0
         else (let out2 = (if out1 < perCallTimeoutFloor then perCallTimeoutFloor else out1)
               in if stepTimeout > 0 \<and> out2 \<ge> stepTimeout then stepTimeout - Second else out2))"

definition defaultAgentToolIterations :: int where "defaultAgentToolIterations = 30"

definition roleToolBudgetBase :: "(string \<Rightarrow> int option) \<Rightarrow> swarm_role option \<Rightarrow> int" where
  "roleToolBudgetBase atoi roleConfig =
     (case roleConfig of
        None \<Rightarrow> defaultAgentToolIterations
      | Some r \<Rightarrow>
          if sr_MaxToolIterations r = [] then defaultAgentToolIterations
          else (case atoi (sr_MaxToolIterations r) of
                  Some n \<Rightarrow> if n > 0 then n else defaultAgentToolIterations
                | None \<Rightarrow> defaultAgentToolIterations))"

definition validComplexityTier :: "string \<Rightarrow> string" where
  "validComplexityTier s = (if s \<in> {TierTrivial, TierStandard, TierComplex, TierOpenEnded} then s else [])"

text \<open>The effective iteration budget and whether it is injected.\<close>

definition resolveRoleToolBudget ::
  "(string \<Rightarrow> int option) \<Rightarrow> swarm_role option \<Rightarrow> string \<Rightarrow> bool \<Rightarrow> tool_budget_config \<Rightarrow> int \<times> bool" where
  "resolveRoleToolBudget atoi roleConfig tier autonomous cfg =
     (if \<not> tb_Enabled cfg then (0, False)
      else if (case roleConfig of Some r \<Rightarrow> sr_RuntimePolicy r = ''warm'' | None \<Rightarrow> False) then (0, False)
      else (Resolve (roleToolBudgetBase atoi roleConfig) tier autonomous cfg, True))"

section \<open>Rounding\<close>

lemma math_Round_of_int [simp]: "math_Round (of_int n) = n"
proof -
  have "\<lfloor>of_int n + (1 / 2 :: rat)\<rfloor> = n" by linarith
  moreover have "\<lceil>of_int n - (1 / 2 :: rat)\<rceil> = n" by linarith
  ultimately show ?thesis by (simp add: math_Round_def)
qed

lemma math_Round_mono:
  assumes "x \<le> y" shows "math_Round x \<le> math_Round y"
proof -
  consider "x \<ge> 0" | "y < 0" | "x < 0" "y \<ge> 0" by linarith
  then show ?thesis
  proof cases
    case 1 with assms show ?thesis by (simp add: math_Round_def floor_mono)
  next
    case 2 with assms show ?thesis by (simp add: math_Round_def ceiling_mono)
  next
    case 3
    then have "math_Round x \<le> 0" by (simp add: math_Round_def ceiling_le_iff)
    also from 3 have "0 \<le> math_Round y" by (simp add: math_Round_def le_floor_iff)
    finally show ?thesis .
  qed
qed

lemma factorFor_le_max: "tb_MaxFactor cfg > 0 \<Longrightarrow> factorFor tier autonomous cfg \<le> tb_MaxFactor cfg"
  by (simp add: factorFor_def Let_def)

lemma factorFor_le_autonomy:
  "tb_AutonomyMaxFactor cfg > 0 \<Longrightarrow> factorFor tier True cfg \<le> tb_AutonomyMaxFactor cfg"
  by (simp add: factorFor_def Let_def)

definition sane_budget :: "tool_budget_config \<Rightarrow> bool" where
  "sane_budget cfg \<longleftrightarrow> tb_Enabled cfg \<and> 1 \<le> tb_MaxFactor cfg \<and> 1 \<le> tb_AutonomyMaxFactor cfg"

lemma unclassified_factor:
  assumes "sane_budget cfg" and "TrimSpace tier = [] \<or> tb_Factors cfg (TrimSpace tier) = None"
  shows "factorFor tier autonomous cfg = 1"
  using assms by (auto simp: factorFor_def tier_factor_def sane_budget_def Let_def)

lemma scale_mono_factor:
  assumes "factorFor t1 a1 cfg \<le> factorFor t2 a2 cfg" and "0 \<le> n"
  shows "math_Round (of_int n * factorFor t1 a1 cfg) \<le> math_Round (of_int n * factorFor t2 a2 cfg)"
  by (rule math_Round_mono) (use assms in \<open>simp add: mult_left_mono\<close>)

section \<open>Properties\<close>

text \<open>The floor that \<open>ScaleTimeout\<close> applies never exceeds the native timeout.\<close>

lemma ScaleTimeout_bounds:
  assumes "tb_Enabled cfg" and "0 < base" and "0 < tb_MaxFactor cfg"
  shows "min base (tb_MinStepTimeout cfg) \<le> ScaleTimeout base tier autonomous cfg"
    and "ScaleTimeout base tier autonomous cfg
           \<le> max (min base (tb_MinStepTimeout cfg)) (math_Round (of_int base * tb_MaxFactor cfg))"
proof -
  have "math_Round (of_int base * factorFor tier autonomous cfg) \<le> math_Round (of_int base * tb_MaxFactor cfg)"
    by (rule math_Round_mono) (use assms factorFor_le_max in \<open>simp add: mult_left_mono\<close>)
  with assms show "min base (tb_MinStepTimeout cfg) \<le> ScaleTimeout base tier autonomous cfg"
    and "ScaleTimeout base tier autonomous cfg
           \<le> max (min base (tb_MinStepTimeout cfg)) (math_Round (of_int base * tb_MaxFactor cfg))"
    by (simp_all add: ScaleTimeout_def Let_def min_def max_def)
qed

lemma ScaleTimeout_unclassified:
  assumes "sane_budget cfg" and "TrimSpace tier = [] \<or> tb_Factors cfg (TrimSpace tier) = None"
  shows "ScaleTimeout base tier autonomous cfg = base" and "1 \<le> n \<Longrightarrow> Resolve n tier autonomous cfg = n"
  using assms(1) by (simp_all add: ScaleTimeout_def Resolve_def sane_budget_def Let_def unclassified_factor [OF assms])

lemma ScaleTimeout_mono:
  assumes "factorFor t1 a1 cfg \<le> factorFor t2 a2 cfg"
  shows "ScaleTimeout base t1 a1 cfg \<le> ScaleTimeout base t2 a2 cfg"
proof (cases "base \<le> 0")
  case False
  then show ?thesis using scale_mono_factor [OF assms, of base] by (auto simp: ScaleTimeout_def Let_def)
qed (simp add: ScaleTimeout_def)

lemma Resolve_mono:
  assumes "factorFor t1 a1 cfg \<le> factorFor t2 a2 cfg" and "0 \<le> n"
  shows "Resolve n t1 a1 cfg \<le> Resolve n t2 a2 cfg"
  using scale_mono_factor [OF assms] by (auto simp: Resolve_def Let_def)

text \<open>
  A worker's iteration budget and its step's wall-clock move together. For one role, one verdict
  and a configuration whose ceilings are at least 1: a warm or unresolved role and a task no planner
  classified keep the native timeout (and, where a budget is injected at all, the role's own iterations); a
  verdict with a larger effective factor never lowers either budget; the timeout stays between the floor
  (or the native timeout, if that is shorter) and the native timeout times the ceiling; an injected budget is
  never below one iteration.
\<close>

theorem budgets_move_together:
  assumes "sane_budget cfg" and "0 < native"
  shows "(roleConfig = None \<or> (\<exists>r. roleConfig = Some r \<and> sr_RuntimePolicy r = ''warm'') \<or>
           TrimSpace tier = [] \<or> tb_Factors cfg (TrimSpace tier) = None
           \<longrightarrow> applyStepTimeoutBudget native roleConfig tier autonomous cfg = native)
       \<and> (factorFor tier autonomous cfg \<le> factorFor tier2 autonomous2 cfg
           \<longrightarrow> applyStepTimeoutBudget native roleConfig tier autonomous cfg
                 \<le> applyStepTimeoutBudget native roleConfig tier2 autonomous2 cfg
             \<and> fst (resolveRoleToolBudget atoi roleConfig tier autonomous cfg)
                 \<le> fst (resolveRoleToolBudget atoi roleConfig tier2 autonomous2 cfg))
       \<and> min native (tb_MinStepTimeout cfg) \<le> applyStepTimeoutBudget native roleConfig tier autonomous cfg
       \<and> applyStepTimeoutBudget native roleConfig tier autonomous cfg
           \<le> math_Round (of_int native * tb_MaxFactor cfg)
       \<and> (snd (resolveRoleToolBudget atoi roleConfig tier autonomous cfg)
           \<longrightarrow> 1 \<le> fst (resolveRoleToolBudget atoi roleConfig tier autonomous cfg)
             \<and> (TrimSpace tier = [] \<longrightarrow> fst (resolveRoleToolBudget atoi roleConfig tier autonomous cfg)
                  = roleToolBudgetBase atoi roleConfig))"
proof -
  have pos: "0 < roleToolBudgetBase atoi roleConfig"
    by (auto simp: roleToolBudgetBase_def defaultAgentToolIterations_def split: option.split)
  have top: "native \<le> math_Round (of_int native * tb_MaxFactor cfg)"
  proof -
    have "math_Round (of_int native * 1) \<le> math_Round (of_int native * tb_MaxFactor cfg)"
      by (rule math_Round_mono) (use assms in \<open>simp add: sane_budget_def mult_left_mono\<close>)
    then show ?thesis by simp
  qed
  have en: "tb_Enabled cfg" "0 < tb_MaxFactor cfg" using assms by (auto simp: sane_budget_def)
  note sc = ScaleTimeout_bounds [OF en(1) assms(2) en(2)]
  note un = ScaleTimeout_unclassified [OF assms(1)]
  have "roleConfig = None \<or> (\<exists>r. roleConfig = Some r \<and> sr_RuntimePolicy r = ''warm'') \<or>
           TrimSpace tier = [] \<or> tb_Factors cfg (TrimSpace tier) = None
           \<longrightarrow> applyStepTimeoutBudget native roleConfig tier autonomous cfg = native"
    using un by (auto simp: applyStepTimeoutBudget_def split: option.split)
  moreover have "factorFor tier autonomous cfg \<le> factorFor tier2 autonomous2 cfg
           \<longrightarrow> applyStepTimeoutBudget native roleConfig tier autonomous cfg
                 \<le> applyStepTimeoutBudget native roleConfig tier2 autonomous2 cfg
             \<and> fst (resolveRoleToolBudget atoi roleConfig tier autonomous cfg)
                 \<le> fst (resolveRoleToolBudget atoi roleConfig tier2 autonomous2 cfg)"
    using ScaleTimeout_mono Resolve_mono pos
    by (auto simp: applyStepTimeoutBudget_def resolveRoleToolBudget_def split: option.split)
  moreover have "min native (tb_MinStepTimeout cfg) \<le> applyStepTimeoutBudget native roleConfig tier autonomous cfg"
    using sc(1) [of tier autonomous] by (auto simp: applyStepTimeoutBudget_def split: option.split)
  moreover have "applyStepTimeoutBudget native roleConfig tier autonomous cfg \<le> math_Round (of_int native * tb_MaxFactor cfg)"
    using sc(2) [of tier autonomous] top by (auto simp: applyStepTimeoutBudget_def split: option.split)
  moreover have "snd (resolveRoleToolBudget atoi roleConfig tier autonomous cfg)
           \<longrightarrow> 1 \<le> fst (resolveRoleToolBudget atoi roleConfig tier autonomous cfg)
             \<and> (TrimSpace tier = [] \<longrightarrow> fst (resolveRoleToolBudget atoi roleConfig tier autonomous cfg)
                  = roleToolBudgetBase atoi roleConfig)"
    using un(2) [of tier "roleToolBudgetBase atoi roleConfig" autonomous] pos en
    by (auto simp: resolveRoleToolBudget_def Resolve_def Let_def)
  ultimately show ?thesis by blast
qed

definition demo_budget :: tool_budget_config where
  "demo_budget = \<lparr>tb_Enabled = True, tb_Factors = [TierTrivial \<mapsto> 1 / 4, TierOpenEnded \<mapsto> 3],
     tb_MaxFactor = 2, tb_AutonomyMaxFactor = 1, tb_MinStepTimeout = Minute\<rparr>"

theorem budgets_move_together_witness:
  "sane_budget demo_budget \<and>
   applyStepTimeoutBudget Hour None TierTrivial False demo_budget = Hour \<and>
   applyStepTimeoutBudget Hour None TierTrivial False demo_budget \<le> math_Round (of_int Hour * 2)"
proof -
  have s: "sane_budget demo_budget" by (simp add: sane_budget_def demo_budget_def)
  have m: "tb_MaxFactor demo_budget = 2" by (simp add: demo_budget_def)
  have p: "0 < Hour" by (simp add: clock_units)
  show ?thesis
    using budgets_move_together [OF s p, of None TierTrivial False TierTrivial False "\<lambda>_. None"] s
    by (simp add: m)
qed

text \<open>
  The documented invariant that one tool call never outlives the step that contains it holds
  exactly for steps longer than a second: with any ceiling, such a step gets a positive per-call timeout
  below its own; a step of at most one second gets none at all (the result is not positive, so the caller
  injects nothing and the agent keeps its own default of minutes).
\<close>

theorem call_timeout_below_step:
  assumes "0 < stepTimeout"
  shows "(0 < perCallTimeoutForStep stepTimeout ceil \<and> perCallTimeoutForStep stepTimeout ceil < stepTimeout)
         \<longleftrightarrow> Second < stepTimeout"
proof (cases "1 < stepTimeout")
  case False
  with assms have "stepTimeout = 1" by simp
  then show ?thesis by (simp add: perCallTimeoutForStep_def perCallTimeoutFloor_def clock_units Let_def)
next
  case True
  have half: "0 < stepTimeout div 2" "stepTimeout div 2 < stepTimeout" using True by linarith+
  show ?thesis
    using assms half
    by (auto simp: perCallTimeoutForStep_def perCallTimeoutFloor_def Second_def Let_def)
qed

theorem call_timeout_below_step_witness:
  "perCallTimeoutForStep (240 * Second) (300 * Second) < 240 * Second \<and> perCallTimeoutForStep Second 0 \<le> 0"
proof -
  have "0 < 240 * Second" "Second < 240 * Second" "0 < Second" by (simp_all add: Second_def)
  with call_timeout_below_step [of "240 * Second" "300 * Second"] call_timeout_below_step [of Second 0]
  have "perCallTimeoutForStep (240 * Second) (300 * Second) < 240 * Second"
    and "\<not> (0 < perCallTimeoutForStep Second 0 \<and> perCallTimeoutForStep Second 0 < Second)" by blast+
  moreover have "perCallTimeoutForStep Second 0 < Second"
    by (simp add: perCallTimeoutForStep_def perCallTimeoutFloor_def Second_def)
  ultimately show ?thesis by linarith
qed

end
