(* ===== verification/JsonScan.thy ===== *)
theory JsonScan
  imports GoStrings
begin

text \<open>
  What the executor's checkpoints need of Go's \<^verbatim>\<open>encoding/json\<close> and \<^verbatim>\<open>strconv\<close>: the scanner that
  decides whether a text is valid JSON (\<open>json.Valid\<close>, which \<open>json.Marshal\<close> applies to every
  \<open>json.RawMessage\<close>), as the byte-driven state machine of that package, and the quoting of \<open>%q\<close> for
  ASCII text. A Go string literal is not a JSON string literal: \<open>\x1b\<close>, \<open>\a\<close> and \<open>\v\<close> exist in Go only,
  which the theorem of this theory makes exact.
\<close>

section \<open>The scanner\<close>

datatype json_ctx = ObjKey | ObjValue | ArrValue

datatype json_state =
    BeginValue | BeginValueOrEmpty | BeginString | BeginStringOrEmpty | EndValue | EndTop
  | InString | InStringEsc | InStringEscU nat
  | SNeg | SInt | SZero | SDot | SDot0 | SE | SESign | SE0
  | InLiteral string | SError

definition json_ws :: "char \<Rightarrow> bool" where
  "json_ws c \<longleftrightarrow> (of_char c :: nat) \<in> {9, 10, 13, 32}"

definition json_digit :: "char \<Rightarrow> bool" where
  "json_digit c \<longleftrightarrow> 48 \<le> (of_char c :: nat) \<and> (of_char c :: nat) \<le> 57"

definition json_hex :: "char \<Rightarrow> bool" where
  "json_hex c \<longleftrightarrow> json_digit c \<or> (97 \<le> (of_char c :: nat) \<and> (of_char c :: nat) \<le> 102) \<or>
     (65 \<le> (of_char c :: nat) \<and> (of_char c :: nat) \<le> 70)"

type_synonym json_scan = "json_state \<times> json_ctx list"

definition json_push :: "json_ctx \<Rightarrow> json_state \<Rightarrow> json_ctx list \<Rightarrow> json_scan" where
  "json_push ctx st stack = (if length stack < 10000 then (st, ctx # stack) else (SError, ctx # stack))"

definition json_pop :: "json_ctx list \<Rightarrow> json_scan" where
  "json_pop stack = (if tl stack = [] then (EndTop, []) else (EndValue, tl stack))"

definition step_end_value :: "char \<Rightarrow> json_ctx list \<Rightarrow> json_scan" where
  "step_end_value c stack = (case stack of
       [] \<Rightarrow> (if json_ws c then EndTop else SError, [])
     | ctx # r \<Rightarrow>
         if json_ws c then (EndValue, stack)
         else (case ctx of
             ObjKey \<Rightarrow> if c = CHR '':'' then (BeginValue, ObjValue # r) else (SError, stack)
           | ObjValue \<Rightarrow> if c = CHR '','' then (BeginString, ObjKey # r)
                         else if c = CHR ''}'' then json_pop stack else (SError, stack)
           | ArrValue \<Rightarrow> if c = CHR '','' then (BeginValue, stack)
                         else if c = CHR '']'' then json_pop stack else (SError, stack)))"

definition step_begin_value :: "char \<Rightarrow> json_ctx list \<Rightarrow> json_scan" where
  "step_begin_value c stack = (
     if json_ws c then (BeginValue, stack)
     else if c = CHR ''{'' then json_push ObjKey BeginStringOrEmpty stack
     else if c = CHR ''['' then json_push ArrValue BeginValueOrEmpty stack
     else if c = CHR 0x22 then (InString, stack)
     else if c = CHR ''-'' then (SNeg, stack)
     else if c = CHR ''0'' then (SZero, stack)
     else if c = CHR ''t'' then (InLiteral ''rue'', stack)
     else if c = CHR ''f'' then (InLiteral ''alse'', stack)
     else if c = CHR ''n'' then (InLiteral ''ull'', stack)
     else if json_digit c then (SInt, stack)
     else (SError, stack))"

definition step_begin_string :: "char \<Rightarrow> json_ctx list \<Rightarrow> json_scan" where
  "step_begin_string c stack = (if json_ws c then (BeginString, stack)
     else if c = CHR 0x22 then (InString, stack) else (SError, stack))"

definition step_zero :: "char \<Rightarrow> json_ctx list \<Rightarrow> json_scan" where
  "step_zero c stack = (if c = CHR ''.'' then (SDot, stack)
     else if c = CHR ''e'' \<or> c = CHR ''E'' then (SE, stack) else step_end_value c stack)"

definition step_sign :: "char \<Rightarrow> json_ctx list \<Rightarrow> json_scan" where
  "step_sign c stack = (if json_digit c then SE0 else SError, stack)"

fun json_step :: "json_scan \<Rightarrow> char \<Rightarrow> json_scan" where
  "json_step (BeginValue, stack) c = step_begin_value c stack"
| "json_step (BeginValueOrEmpty, stack) c = (if json_ws c then (BeginValueOrEmpty, stack)
     else if c = CHR '']'' then step_end_value c stack else step_begin_value c stack)"
| "json_step (BeginString, stack) c = step_begin_string c stack"
| "json_step (BeginStringOrEmpty, stack) c = (if json_ws c then (BeginStringOrEmpty, stack)
     else if c = CHR ''}'' then step_end_value c (ObjValue # tl stack) else step_begin_string c stack)"
| "json_step (EndValue, stack) c = step_end_value c stack"
| "json_step (EndTop, stack) c = (if json_ws c then EndTop else SError, stack)"
| "json_step (InString, stack) c = (if c = CHR 0x22 then (EndValue, stack)
     else if c = CHR 0x5C then (InStringEsc, stack)
     else if (of_char c :: nat) < 32 then (SError, stack) else (InString, stack))"
| "json_step (InStringEsc, stack) c =
     (if c \<in> {CHR ''b'', CHR ''f'', CHR ''n'', CHR ''r'', CHR ''t'', CHR 0x5C, CHR ''/'', CHR 0x22} then (InString, stack)
      else if c = CHR ''u'' then (InStringEscU 4, stack) else (SError, stack))"
| "json_step (InStringEscU k, stack) c =
     (if json_hex c then (if k \<le> 1 then InString else InStringEscU (k - 1), stack) else (SError, stack))"
| "json_step (SNeg, stack) c =
     (if c = CHR ''0'' then (SZero, stack) else if json_digit c then (SInt, stack) else (SError, stack))"
| "json_step (SInt, stack) c = (if json_digit c then (SInt, stack) else step_zero c stack)"
| "json_step (SZero, stack) c = step_zero c stack"
| "json_step (SDot, stack) c = (if json_digit c then SDot0 else SError, stack)"
| "json_step (SDot0, stack) c = (if json_digit c then (SDot0, stack)
     else if c = CHR ''e'' \<or> c = CHR ''E'' then (SE, stack) else step_end_value c stack)"
| "json_step (SE, stack) c = (if c = CHR ''+'' \<or> c = CHR ''-'' then (SESign, stack) else step_sign c stack)"
| "json_step (SESign, stack) c = step_sign c stack"
| "json_step (SE0, stack) c = (if json_digit c then (SE0, stack) else step_end_value c stack)"
| "json_step (InLiteral [], stack) c = (SError, stack)"
| "json_step (InLiteral (x # xs), stack) c =
     (if c = x then if xs = [] then (EndValue, stack) else (InLiteral xs, stack) else (SError, stack))"
| "json_step (SError, stack) c = (SError, stack)"

definition json_valid :: "string \<Rightarrow> bool" where
  "json_valid s \<longleftrightarrow> fst (json_step (foldl json_step (BeginValue, []) s) CHR '' '') = EndTop"

section \<open>Quoting of ASCII text\<close>

definition hex_digit :: "nat \<Rightarrow> char" where
  "hex_digit n = (if n < 10 then char_of (48 + n) else char_of (87 + n))"

definition quote_char :: "char \<Rightarrow> string" where
  "quote_char c = (let n = of_char c :: nat in
     if c = CHR 0x22 \<or> c = CHR 0x5C then [CHR 0x5C, c]
     else if 32 \<le> n \<and> n \<le> 126 then [c]
     else if n = 7 then [CHR 0x5C, CHR ''a'']
     else if n = 8 then [CHR 0x5C, CHR ''b'']
     else if n = 12 then [CHR 0x5C, CHR ''f'']
     else if n = 10 then [CHR 0x5C, CHR ''n'']
     else if n = 13 then [CHR 0x5C, CHR ''r'']
     else if n = 9 then [CHR 0x5C, CHR ''t'']
     else if n = 11 then [CHR 0x5C, CHR ''v'']
     else [CHR 0x5C, CHR ''x'', hex_digit (n div 16), hex_digit (n mod 16)])"

definition quote_ascii :: "string \<Rightarrow> string" where
  "quote_ascii s = CHR 0x22 # concat (map quote_char s) @ [CHR 0x22]"

definition ascii :: "string \<Rightarrow> bool" where
  "ascii s \<longleftrightarrow> list_all (\<lambda>c. (of_char c :: nat) < 128) s"

text \<open>What the code relies on of \<open>strconv.Quote\<close>; beyond ASCII it keeps printable runes.\<close>

definition quotes_ascii :: "(string \<Rightarrow> string) \<Rightarrow> bool" where
  "quotes_ascii quote \<longleftrightarrow> (\<forall>s. ascii s \<longrightarrow> quote s = quote_ascii s)"

text \<open>The bytes for which Go has an escape that JSON has not.\<close>

definition go_only_escape :: "char \<Rightarrow> bool" where
  "go_only_escape c \<longleftrightarrow> (let n = of_char c :: nat in (n < 32 \<and> n \<notin> {8, 9, 10, 12, 13}) \<or> n = 127)"

text \<open>The result an error leaves behind: \<open>{"error":%q}\<close>.\<close>

definition error_result :: "(string \<Rightarrow> string) \<Rightarrow> string \<Rightarrow> string" where
  "error_result quote msg = CHR ''{'' # quote_ascii ''error'' @ CHR '':'' # quote msg @ ''}''"

section \<open>When the error result is JSON\<close>

lemma json_error_stuck [simp]: "fst (foldl json_step (SError, stack) s) = SError"
  by (induction s arbitrary: stack) auto

lemma quote_char_plain:
  assumes "(of_char c :: nat) < 128" and "\<not> go_only_escape c"
  shows "foldl json_step (InString, stack) (quote_char c) = (InString, stack)"
proof -
  have "(of_char c :: nat) \<in> {8, 9, 10, 12, 13} \<or> 32 \<le> (of_char c :: nat) \<and> (of_char c :: nat) \<le> 126"
    using assms by (auto simp: go_only_escape_def Let_def)
  then show ?thesis
  proof (elim disjE conjE)
    assume "(of_char c :: nat) \<in> {8, 9, 10, 12, 13}"
    then show ?thesis by (auto simp: quote_char_def Let_def)
  next
    assume "32 \<le> (of_char c :: nat)" "(of_char c :: nat) \<le> 126"
    then show ?thesis by (auto simp: quote_char_def Let_def)
  qed
qed

lemma quote_char_bad:
  assumes "go_only_escape c"
  shows "fst (foldl json_step (InString, stack) (quote_char c)) = SError"
proof -
  have n: "(of_char c :: nat) < 32 \<and> (of_char c :: nat) \<notin> {8, 9, 10, 12, 13} \<or> (of_char c :: nat) = 127"
    using assms by (simp add: go_only_escape_def Let_def)
  then have ne: "c \<noteq> CHR 0x22" "c \<noteq> CHR 0x5C" "\<not> (32 \<le> (of_char c :: nat) \<and> (of_char c :: nat) \<le> 126)" by auto
  show ?thesis using n ne by (auto simp: quote_char_def Let_def)
qed

lemma quoted_body_plain:
  assumes "ascii s" and "\<not> list_ex go_only_escape s"
  shows "foldl json_step (InString, stack) (concat (map quote_char s)) = (InString, stack)"
  using assms by (induction s) (simp_all add: ascii_def quote_char_plain)

lemma quoted_body_bad:
  assumes "ascii s" and "list_ex go_only_escape s"
  shows "fst (foldl json_step (InString, stack) (concat (map quote_char s))) = SError"
  using assms
proof (induction s)
  case (Cons c s)
  show ?case
  proof (cases "go_only_escape c")
    case True
    obtain st where "foldl json_step (InString, stack) (quote_char c) = (SError, st)"
      using quote_char_bad [OF True] by (metis eq_fst_iff)
    then show ?thesis by simp
  next
    case False
    with Cons show ?thesis by (simp add: ascii_def quote_char_plain)
  qed
qed simp

text \<open>The scanner up to the opening quote of the message.\<close>

lemma error_prefix:
  "foldl json_step (BeginValue, []) (CHR ''{'' # quote_ascii ''error'' @ [CHR '':'', CHR 0x22]) = (InString, [ObjValue])"
  by code_simp

text \<open>
  The result document a failed step leaves behind is written with Go's \<open>%q\<close>. For an ASCII message
  it is valid JSON exactly when the message has no control character outside \<open>\b \t \n \f \r\<close> and no DEL:
  a terminal colour sequence in an error text is enough to make it invalid.
\<close>

lemma error_result_json_iff:
  assumes "quotes_ascii quote" and "ascii msg"
  shows "json_valid (error_result quote msg) \<longleftrightarrow> \<not> list_ex go_only_escape msg"
proof -
  have q: "error_result quote msg
      = (CHR ''{'' # quote_ascii ''error'' @ [CHR '':'', CHR 0x22]) @ concat (map quote_char msg) @ [CHR 0x22, CHR ''}'']"
    using assms by (simp add: error_result_def quotes_ascii_def quote_ascii_def [of msg])
  show ?thesis
  proof (cases "list_ex go_only_escape msg")
    case True
    obtain st where "foldl json_step (InString, [ObjValue]) (concat (map quote_char msg)) = (SError, st)"
      using quoted_body_bad [OF assms(2) True] by (metis eq_fst_iff)
    with True show ?thesis unfolding json_valid_def q foldl_append error_prefix by simp
  next
    case False
    have "foldl json_step (InString, [ObjValue]) (concat (map quote_char msg)) = (InString, [ObjValue])"
      by (rule quoted_body_plain [OF assms(2) False])
    with False show ?thesis unfolding json_valid_def q foldl_append error_prefix
      by (simp add: step_end_value_def json_pop_def json_ws_def)
  qed
qed

lemma quotes_ascii_quote_ascii [simp]: "quotes_ascii quote_ascii"
  by (simp add: quotes_ascii_def)

end
