(* ===== verification/WorkflowModel.thy ===== *)
theory WorkflowModel
  imports ParentWake StepRetry Gates ToolBudget JsonScan "HOL-Library.AList"
begin

text \<open>
  Data of the workflow engine (\<^verbatim>\<open>src/internal/registry/workflow.go\<close>, the execution row, and
  \<open>executionState\<close> of \<^verbatim>\<open>src/internal/executor/state.go\<close>), the checkpoint functions of
  \<^verbatim>\<open>state.go\<close>, and the record of everything the engine calls.

  A stored snapshot is the state it encodes: \<open>json.Marshal\<close> and \<open>json.Unmarshal\<close> are inverse on it up to
  insignificant white space of embedded JSON. What can fail is kept: the raw JSON values inside the state
  must be valid JSON, or the snapshot cannot be written. Absent and nil maps are the same as empty ones.
\<close>

section \<open>Workflow definitions\<close>

record workflow_step =
  ws_Type :: string
  ws_Role :: string
  ws_Prompt :: string
  ws_OnSuccess :: string
  ws_OnFail :: string
  ws_Gates :: "workflow_gate list"
  ws_Timeout :: string
  ws_Handler :: string
  ws_DelegatedWorkflow :: string
  ws_TargetProject :: string
  ws_TargetWorkflow :: string
  ws_ExpectSchema :: string
  ws_CancelOnTimeout :: bool
  ws_Template :: string

record workflow_terminal =
  wt_Status :: string
  wt_Message :: string
  wt_Recovery :: bool

record workflow =
  wf_ID :: string
  wf_Description :: string
  wf_Entrypoint :: string
  wf_Steps :: "string \<rightharpoonup> workflow_step"
  wf_Terminals :: "string \<rightharpoonup> workflow_terminal"
  wf_ResumeAfterChildren :: bool
  wf_MaxStepVisits :: int
  wf_MaxIterations :: int
  wf_MaxWallClock :: string
  wf_Pedantic :: "bool option"
  wf_IngestInputArtifacts :: bool

record project =
  pr_AdaptiveCandidateWorkflows :: "string list"
  pr_Pedantic :: "bool option"

record execution_plan =
  pl_project :: "project option"
  pl_roles :: "swarm_role list"
  pl_workflow :: workflow

definition HasExternalSideEffects :: "workflow_step \<Rightarrow> bool" where
  "HasExternalSideEffects st \<longleftrightarrow> ws_Type st = ''system'' \<or> ws_Type st = ''call_project''"

definition isStrictRouteStep :: "workflow \<Rightarrow> string \<Rightarrow> bool" where
  "isStrictRouteStep w stepID \<longleftrightarrow>
     wf_ID w = ''adaptive'' \<or> wf_ResumeAfterChildren w \<and> stepID = wf_Entrypoint w"

section \<open>Execution state\<close>

record execution_state =
  es_CurrentStepID :: string
  es_CompletedSteps :: "string list"
  es_LastResult :: string
  es_StepResults :: "(string \<times> string) list"
  es_ApprovalPendingStep :: string
  es_ApprovalGrantedStep :: string
  es_VisitCounts :: "string \<Rightarrow> int"
  es_Iterations :: int
  es_PlanSteps :: "string list"
  es_PlanIndex :: int
  es_PlanLeadMessage :: string
  es_PlanStartHEAD :: string
  es_PlanLeadStepID :: string
  es_PausedReason :: string
  es_PendingRecovery :: "recovery_context option"
  es_InFlightStepID :: string
  es_InFlightContainerID :: string
  es_InFlightTempRoot :: string
  es_ComplexityTier :: string

definition zero_state :: execution_state where
  "zero_state = \<lparr>es_CurrentStepID = [], es_CompletedSteps = [], es_LastResult = [], es_StepResults = [],
     es_ApprovalPendingStep = [], es_ApprovalGrantedStep = [], es_VisitCounts = (\<lambda>_. 0), es_Iterations = 0,
     es_PlanSteps = [], es_PlanIndex = 0, es_PlanLeadMessage = [], es_PlanStartHEAD = [], es_PlanLeadStepID = [],
     es_PausedReason = [], es_PendingRecovery = None, es_InFlightStepID = [], es_InFlightContainerID = [],
     es_InFlightTempRoot = [], es_ComplexityTier = []\<rparr>"

definition PauseReasonShutdown :: string where "PauseReasonShutdown = ''shutdown''"
definition PauseReasonAwaitingChildren :: string where "PauseReasonAwaitingChildren = ''awaiting_children''"
definition PauseReasonOperator :: string where "PauseReasonOperator = ''operator''"
definition PauseReasonRetryFromStep :: string where "PauseReasonRetryFromStep = ''retry_from_step''"

record execution =
  ex_ID :: string
  ex_TaskID :: string
  ex_ProjectID :: string
  ex_WorkflowID :: string
  ex_WorkflowRevision :: string
  ex_WorkflowSnapshot :: "string option"
  ex_Status :: execution_status
  ex_CurrentStepID :: "string option"
  ex_CompletedSteps :: "string list"
  ex_StateSnapshot :: "execution_state option"
  ex_Result :: "string option"
  ex_ErrorMessage :: "string option"
  ex_ErrorCode :: "string option"
  ex_StartedAt :: "nanos option"
  ex_CompletedAt :: "nanos option"
  ex_CreatedAt :: nanos
  ex_UpdatedAt :: nanos
  ex_ParentExecutionID :: "string option"
  ex_ForkedFromStepID :: "string option"
  ex_ForkedPromptOverride :: "string option"

definition loadExecutionState :: "execution \<Rightarrow> execution_state" where
  "loadExecutionState ex =
     (let st0 = (case ex_StateSnapshot ex of Some st \<Rightarrow> st | None \<Rightarrow> zero_state);
          st1 = (case ex_CurrentStepID ex of
                   Some c \<Rightarrow> if es_CurrentStepID st0 = [] then st0\<lparr>es_CurrentStepID := c\<rparr> else st0
                 | None \<Rightarrow> st0)
      in if es_CompletedSteps st1 = [] \<and> ex_CompletedSteps ex \<noteq> []
         then st1\<lparr>es_CompletedSteps := ex_CompletedSteps ex\<rparr> else st1)"

text \<open>\<open>json.Marshal\<close> of the state: every non-empty raw value must be JSON.\<close>

definition raw_ok :: "string \<Rightarrow> bool" where
  "raw_ok raw \<longleftrightarrow> raw = [] \<or> json_valid raw"

definition marshals :: "execution_state \<Rightarrow> bool" where
  "marshals st \<longleftrightarrow> raw_ok (es_LastResult st) \<and> list_all (\<lambda>kv. raw_ok (snd kv)) (es_StepResults st)"

section \<open>What the engine calls\<close>

record delegated_task =
  dl_Prompt :: string
  dl_Role :: string
  dl_Priority :: int
  dl_Workflow :: string

record agent_step_result =
  asr_Message :: string
  asr_DelegatedTasks :: "delegated_task list"
  asr_DelegationMode :: string
  asr_SelectedWorkflow :: string

record cf_budget =
  cf_MaxItersPerStep :: int
  cf_StepTimeoutSeconds :: int

record call_project_result =
  cp_CPCId :: string
  cp_CalleeTaskID :: string
  cp_PauseReason :: string

text \<open>
  Everything outside the loop, over an arbitrary state \<open>'s\<close> (database, containers, clock, network): first the
  texts the engine has decoded or quoted for it (\<^verbatim>\<open>encoding/json\<close>, \<^verbatim>\<open>strconv\<close>, the reasoning filter), then
  the repositories, the shutdown flag, the parameters of \<^verbatim>\<open>StepRetry\<close>, the recorders and the step handlers.
  Plan, project-call, spawn, A2A and system handlers may change the state in any way.
\<close>

record 's engine =
  en_quote :: "string \<Rightarrow> string"
  en_jsonString :: "string \<Rightarrow> string"
  en_decodeResult :: "string \<Rightarrow> agent_step_result option"
  en_decodeError :: "string \<Rightarrow> string"
  en_unmarshal :: "string \<Rightarrow> string + json_object"
  en_marshalError :: "execution_state \<Rightarrow> string"
  en_parseDuration :: "string \<Rightarrow> nanos option"
  en_stripReasoning :: "string \<Rightarrow> string"
  en_complexity :: "string \<Rightarrow> string"
  en_inputArtifacts :: "string option \<Rightarrow> artifact list"
  en_cfBudget :: "string option \<Rightarrow> cf_budget"
  en_payloadPedantic :: "string option \<Rightarrow> bool option"
  en_toolBudget :: tool_budget_config
  en_repo :: "'s task_repo"
  en_SaveStateSnapshot :: "string \<Rightarrow> execution_state \<Rightarrow> 's \<Rightarrow> step_err option \<times> 's"
  en_execUpdateStatus :: "string \<Rightarrow> execution_status \<Rightarrow> 's \<Rightarrow> step_err option \<times> 's"
  en_shuttingDown :: "'s \<Rightarrow> bool"
  en_cleanup :: "'s \<Rightarrow> 's"
  en_agent :: "'s agent"
  en_sleep :: "'s sleep"
  en_outcomes :: "'s \<Rightarrow> string list option"
  en_prior :: "string \<Rightarrow> string"
  en_consumeHints :: "string \<Rightarrow> 's \<Rightarrow> string \<times> 's"
  en_prewarm :: "agent_opts \<Rightarrow> 's \<Rightarrow> agent_opts \<times> 's"
  en_attachRemediations :: "recovery_context \<Rightarrow> 's \<Rightarrow> recovery_context \<times> 's"
  en_resolveRoleOpts :: "workflow_step \<Rightarrow> agent_opts \<Rightarrow> agent_opts \<times> swarm_role option"
  en_synthesizeResumeResult :: "task list \<Rightarrow> 's \<Rightarrow> string"
  en_stepOutputArtifacts :: "'s \<Rightarrow> artifact list"
  en_recordStepOutcome :: "string \<Rightarrow> string \<Rightarrow> string \<Rightarrow> string \<Rightarrow> string \<Rightarrow> string \<Rightarrow> 's \<Rightarrow> 's"
  en_finalizePendingOutcome :: "string \<Rightarrow> string \<Rightarrow> string \<Rightarrow> string \<Rightarrow> string option \<Rightarrow> 's \<Rightarrow> 's"
  en_recordRecoveryEvent :: "string \<Rightarrow> 's \<Rightarrow> 's"
  en_delegateSelectedWorkflow :: "string \<Rightarrow> 's \<Rightarrow> (step_err + string) \<times> 's"
  en_createDelegatedTasks :: "delegated_task list \<Rightarrow> delegation_mode \<Rightarrow> 's \<Rightarrow> step_err option \<times> 's"
  en_planStep :: "string \<Rightarrow> workflow_step \<Rightarrow> nanos \<Rightarrow> artifact list \<Rightarrow> string list \<Rightarrow> execution \<times> execution_state \<Rightarrow> 's \<Rightarrow>
     (string \<times> string \<times> string \<times> string list \<times> step_err option) \<times> (execution \<times> execution_state) \<times> 's"
  en_spawnProject :: "string \<Rightarrow> workflow_step \<Rightarrow> (string \<times> string) list \<Rightarrow> 's \<Rightarrow> (step_err + string) \<times> 's"
  en_callProject :: "string \<Rightarrow> workflow_step \<Rightarrow> (string \<times> string) list \<Rightarrow> 's \<Rightarrow> (step_err + call_project_result) \<times> 's"
  en_a2aCall :: "string \<Rightarrow> workflow_step \<Rightarrow> 's \<Rightarrow> (string option \<times> step_err option) \<times> 's"
  en_systemHandler :: "string \<Rightarrow> (string \<Rightarrow> workflow_step \<Rightarrow> string \<Rightarrow> 's \<Rightarrow> (step_err + string) \<times> 's) option"
  en_systemHandlerNames :: string

section \<open>Checkpoints\<close>

definition saveExecutionState ::
  "'s engine \<Rightarrow> execution \<Rightarrow> execution_state \<Rightarrow> 's \<Rightarrow> (step_err option \<times> execution) \<times> 's" where
  "saveExecutionState E ex st s =
     (if \<not> marshals st
      then ((Some (plain_err (''failed to marshal execution checkpoint: '' @ en_marshalError E st)), ex), s)
      else (let ex1 = ex\<lparr>ex_CompletedSteps := es_CompletedSteps st,
                  ex_CurrentStepID := (if es_CurrentStepID st \<noteq> [] then Some (es_CurrentStepID st) else ex_CurrentStepID ex),
                  ex_StateSnapshot := Some st\<rparr>
            in case en_SaveStateSnapshot E (ex_ID ex) st s of (err, s1) \<Rightarrow> ((err, ex1), s1)))"

definition saveCheckpoint ::
  "'s engine \<Rightarrow> execution \<Rightarrow> string \<Rightarrow> string list \<Rightarrow> execution_state \<Rightarrow> 's \<Rightarrow> (step_err option \<times> execution) \<times> 's" where
  "saveCheckpoint E ex nextStepID completedSteps st s =
     saveExecutionState E ex (st\<lparr>es_CurrentStepID := nextStepID, es_CompletedSteps := completedSteps\<rparr>) s"

definition markStepInFlight ::
  "'s engine \<Rightarrow> execution \<Rightarrow> string \<Rightarrow> string \<Rightarrow> string \<Rightarrow> 's \<Rightarrow> execution \<times> 's" where
  "markStepInFlight E ex stepID containerID tempRoot s =
     (if containerID = [] then (ex, s)
      else (case saveExecutionState E ex ((loadExecutionState ex)\<lparr>es_InFlightStepID := stepID,
                    es_InFlightContainerID := containerID, es_InFlightTempRoot := tempRoot\<rparr>) s of
              ((_, ex1), s1) \<Rightarrow> (ex1, s1)))"

text \<open>\<open>inspect\<close>: whether the runtime still knows the container.\<close>

definition reattachInFlightContainer ::
  "(string \<Rightarrow> 's \<Rightarrow> bool) \<Rightarrow> execution \<Rightarrow> string \<Rightarrow> 's \<Rightarrow> (string \<times> string) option" where
  "reattachInFlightContainer inspect ex stepID s =
     (let st = loadExecutionState ex
      in if es_InFlightStepID st \<noteq> stepID \<or> es_InFlightContainerID st = [] \<or> es_InFlightTempRoot st = [] then None
         else if inspect (es_InFlightContainerID st) s
         then Some (es_InFlightContainerID st, es_InFlightTempRoot st @ ''/output'') else None)"

fun execution_status_text :: "execution_status \<Rightarrow> string" where
  "execution_status_text ExecutionStatusPending = ''PENDING''"
| "execution_status_text ExecutionStatusRunning = ''RUNNING''"
| "execution_status_text ExecutionStatusPaused = ''PAUSED''"
| "execution_status_text ExecutionStatusCompleted = ''COMPLETED''"
| "execution_status_text ExecutionStatusFailed = ''FAILED''"
| "execution_status_text ExecutionStatusCancelled = ''CANCELLED''"
| "execution_status_text (ExecutionStatusOther t) = t"

text \<open>The store calls of \<open>Resume\<close>, up to starting the goroutine: an error text, or the row to run.\<close>

definition Resume ::
  "'s engine \<Rightarrow> (string \<Rightarrow> bool) \<Rightarrow> (string \<Rightarrow> 's \<Rightarrow> step_err + execution) \<Rightarrow> string \<Rightarrow> 's \<Rightarrow>
   (string + execution) \<times> 's" where
  "Resume E active getByTaskID taskID s =
     (if active taskID then (Inl (''task '' @ taskID @ '' is already being executed''), s)
      else (case tr_Get (en_repo E) taskID s of
          Inl e \<Rightarrow> (Inl (''failed to get task '' @ taskID @ '': '' @ err_text e), s)
        | Inr _ \<Rightarrow>
         (case getByTaskID taskID s of
            Inl e \<Rightarrow> (Inl (''failed to get execution record: '' @ se_msg e), s)
          | Inr ex \<Rightarrow>
              if ex_Status ex \<noteq> ExecutionStatusPaused then (Inl (''execution is not paused (status: '' @ execution_status_text (ex_Status ex) @ '')''), s)
              else (let st = loadExecutionState ex;
                        run = (\<lambda>ex s. case en_execUpdateStatus E (ex_ID ex) ExecutionStatusRunning s of
                                  (Some e, s1) \<Rightarrow> (Inl (''failed to update execution status: '' @ se_msg e), s1)
                                | (None, s1) \<Rightarrow>
                                    (case tr_UpdateStatus (en_repo E) taskID TaskStatusRunning s1 of
                                       (Some e, s2) \<Rightarrow> (Inl (''failed to update task status: '' @ err_text e), s2)
                                     | (None, s2) \<Rightarrow> (Inr ex, s2)))
                    in if es_ApprovalPendingStep st \<noteq> [] then
                         (case saveExecutionState E ex (st\<lparr>es_ApprovalGrantedStep := es_ApprovalPendingStep st,
                                 es_ApprovalPendingStep := [], es_PausedReason := []\<rparr>) s of
                            ((Some e, ex1), s1) \<Rightarrow> (Inl (''failed to persist approval resume state: '' @ se_msg e), s1)
                          | ((None, ex1), s1) \<Rightarrow> run ex1 s1)
                       else if es_PausedReason st = PauseReasonOperator then
                         (case saveExecutionState E ex (st\<lparr>es_PausedReason := []\<rparr>) s of
                            ((Some e, ex1), s1) \<Rightarrow> (Inl (''failed to clear operator pause reason: '' @ se_msg e), s1)
                          | ((None, ex1), s1) \<Rightarrow> run ex1 s1)
                       else run ex s))))"

end
