(* ===== verification/WorkflowEngine.thy ===== *)
theory WorkflowEngine
  imports WorkflowModel
begin

text \<open>
  The workflow loop (\<^verbatim>\<open>src/internal/executor/workflow.go\<close>, \<open>executeWorkflowAttempt\<close> and the functions it
  is decomposed into): from the saved position, dispatch one step after another until a terminal is reached,
  the execution pauses, or an error ends the attempt. One definition per step type; a dispatched step either
  moves the loop to its next position or stops the attempt. Metrics, tracing, live events and logging are left
  out, except the one log line per dispatch, which is the trace the theorems speak of.
\<close>

section \<open>Positions and outcomes\<close>

record loop_state =
  ls_current :: string
  ls_completed :: "string list"
  ls_state :: execution_state
  ls_exec :: execution
  ls_containerID :: string
  ls_result :: string
  ls_artifacts :: "artifact list"
  ls_message :: string
  ls_error :: "step_err option"
  ls_forkApplied :: bool

text \<open>The four results of an attempt: container id, result, completed steps, error.\<close>

type_synonym attempt_result = "string \<times> string \<times> string list \<times> step_err option"

datatype step_outcome = Move loop_state | Stop attempt_result execution

definition errExecutionPaused :: step_err where
  "errExecutionPaused = \<lparr>se_msg = ''execution paused awaiting approval'', se_retryable = False, se_chain = [WrapsPaused]\<rparr>"

text \<open>Abandon the attempt: \<open>return "", nil, completedSteps, err\<close>.\<close>

definition give_up :: "step_err \<Rightarrow> loop_state \<Rightarrow> step_outcome" where
  "give_up e l = Stop ([], [], ls_completed l, Some e) (ls_exec l)"

text \<open>Save the position of the next step, then go there.\<close>

definition move_on :: "'s engine \<Rightarrow> string \<Rightarrow> loop_state \<Rightarrow> 's \<Rightarrow> step_outcome \<times> 's" where
  "move_on E nextStepID l s =
     (case saveCheckpoint E (ls_exec l) nextStepID (ls_completed l) (ls_state l) s of
        ((Some e, ex), s1) \<Rightarrow> (give_up e (l\<lparr>ls_exec := ex\<rparr>), s1)
      | ((None, ex), s1) \<Rightarrow> (Move (l\<lparr>ls_current := nextStepID, ls_exec := ex\<rparr>), s1))"

definition complete_current :: "loop_state \<Rightarrow> loop_state" where
  "complete_current l = l\<lparr>ls_completed := ls_completed l @ [ls_current l]\<rparr>"

text \<open>
  The on_fail block shared by the step types: give up without a target or while the daemon shuts down,
  otherwise complete the step with the given state and go to the target. \<open>tell\<close>: whether the error becomes
  the reason a failure terminal reports.
\<close>

definition route_on_fail ::
  "'s engine \<Rightarrow> workflow_step \<Rightarrow> step_err \<Rightarrow> bool \<Rightarrow> execution_state \<Rightarrow> loop_state \<Rightarrow> 's \<Rightarrow> step_outcome \<times> 's" where
  "route_on_fail E step e tell st l s =
     (if ws_OnFail step = [] \<or> en_shuttingDown E s then (give_up e l, s)
      else (let l1 = (complete_current l)\<lparr>ls_state := st\<rparr>;
                l2 = (if tell then l1\<lparr>ls_message := se_msg e, ls_error := Some e\<rparr> else l1)
            in move_on E (ws_OnFail step) l2 s))"

definition error_state :: "'s engine \<Rightarrow> step_err \<Rightarrow> execution_state \<Rightarrow> execution_state" where
  "error_state E e st = st\<lparr>es_LastResult := error_result (en_quote E) (se_msg e)\<rparr>"

section \<open>Terminals\<close>

definition truncateStr :: "string \<Rightarrow> nat \<Rightarrow> string" where
  "truncateStr str n = (if length str \<le> n then str else take n str @ ''...'')"

definition lastStepOrUnknown :: "string list \<Rightarrow> string" where
  "lastStepOrUnknown completedSteps = (if completedSteps \<noteq> [] then last completedSteps else ''unknown'')"

definition failure_detail :: "workflow_terminal \<Rightarrow> string list \<Rightarrow> string \<Rightarrow> string" where
  "failure_detail terminal completedSteps lastResultMessage =
     (let msg = (if wt_Message terminal = [] then ''workflow failed'' else wt_Message terminal);
          reason = (if length lastResultMessage > 500 then take 500 lastResultMessage @ ''...'' else lastResultMessage)
      in msg @ '' (last step: '' @ lastStepOrUnknown completedSteps @
           (if lastResultMessage \<noteq> [] then '', reason: '' @ reason else []) @ '')'')"

definition resolveTerminalOutcome ::
  "'s engine \<Rightarrow> workflow_terminal \<Rightarrow> loop_state \<Rightarrow> 's \<Rightarrow> (string \<times> string \<times> step_err option) \<times> 's" where
  "resolveTerminalOutcome E terminal l s =
     (if wt_Status terminal = ''COMPLETED'' then
        ((ls_containerID l, ls_result l, None),
         if wt_Recovery terminal then en_recordRecoveryEvent E (ls_current l) s else s)
      else if wt_Status terminal = ''FAILED'' then
        (let detail = failure_detail terminal (ls_completed l) (ls_message l)
         in (([], [], Some (case ls_error l of
                Some e \<Rightarrow> wrap_err (detail @ '': '') [] e
              | None \<Rightarrow> plain_err detail)), s))
      else if wt_Status terminal = ''CANCELLED'' then
        (([], [], Some (plain_err (''workflow cancelled at step '' @ lastStepOrUnknown (ls_completed l)))), s)
      else (([], [], Some (plain_err (''workflow reached unsupported terminal status '' @ wt_Status terminal))), s))"

section \<open>Pausing for children\<close>

definition pauseAwaitingChildren ::
  "'s engine \<Rightarrow> task \<Rightarrow> string \<Rightarrow> loop_state \<Rightarrow> 's \<Rightarrow> (step_err option \<times> loop_state) \<times> 's" where
  "pauseAwaitingChildren E task resumeStepID l s =
     (let s1 = snd (tr_UpdateStatus (en_repo E) (task_ID task) TaskStatusWaitingForChildren s);
          l1 = l\<lparr>ls_state := (ls_state l)\<lparr>es_PausedReason := PauseReasonAwaitingChildren\<rparr>\<rparr>;
          s2 = snd (en_execUpdateStatus E (ex_ID (ls_exec l)) ExecutionStatusPaused s1)
      in case saveCheckpoint E (ls_exec l1) resumeStepID (ls_completed l1) (ls_state l1) s2 of
           ((Some e, ex), s3) \<Rightarrow> ((Some e, l1\<lparr>ls_exec := ex\<rparr>), s3)
         | ((None, ex), s3) \<Rightarrow>
             ((None, l1\<lparr>ls_exec := ex\<rparr>), unblockParentIfChildrenDone (en_repo E) (task_ID task) s3))"

definition buildRouteCorrectiveHint :: "(string \<Rightarrow> string) \<Rightarrow> string \<Rightarrow> string list \<Rightarrow> string" where
  "buildRouteCorrectiveHint quote badPick candidates =
     (if badPick = [] then
        ''\<newline>\<newline>ROUTE CORRECTION: Your previous response did not include a `selected_workflow` field. Refusal is not allowed '' @
        map char_of [226, 128, 148 :: nat] @
        '' the candidate list IS the configuration; do not request additional files. You MUST pick EXACTLY ONE of: ['' @
        join candidates '' '' @ '']. Emit {'' @ quote ''selected_workflow'' @ '': '' @ quote ''<one-of-those>'' @
        '', '' @ quote ''reason'' @ '': '' @ quote ''...'' @ ''} and nothing else.''
      else
        ''\<newline>\<newline>ROUTE CORRECTION: Your previous response selected workflow '' @ quote badPick @
        '', which is NOT in the allowed list. You must pick EXACTLY ONE of: ['' @ join candidates '' '' @
        '']. Emit {'' @ quote ''selected_workflow'' @ '': '' @ quote ''<one-of-those>'' @
        '', '' @ quote ''reason'' @ '': '' @ quote ''...'' @ ''} and nothing else for the workflow field.'')"

definition adaptive_candidates :: "execution_plan \<Rightarrow> string list" where
  "adaptive_candidates plan = (case pl_project plan of None \<Rightarrow> [] | Some p \<Rightarrow> pr_AdaptiveCandidateWorkflows p)"

definition agent_call :: "execution_plan \<Rightarrow> string \<Rightarrow> workflow_step \<Rightarrow> nanos \<Rightarrow> agent_opts \<Rightarrow> step_call" where
  "agent_call plan stepID step stepTimeout opts = \<lparr>call_stepID = stepID, call_role = ws_Role step,
     call_roles = pl_roles plan, call_timeout = stepTimeout, call_opts = opts\<rparr>"

definition run_agent :: "'s engine \<Rightarrow> step_call \<Rightarrow> swarm_role option \<Rightarrow> 's \<Rightarrow> step_result \<times> 's" where
  "run_agent E c roleConfig s =
     executeAgentStepWithFallback (en_quote E) (en_agent E) (en_sleep E) (en_outcomes E) (en_prior E) c roleConfig s"

text \<open>
  The corrective re-run of a strict route whose pick is missing or not on the list: an error, or the position
  with the re-run recorded and the new pick.
\<close>

definition corrective_rerun ::
  "'s engine \<Rightarrow> execution_plan \<Rightarrow> workflow_step \<Rightarrow> nanos \<Rightarrow> agent_opts \<Rightarrow> swarm_role option \<Rightarrow> string \<Rightarrow>
   loop_state \<Rightarrow> 's \<Rightarrow> (step_err \<times> loop_state + string \<times> loop_state) \<times> 's" where
  "corrective_rerun E plan step stepTimeout opts roleConfig pick l s =
     (let retryStepID = ls_current l @ ''_route_retry'';
          opts' = opts\<lparr>ao_StepPrompt := ao_StepPrompt opts @
                         buildRouteCorrectiveHint (en_quote E) pick (adaptive_candidates plan)\<rparr>
      in case run_agent E (agent_call plan retryStepID step stepTimeout opts') roleConfig s of
           ((_, _, Some e), s1) \<Rightarrow> (Inl (wrap_err ''strict adaptive: corrective re-run failed: '' [] e, l), s1)
         | ((cid, bytes, None), s1) \<Rightarrow>
             (let l1 = l\<lparr>ls_containerID := cid, ls_result := bytes, ls_completed := ls_completed l @ [retryStepID]\<rparr>
              in case en_decodeResult E bytes of
                   None \<Rightarrow> (Inl (plain_err (''strict adaptive: corrective re-run produced unparseable result: '' @ en_decodeError E bytes), l1), s1)
                 | Some r \<Rightarrow>
                     if asr_SelectedWorkflow r = []
                     then (Inl (plain_err ''strict adaptive: corrective re-run did not emit selected_workflow'', l1), s1)
                     else (Inr (asr_SelectedWorkflow r, l1), s1)))"

text \<open>Nothing when the step is not a strict route with candidates; otherwise how the attempt stops.\<close>

definition handleSelectedWorkflowRoute ::
  "'s engine \<Rightarrow> execution_plan \<Rightarrow> task \<Rightarrow> workflow_step \<Rightarrow> nanos \<Rightarrow> agent_opts \<Rightarrow> swarm_role option \<Rightarrow>
   agent_step_result \<Rightarrow> bool \<Rightarrow> loop_state \<Rightarrow> 's \<Rightarrow> (step_outcome \<times> 's) option" where
  "handleSelectedWorkflowRoute E plan task step stepTimeout opts roleConfig result routeAlreadyHandled l s =
     (if routeAlreadyHandled \<or> \<not> isStrictRouteStep (pl_workflow plan) (ls_current l) \<or> adaptive_candidates plan = []
      then None
      else Some (case (if asr_SelectedWorkflow result \<in> set (adaptive_candidates plan) \<and> asr_SelectedWorkflow result \<noteq> []
                       then (Inr (asr_SelectedWorkflow result, l), s)
                       else corrective_rerun E plan step stepTimeout opts roleConfig (asr_SelectedWorkflow result) l s) of
          (Inl (e, l1), s1) \<Rightarrow> (give_up e l1, s1)
        | (Inr (pick, l1), s1) \<Rightarrow>
            (case en_delegateSelectedWorkflow E pick s1 of
               (Inl e, s2) \<Rightarrow> (give_up (wrap_err ''strict adaptive: '' [] e) l1, s2)
             | (Inr _, s2) \<Rightarrow>
                 (case pauseAwaitingChildren E task (ls_current l) (complete_current l1) s2 of
                    ((Some e, l2), s3) \<Rightarrow> (give_up e l2, s3)
                  | ((None, l2), s3) \<Rightarrow>
                      (Stop (ls_containerID l2, ls_result l2, ls_completed l2, Some errExecutionPaused) (ls_exec l2), s3)))))"

definition to_upper :: "char \<Rightarrow> char" where
  "to_upper c = (let n = of_char c :: nat in if 97 \<le> n \<and> n \<le> 122 then char_of (n - 32) else c)"

definition parseDelegationMode :: "string \<Rightarrow> delegation_mode" where
  "parseDelegationMode str = (let m = map to_upper (TrimSpace str) in
     if m = ''SEQUENTIAL'' then DelegationModeSequential
     else if m = ''FAN_OUT'' then DelegationModeFanOut else DelegationModeParallel)"

definition pin_workflow :: "workflow_step \<Rightarrow> delegated_task \<Rightarrow> delegated_task" where
  "pin_workflow step d = (if ws_DelegatedWorkflow step \<noteq> [] \<and> TrimSpace (dl_Workflow d) = []
     then d\<lparr>dl_Workflow := ws_DelegatedWorkflow step\<rparr> else d)"

definition handleDelegatedTasks ::
  "'s engine \<Rightarrow> task \<Rightarrow> workflow_step \<Rightarrow> agent_step_result \<Rightarrow> loop_state \<Rightarrow> 's \<Rightarrow> (step_outcome \<times> 's) option" where
  "handleDelegatedTasks E task step result l s =
     (if asr_DelegatedTasks result = [] then None
      else Some (case en_createDelegatedTasks E (map (pin_workflow step) (asr_DelegatedTasks result))
                        (parseDelegationMode (asr_DelegationMode result)) s of
          (Some e, s1) \<Rightarrow> (give_up (wrap_err ''failed to create delegated tasks: '' [] e) l, s1)
        | (None, s1) \<Rightarrow>
            (case pauseAwaitingChildren E task (ls_current l) l s1 of
               ((Some e, l1), s2) \<Rightarrow> (give_up e l1, s2)
             | ((None, l1), s2) \<Rightarrow>
                 (Stop (ls_containerID l1, ls_result l1, ls_completed l1, Some errExecutionPaused) (ls_exec l1), s2))))"

section \<open>Agent steps\<close>

definition assembleStepPrompt :: "execution \<Rightarrow> string \<Rightarrow> workflow_step \<Rightarrow> string \<Rightarrow> bool \<Rightarrow> string \<times> bool" where
  "assembleStepPrompt ex currentStepID step hintPrefix forkOverrideApplied =
     (let p0 = ws_Prompt step;
          p1 = (if ws_Gates step \<noteq> [] then p0 @ buildGatePromptSuffix (ws_Gates step) else p0);
          p2 = (if hintPrefix \<noteq> [] then hintPrefix @ p1 else p1)
      in case ex_ForkedPromptOverride ex of
           Some override \<Rightarrow>
             if \<not> forkOverrideApplied \<and> ex_ForkedFromStepID ex = Some currentStepID \<and> override \<noteq> []
             then (override @ ''\<newline>\<newline>---\<newline>\<newline>'' @ p2, True) else (p2, forkOverrideApplied)
         | None \<Rightarrow> (p2, forkOverrideApplied))"

definition forwardPendingRecovery ::
  "'s engine \<Rightarrow> execution_state \<Rightarrow> agent_opts \<Rightarrow> 's \<Rightarrow> (execution_state \<times> agent_opts) \<times> 's" where
  "forwardPendingRecovery E st opts s = (case es_PendingRecovery st of
       None \<Rightarrow> ((st, opts), s)
     | Some rc \<Rightarrow> (case en_attachRemediations E rc s of
         (rc', s1) \<Rightarrow> ((st\<lparr>es_PendingRecovery := None\<rparr>, opts\<lparr>ao_RecoveryContext := Some rc'\<rparr>), s1)))"

definition prepareAgentStepInput ::
  "'s engine \<Rightarrow> execution_plan \<Rightarrow> workflow_step \<Rightarrow> loop_state \<Rightarrow> 's \<Rightarrow> (agent_opts \<times> swarm_role option \<times> loop_state) \<times> 's" where
  "prepareAgentStepInput E plan step l s =
     (case en_consumeHints E (ls_current l) s of (hintPrefix, s1) \<Rightarrow>
      case assembleStepPrompt (ls_exec l) (ls_current l) step hintPrefix (ls_forkApplied l) of (stepPrompt, fork) \<Rightarrow>
      let opts0 = no_opts\<lparr>ao_InputArtifacts := ls_artifacts l, ao_PreviousResult := ls_message l, ao_StepPrompt := stepPrompt\<rparr>
      in case (if ws_Role step = ''strategist'' then en_prewarm E opts0 s1 else (opts0, s1)) of (opts1, s2) \<Rightarrow>
      let opts2 = (if wf_ID (pl_workflow plan) = ''adaptive'' \<and> adaptive_candidates plan \<noteq> []
                   then opts1\<lparr>ao_AdaptiveCandidateWorkflows := adaptive_candidates plan\<rparr> else opts1)
      in case forwardPendingRecovery E (ls_state l) opts2 s2 of ((st, opts3), s3) \<Rightarrow>
      let opts4 = opts3\<lparr>ao_ComplexityTier := es_ComplexityTier st\<rparr>
      in case en_resolveRoleOpts E step opts4 of (opts5, roleConfig) \<Rightarrow>
         ((opts5, roleConfig, l\<lparr>ls_state := st, ls_forkApplied := fork\<rparr>), s3))"

definition resolveResumeGuard ::
  "'s engine \<Rightarrow> execution_plan \<Rightarrow> task \<Rightarrow> string \<Rightarrow> 's \<Rightarrow> bool \<times> bool \<times> task list" where
  "resolveResumeGuard E plan task currentStepID s =
     (if \<not> isStrictRouteStep (pl_workflow plan) currentStepID \<or> pl_project plan = None then (False, False, [])
      else (case tr_GetChildren (en_repo E) (task_ID task) s of
              Inl _ \<Rightarrow> (False, False, [])
            | Inr children \<Rightarrow>
                if children = [] then (False, False, [])
                else (True, list_ex (\<lambda>c. task_Status c = TaskStatusFailed) children, children)))"

definition auto_route_result :: "(string \<Rightarrow> string) \<Rightarrow> string \<Rightarrow> string" where
  "auto_route_result json_string only = ''{'' @ json_string ''message'' @ '':'' @ json_string (''auto-routed (single candidate '' @ only @ '')'') @
     '','' @ json_string ''selected_workflow'' @ '':'' @ json_string only @ ''}''"

definition dispatchAgentStep ::
  "'s engine \<Rightarrow> execution_plan \<Rightarrow> string \<Rightarrow> workflow_step \<Rightarrow> nanos \<Rightarrow> agent_opts \<Rightarrow> swarm_role option \<Rightarrow>
   bool \<Rightarrow> task list \<Rightarrow> 's \<Rightarrow> step_result \<times> 's" where
  "dispatchAgentStep E plan currentStepID step stepTimeout opts roleConfig routeAlreadyHandled resumeChildren s =
     (if routeAlreadyHandled then (([], en_synthesizeResumeResult E resumeChildren s, None), s)
      else if isStrictRouteStep (pl_workflow plan) currentStepID \<and> length (adaptive_candidates plan) = 1
      then (([], auto_route_result (en_jsonString E) (hd (adaptive_candidates plan)), None), s)
      else run_agent E (agent_call plan currentStepID step stepTimeout opts) roleConfig s)"

definition resolvePedantic :: "'s engine \<Rightarrow> task \<Rightarrow> execution_plan \<Rightarrow> bool" where
  "resolvePedantic E task plan = (case en_payloadPedantic E (task_Payload task) of
       Some b \<Rightarrow> b
     | None \<Rightarrow> (case wf_Pedantic (pl_workflow plan) of
         Some b \<Rightarrow> b
       | None \<Rightarrow> (case pl_project plan of None \<Rightarrow> False
           | Some p \<Rightarrow> (case pr_Pedantic p of Some b \<Rightarrow> b | None \<Rightarrow> False))))"

definition buildStepFailureRecovery ::
  "'s engine \<Rightarrow> step_err \<Rightarrow> string \<Rightarrow> task \<Rightarrow> execution_plan \<Rightarrow> recovery_context option" where
  "buildStepFailureRecovery E e currentStepID task plan =
     (if resolvePedantic E task plan then None
      else Some (case blocked_urls (se_chain e) of
          Some urls \<Rightarrow> \<lparr>rc_FailedStep = currentStepID, rc_FailureClass = ''verifier_block'',
            rc_FailureReason = truncateStr (se_msg e) 1500, rc_BlockedURLs = urls, rc_LearnedRemediations = []\<rparr>
        | None \<Rightarrow> \<lparr>rc_FailedStep = currentStepID,
            rc_FailureClass = recoveryFailureClass (ClassifyExecutionFailure (Some e) []),
            rc_FailureReason = truncateStr (se_msg e) 1500, rc_BlockedURLs = [], rc_LearnedRemediations = []\<rparr>))"

definition agent_failed ::
  "'s engine \<Rightarrow> execution_plan \<Rightarrow> task \<Rightarrow> workflow_step \<Rightarrow> step_err \<Rightarrow> loop_state \<Rightarrow> 's \<Rightarrow> step_outcome \<times> 's" where
  "agent_failed E plan task step e l s =
     (if isTerminalVerifierError e then (give_up e l, s)
      else (let st = error_state E e (ls_state l);
                st' = (case buildStepFailureRecovery E e (ls_current l) task plan of
                         Some rc \<Rightarrow> st\<lparr>es_PendingRecovery := Some rc\<rparr> | None \<Rightarrow> st)
            in route_on_fail E step e True st' l s))"

text \<open>After the transition is chosen: keep the result under the step's name, clear approvals, go on.\<close>

definition store_result :: "string \<Rightarrow> loop_state \<Rightarrow> loop_state" where
  "store_result result l = l\<lparr>ls_state := (ls_state l)\<lparr>es_LastResult := result,
     es_StepResults := AList.update (ls_current l) result (es_StepResults (ls_state l)),
     es_ApprovalPendingStep := [], es_ApprovalGrantedStep := []\<rparr>\<rparr>"

definition finish_agent ::
  "'s engine \<Rightarrow> workflow_step \<Rightarrow> string \<Rightarrow> string \<Rightarrow> loop_state \<Rightarrow> 's \<Rightarrow> step_outcome \<times> 's" where
  "finish_agent E step result nextStepID l s =
     (if nextStepID = [] then
        (if ws_OnFail step \<noteq> [] then
           move_on E (ws_OnFail step)
             (store_result result (l\<lparr>ls_message := ''no gate condition matched and no on_success defined''\<rparr>)) s
         else (give_up (plain_err (''workflow step '' @ ls_current l @ '' has no on_success transition and no matching gates'')) l, s))
      else move_on E nextStepID (store_result result l)
             (en_finalizePendingOutcome E (ls_current l) ''ok'' [] [] None s))"

text \<open>The next step of a successful agent step: on_success, or the gates over its result.\<close>

definition agent_next ::
  "'s engine \<Rightarrow> workflow_step \<Rightarrow> string \<Rightarrow> loop_state \<Rightarrow> 's \<Rightarrow> step_outcome \<times> 's" where
  "agent_next E step result l s =
     (if ws_OnSuccess step = [] \<and> ws_Gates step \<noteq> [] then
        (case fst (evaluateGateStepTraced (en_unmarshal E) (ws_Gates step) result) of
           Inr target \<Rightarrow> finish_agent E step result target l s
         | Inl ge \<Rightarrow>
             (let msg = gate_error_text (en_quote E) ge;
                  gateErr = plain_err msg;
                  verdict = classifyGateEvalError (Some msg);
                  s1 = en_finalizePendingOutcome E (ls_current l) (fst verdict) (snd verdict) msg None s
              in if ws_OnFail step = []
                 then (give_up (wrap_err (''gate evaluation failed for step '' @ ls_current l @ '': '') [] gateErr) l, s1)
                 else if en_shuttingDown E s1 then (give_up gateErr l, s1)
                 else finish_agent E step result (ws_OnFail step)
                        (l\<lparr>ls_message := msg, ls_error := Some gateErr\<rparr>) s1))
      else finish_agent E step result (ws_OnSuccess step) l s)"

definition tagged_output :: "artifact \<Rightarrow> artifact" where
  "tagged_output a = AList.update ''class'' ''output'' a"

definition agent_succeeded ::
  "'s engine \<Rightarrow> execution_plan \<Rightarrow> task \<Rightarrow> workflow_step \<Rightarrow> nanos \<Rightarrow> agent_opts \<Rightarrow> swarm_role option \<Rightarrow> bool \<Rightarrow>
   string \<Rightarrow> string \<Rightarrow> loop_state \<Rightarrow> 's \<Rightarrow> step_outcome \<times> 's" where
  "agent_succeeded E plan task step stepTimeout opts roleConfig handled cid result l s =
     (let st = (if en_complexity E result \<noteq> [] then (ls_state l)\<lparr>es_ComplexityTier := en_complexity E result\<rparr> else ls_state l);
          l1 = (complete_current l)\<lparr>ls_containerID := cid, ls_result := result, ls_state := st,
                 ls_artifacts := en_inputArtifacts E (task_Payload task) @ map tagged_output (en_stepOutputArtifacts E s),
                 ls_message := [], ls_error := None\<rparr>
      in case (if result = [] then None else en_decodeResult E result) of
           None \<Rightarrow> agent_next E step result l1 s
         | Some r \<Rightarrow>
             (let l2 = l1\<lparr>ls_message := en_stripReasoning E (asr_Message r)\<rparr>
              in case handleSelectedWorkflowRoute E plan task step stepTimeout opts roleConfig r handled l2 s of
                   Some stop \<Rightarrow> stop
                 | None \<Rightarrow>
                     (case handleDelegatedTasks E task step r l2 s of
                        Some stop \<Rightarrow> stop
                      | None \<Rightarrow> agent_next E step result l2 s)))"

definition run_agent_step ::
  "'s engine \<Rightarrow> execution_plan \<Rightarrow> task \<Rightarrow> workflow_step \<Rightarrow> nanos \<Rightarrow> loop_state \<Rightarrow> 's \<Rightarrow> step_outcome \<times> 's" where
  "run_agent_step E plan task step stepTimeout l s =
     (case prepareAgentStepInput E plan step l s of ((opts, roleConfig, l1), s1) \<Rightarrow>
      case resolveResumeGuard E plan task (ls_current l1) s1 of (handled, childFailed, children) \<Rightarrow>
      if handled \<and> childFailed then
        (let l2 = complete_current l1
         in if ws_OnFail step \<noteq> [] then (Move (l2\<lparr>ls_current := ws_OnFail step\<rparr>), s1)
            else (give_up (plain_err (''delegated child failed and step '' @ en_quote E (ls_current l1) @
                             '' has no on_fail target'')) l2, s1))
      else (case dispatchAgentStep E plan (ls_current l1) step stepTimeout opts roleConfig handled children s1 of
              ((cid, result, Some e), s2) \<Rightarrow> agent_failed E plan task step e l1 s2
            | ((cid, result, None), s2) \<Rightarrow>
                agent_succeeded E plan task step stepTimeout opts roleConfig handled cid result l1 s2))"

section \<open>Gate and approval steps\<close>

definition runGateStep ::
  "'s engine \<Rightarrow> workflow_step \<Rightarrow> loop_state \<Rightarrow> 's \<Rightarrow> (step_err + string) \<times> 's" where
  "runGateStep E step l s =
     (let record = (\<lambda>outcome cls detail. en_recordStepOutcome E (ls_current l) ''gate'' [] outcome cls detail)
      in case fst (evaluateGateStepTraced (en_unmarshal E) (ws_Gates step) (es_LastResult (ls_state l))) of
           Inr target \<Rightarrow> (Inr target, record ''ok'' [] [] s)
         | Inl ge \<Rightarrow>
             (let msg = gate_error_text (en_quote E) ge;
                  verdict = classifyGateEvalError (Some msg)
              in if fst verdict = ''downstream_rejected'' \<and> ws_OnSuccess step \<noteq> []
                 then (Inr (ws_OnSuccess step), record ''ok'' [] [] s)
                 else (let s1 = (if fst verdict = ''parse_error'' \<and> ls_completed l \<noteq> []
                                 then en_finalizePendingOutcome E (last (ls_completed l)) (fst verdict) (snd verdict) msg
                                        (Some (ls_current l)) s
                                 else s);
                           s2 = record ''gate_failed'' (snd verdict) msg s1
                       in if ws_OnFail step = [] then (Inl (plain_err msg), s2) else (Inr (ws_OnFail step), s2))))"

definition run_gate_step :: "'s engine \<Rightarrow> workflow_step \<Rightarrow> loop_state \<Rightarrow> 's \<Rightarrow> step_outcome \<times> 's" where
  "run_gate_step E step l s = (case runGateStep E step l s of
       (Inl e, s1) \<Rightarrow> (give_up e l, s1)
     | (Inr next, s1) \<Rightarrow> move_on E next (complete_current l) s1)"

definition runApprovalStep ::
  "'s engine \<Rightarrow> task \<Rightarrow> workflow_step \<Rightarrow> loop_state \<Rightarrow> 's \<Rightarrow> (step_err + string option) \<times> loop_state \<times> 's" where
  "runApprovalStep E task step l s =
     (if es_ApprovalGrantedStep (ls_state l) = ls_current l then
        (if ws_OnSuccess step = []
         then (Inl (plain_err (''approval step '' @ ls_current l @ '' has no on_success transition'')), l, s)
         else (Inr (Some (ws_OnSuccess step)),
               l\<lparr>ls_state := (ls_state l)\<lparr>es_ApprovalPendingStep := [], es_ApprovalGrantedStep := []\<rparr>\<rparr>, s))
      else (let st = (ls_state l)\<lparr>es_CurrentStepID := ls_current l, es_CompletedSteps := ls_completed l,
                        es_ApprovalPendingStep := ls_current l, es_PausedReason := PauseReasonOperator\<rparr>
            in case saveExecutionState E (ls_exec l) st s of
                 ((Some e, ex), s1) \<Rightarrow> (Inl e, l\<lparr>ls_state := st, ls_exec := ex\<rparr>, s1)
               | ((None, ex), s1) \<Rightarrow>
                   (let s2 = snd (tr_UpdateStatus (en_repo E) (task_ID task) TaskStatusPending s1);
                        s3 = snd (en_execUpdateStatus E (ex_ID (ls_exec l)) ExecutionStatusPaused s2)
                    in (Inr None, l\<lparr>ls_state := st, ls_exec := ex\<rparr>, s3))))"

definition run_approval_step ::
  "'s engine \<Rightarrow> task \<Rightarrow> workflow_step \<Rightarrow> loop_state \<Rightarrow> 's \<Rightarrow> step_outcome \<times> 's" where
  "run_approval_step E task step l s = (case runApprovalStep E task step l s of
       (Inl e, l1, s1) \<Rightarrow> (give_up e l1, s1)
     | (Inr None, l1, s1) \<Rightarrow> (give_up errExecutionPaused l1, s1)
     | (Inr (Some next), l1, s1) \<Rightarrow> move_on E next (complete_current l1) s1)"

section \<open>Plan, project, A2A and system steps\<close>

definition run_plan_step ::
  "'s engine \<Rightarrow> workflow_step \<Rightarrow> nanos \<Rightarrow> loop_state \<Rightarrow> 's \<Rightarrow> step_outcome \<times> 's" where
  "run_plan_step E step stepTimeout l s =
     (case en_planStep E (ls_current l) step stepTimeout (ls_artifacts l) (ls_completed l) (ls_exec l, ls_state l) s of
        ((cid, result, next, completed, err), (ex, st), s1) \<Rightarrow>
          (let l1 = l\<lparr>ls_completed := completed, ls_exec := ex, ls_state := st\<rparr>
           in case err of
                Some e \<Rightarrow>
                  if IsLeadHandoff e then (give_up e l1, s1)
                  else route_on_fail E step e True ((error_state E e st)\<lparr>es_PlanSteps := [], es_PlanIndex := 0\<rparr>) l1 s1
              | None \<Rightarrow>
                  move_on E next ((complete_current l1)\<lparr>ls_containerID := cid, ls_result := result,
                    ls_state := st\<lparr>es_PlanSteps := [], es_PlanIndex := 0, es_LastResult := result,
                      es_ApprovalPendingStep := [], es_ApprovalGrantedStep := []\<rparr>\<rparr>) s1))"

text \<open>The spawn handler's result is the JSON text the loop formats from it.\<close>

definition run_spawn_step :: "'s engine \<Rightarrow> workflow_step \<Rightarrow> loop_state \<Rightarrow> 's \<Rightarrow> step_outcome \<times> 's" where
  "run_spawn_step E step l s =
     (case en_spawnProject E (ls_current l) step (es_StepResults (ls_state l)) s of
        (Inl e, s1) \<Rightarrow> route_on_fail E step e True (error_state E e (ls_state l)) l s1
      | (Inr result, s1) \<Rightarrow>
          move_on E (ws_OnSuccess step) ((complete_current l)\<lparr>ls_state := (ls_state l)\<lparr>es_LastResult := result\<rparr>\<rparr>) s1)"

definition call_result :: "(string \<Rightarrow> string) \<Rightarrow> call_project_result \<Rightarrow> string" where
  "call_result quote r = ''{'' @ quote_ascii ''cross_project_call_id'' @ '':'' @ quote (cp_CPCId r) @ '','' @
     quote_ascii ''callee_task_id'' @ '':'' @ quote (cp_CalleeTaskID r) @ ''}''"

definition run_call_step :: "'s engine \<Rightarrow> task \<Rightarrow> workflow_step \<Rightarrow> loop_state \<Rightarrow> 's \<Rightarrow> step_outcome \<times> 's" where
  "run_call_step E task step l s =
     (case en_callProject E (ls_current l) step (es_StepResults (ls_state l)) s of
        (Inl e, s1) \<Rightarrow> route_on_fail E step e True (error_state E e (ls_state l)) l s1
      | (Inr r, s1) \<Rightarrow>
          (let l1 = (complete_current l)\<lparr>ls_state := (ls_state l)\<lparr>es_LastResult := call_result (en_quote E) r,
                       es_PausedReason := cp_PauseReason r\<rparr>\<rparr>
           in case saveCheckpoint E (ls_exec l1) (ws_OnSuccess step) (ls_completed l1) (ls_state l1) s1 of
                ((Some e, ex), s2) \<Rightarrow> (give_up e (l1\<lparr>ls_exec := ex\<rparr>), s2)
              | ((None, ex), s2) \<Rightarrow>
                  (let s3 = snd (tr_UpdateStatus (en_repo E) (task_ID task) TaskStatusWaitingForChildren s2);
                       s4 = snd (en_execUpdateStatus E (ex_ID ex) ExecutionStatusPaused s3)
                   in (give_up errExecutionPaused (l1\<lparr>ls_exec := ex\<rparr>),
                       unblockParentIfChildrenDone (en_repo E) (task_ID task) s4))))"

text \<open>The A2A handler's result is its JSON text; a failed call may leave one too.\<close>

definition run_a2a_step :: "'s engine \<Rightarrow> workflow_step \<Rightarrow> loop_state \<Rightarrow> 's \<Rightarrow> step_outcome \<times> 's" where
  "run_a2a_step E step l s =
     (case en_a2aCall E (ls_current l) step s of
        ((result, Some e), s1) \<Rightarrow>
          (let st = (case result of
                 Some buf \<Rightarrow> if buf \<noteq> [] then (ls_state l)\<lparr>es_LastResult := buf\<rparr> else error_state E e (ls_state l)
               | None \<Rightarrow> error_state E e (ls_state l))
           in route_on_fail E step e True st l s1)
      | ((result, None), s1) \<Rightarrow>
          move_on E (ws_OnSuccess step) ((complete_current l)\<lparr>ls_state := (ls_state l)\<lparr>es_LastResult :=
            (case result of Some buf \<Rightarrow> buf | None \<Rightarrow> ''{}'')\<rparr>\<rparr>) s1)"

definition run_system_step :: "'s engine \<Rightarrow> workflow_step \<Rightarrow> loop_state \<Rightarrow> 's \<Rightarrow> step_outcome \<times> 's" where
  "run_system_step E step l s =
     (let record = (\<lambda>outcome cls detail. en_recordStepOutcome E (ls_current l) ''system'' (ws_Handler step) outcome cls detail)
      in case en_systemHandler E (ws_Handler step) of
           None \<Rightarrow>
             (let e = plain_err (''system step '' @ ls_current l @ '': no handler registered for '' @
                        en_quote E (ws_Handler step) @ '' (registered: '' @ en_systemHandlerNames E @ '')'')
              in route_on_fail E step e False (error_state E e (ls_state l)) l
                   (record ''gate_failed'' ''unknown_handler'' (se_msg e) s))
         | Some handler \<Rightarrow>
             (case handler (ls_current l) step (es_LastResult (ls_state l)) s of
                (Inl e, s1) \<Rightarrow>
                  route_on_fail E step e False (error_state E e (ls_state l)) l
                    (record ''gate_failed'' ''handler_failed'' (se_msg e) s1)
              | (Inr result, s1) \<Rightarrow>
                  move_on E (ws_OnSuccess step) ((complete_current l)\<lparr>ls_state := (ls_state l)\<lparr>es_LastResult :=
                    (if result \<noteq> [] then result else ''{}'')\<rparr>\<rparr>) (record ''ok'' [] [] s1)))"

section \<open>The loop\<close>

definition dispatch_step ::
  "'s engine \<Rightarrow> execution_plan \<Rightarrow> task \<Rightarrow> workflow_step \<Rightarrow> nanos \<Rightarrow> loop_state \<Rightarrow> 's \<Rightarrow> step_outcome \<times> 's" where
  "dispatch_step E plan task step stepTimeout l s =
     (if ws_Type step = ''agent'' then run_agent_step E plan task step stepTimeout l s
      else if ws_Type step = ''gate'' then run_gate_step E step l s
      else if ws_Type step = ''approval'' then run_approval_step E task step l s
      else if ws_Type step = ''plan'' then run_plan_step E step stepTimeout l s
      else if ws_Type step = ''spawn_project'' then run_spawn_step E step l s
      else if ws_Type step = ''call_project'' then run_call_step E task step l s
      else if ws_Type step = ''a2a_call'' then run_a2a_step E step l s
      else if ws_Type step = ''system'' then run_system_step E step l s
      else (give_up (plain_err (''workflow step type '' @ ws_Type step @ '' is not implemented yet'')) l, s))"

definition step_timeout ::
  "'s engine \<Rightarrow> execution_plan \<Rightarrow> task \<Rightarrow> nanos \<Rightarrow> workflow_step \<Rightarrow> execution_state \<Rightarrow> nanos" where
  "step_timeout E plan task timeout step st =
     (let t1 = (if ws_Timeout step = [] then timeout
                else (case en_parseDuration E (ws_Timeout step) of
                        Some d \<Rightarrow> if d > 0 then d else timeout | None \<Rightarrow> timeout));
          t2 = (if tb_Enabled (en_toolBudget E)
                then applyStepTimeoutBudget t1 (findSwarmRole (pl_roles plan) (ws_Role step)) (es_ComplexityTier st)
                       (task_CreationSource task \<noteq> TaskCreationSourceUser) (en_toolBudget E)
                else t1);
          cap = cf_StepTimeoutSeconds (en_cfBudget E (task_Payload task)) * Second
      in if cf_StepTimeoutSeconds (en_cfBudget E (task_Payload task)) > 0 \<and> cap < t2 then cap else t2)"

definition max_visits :: "'s engine \<Rightarrow> task \<Rightarrow> workflow \<Rightarrow> int" where
  "max_visits E task w =
     (let m = (if wf_MaxStepVisits w \<le> 0 then 3 else wf_MaxStepVisits w);
          cf = cf_MaxItersPerStep (en_cfBudget E (task_Payload task))
      in if cf > 0 \<and> cf < m then cf else m)"

definition max_iterations :: "workflow \<Rightarrow> int" where
  "max_iterations w = (if wf_MaxIterations w \<le> 0 then 20 else wf_MaxIterations w)"

text \<open>Each iteration that finds a step logs its dispatch; the log is the third component of the result.\<close>

type_synonym dispatch_log = "(string \<times> int) list"

function attempt_loop ::
  "'s engine \<Rightarrow> execution_plan \<Rightarrow> task \<Rightarrow> nanos \<Rightarrow> int \<Rightarrow> (string \<Rightarrow> int) \<Rightarrow> loop_state \<Rightarrow> 's \<Rightarrow>
   attempt_result \<times> execution \<times> dispatch_log \<times> 's" where
  "attempt_loop E plan task timeout iterations visitCount l s =
     (let w = pl_workflow plan; cur = ls_current l in
      case wf_Terminals w cur of
        Some terminal \<Rightarrow>
          (case resolveTerminalOutcome E terminal l s of
             ((cid, result, err), s1) \<Rightarrow> ((cid, result, ls_completed l, err), ls_exec l, [], s1))
      | None \<Rightarrow>
       (case wf_Steps w cur of
          None \<Rightarrow> (([], [], ls_completed l, Some (plain_err (missing_step_msg cur))), ls_exec l, [], s)
        | Some step \<Rightarrow>
            if iterations + 1 > max_iterations w
            then (([], [], ls_completed l, Some (plain_err (''workflow exceeded '' @ show_int (max_iterations w) @
                     '' total iterations '' @ map char_of [226, 128, 148 :: nat] @ '' terminating''))),
                  ls_exec l, [(cur, iterations + 1)], s)
            else if visitCount cur + 1 > max_visits E task w
            then (([], [], ls_completed l, Some (plain_err (''step '' @ cur @ '' visited '' @ show_int (visitCount cur + 1) @
                     '' times (max '' @ show_int (max_visits E task w) @ '') '' @ map char_of [226, 128, 148 :: nat] @
                     '' likely infinite rework loop''))),
                  ls_exec l, [(cur, iterations + 1)], s)
            else (let visits = (if ws_Type step = ''plan'' then visitCount else visitCount(cur := visitCount cur + 1));
                      l1 = l\<lparr>ls_state := (ls_state l)\<lparr>es_Iterations := iterations + 1, es_VisitCounts := visits\<rparr>\<rparr>;
                      t = step_timeout E plan task timeout step (ls_state l1)
                  in case dispatch_step E plan task step t l1 s of
                       (Stop r ex, s1) \<Rightarrow> (r, ex, [(cur, iterations + 1)], s1)
                     | (Move l2, s1) \<Rightarrow>
                         (case attempt_loop E plan task timeout (iterations + 1) visits l2 s1 of
                            (r, ex, lg, s2) \<Rightarrow> (r, ex, (cur, iterations + 1) # lg, s2)))))"
  by pat_completeness auto
termination
  by (relation "measure (\<lambda>(_, plan, _, _, iterations, _). nat (max_iterations (pl_workflow plan) + 1 - iterations))") auto

declare attempt_loop.simps [simp del]

definition start_position :: "'s engine \<Rightarrow> execution_plan \<Rightarrow> task \<Rightarrow> execution \<Rightarrow> loop_state" where
  "start_position E plan task ex =
     \<lparr>ls_current = (case ex_CurrentStepID ex of
          Some c \<Rightarrow> if c \<noteq> [] then c else wf_Entrypoint (pl_workflow plan)
        | None \<Rightarrow> wf_Entrypoint (pl_workflow plan)),
      ls_completed = ex_CompletedSteps ex, ls_state = loadExecutionState ex, ls_exec = ex,
      ls_containerID = [], ls_result = [], ls_artifacts = en_inputArtifacts E (task_Payload task),
      ls_message = [], ls_error = None, ls_forkApplied = False\<rparr>"

text \<open>The cleanup on a fresh start and the best-effort publication of the first step.\<close>

definition executeWorkflowAttempt ::
  "'s engine \<Rightarrow> execution_plan \<Rightarrow> task \<Rightarrow> execution \<Rightarrow> nanos \<Rightarrow> 's \<Rightarrow> attempt_result \<times> execution \<times> dispatch_log \<times> 's" where
  "executeWorkflowAttempt E plan task ex timeout s =
     (let l = start_position E plan task ex;
          s1 = (if ls_current l = wf_Entrypoint (pl_workflow plan) \<and> ls_completed l = [] then en_cleanup E s else s)
      in case (if wf_Terminals (pl_workflow plan) (ls_current l) \<noteq> None then (ex, s1)
               else (case saveCheckpoint E ex (ls_current l) (ls_completed l) (ls_state l) s1 of ((_, ex1), s2) \<Rightarrow> (ex1, s2))) of
           (ex1, s2) \<Rightarrow> attempt_loop E plan task timeout (es_Iterations (ls_state l)) (es_VisitCounts (ls_state l))
                          (l\<lparr>ls_exec := ex1\<rparr>) s2)"

end
