(* ===== verification/WorkflowProps.thy ===== *)
theory WorkflowProps
  imports WorkflowEngine
begin

text \<open>
  Properties of the workflow loop, for every behaviour of the agents, handlers, repositories and shutdowns it
  calls: how often it can dispatch, which transitions it can take, what it has saved when it takes one, and
  what an error leaves behind.
\<close>

section \<open>One step\<close>

definition successors :: "workflow_step \<Rightarrow> string set" where
  "successors step = {ws_OnSuccess step, ws_OnFail step} \<union> wg_Target ` set (ws_Gates step)"

text \<open>The execution row carries the loop's position.\<close>

definition saved_at :: "loop_state \<Rightarrow> bool" where
  "saved_at l \<longleftrightarrow> ex_CurrentStepID (ls_exec l) = Some (ls_current l) \<and> ex_CompletedSteps (ls_exec l) = ls_completed l \<and>
     ex_StateSnapshot (ls_exec l) = Some ((ls_state l)\<lparr>es_CurrentStepID := ls_current l, es_CompletedSteps := ls_completed l\<rparr>)"

definition good_move :: "workflow_step \<Rightarrow> loop_state \<Rightarrow> bool" where
  "good_move step l \<longleftrightarrow> ls_current l \<in> successors step \<and> ls_completed l \<noteq> [] \<and> (ls_current l \<noteq> [] \<longrightarrow> saved_at l)"

text \<open>What the loop relies on of \<open>executePlanStep\<close>: on success it returns the step's on_success.\<close>

definition plan_follows :: "'s engine \<Rightarrow> bool" where
  "plan_follows E \<longleftrightarrow> (\<forall>c step t arts done p s cid result next completed p' s'.
     en_planStep E c step t arts done p s = ((cid, result, next, completed, None), p', s') \<longrightarrow> next = ws_OnSuccess step)"

lemma successors_simps [simp]: "ws_OnSuccess step \<in> successors step" "ws_OnFail step \<in> successors step"
  by (simp_all add: successors_def)

lemma complete_current_simps [simp]:
  "ls_completed (complete_current l) = ls_completed l @ [ls_current l]" "ls_current (complete_current l) = ls_current l"
  "ls_state (complete_current l) = ls_state l" "ls_exec (complete_current l) = ls_exec l"
  "ls_message (complete_current l) = ls_message l" "ls_error (complete_current l) = ls_error l"
  by (simp_all add: complete_current_def)

lemma store_result_simps [simp]:
  "ls_completed (store_result r l) = ls_completed l" "ls_current (store_result r l) = ls_current l"
  "ls_exec (store_result r l) = ls_exec l" "ls_message (store_result r l) = ls_message l" "ls_error (store_result r l) = ls_error l"
  by (simp_all add: store_result_def)

lemma give_up_not_Move [simp]: "give_up e l \<noteq> Move l'" "Move l' \<noteq> give_up e l"
  by (simp_all add: give_up_def)

lemma move_on_Move:
  assumes "move_on E n l s = (Move l', s')"
  shows "ls_current l' = n" and "ls_completed l' = ls_completed l" and "ls_state l' = ls_state l"
    and "ls_message l' = ls_message l" and "ls_error l' = ls_error l" and "n \<noteq> [] \<Longrightarrow> saved_at l'"
  using assms by (auto simp: move_on_def saveCheckpoint_def saveExecutionState_def saved_at_def give_up_def Let_def
      split: prod.splits option.splits if_splits)

lemma move_on_good_move:
  assumes "move_on E n l s = (Move l', s')" and "n \<in> successors step" and "ls_completed l \<noteq> []"
  shows "good_move step l'"
  using move_on_Move [OF assms(1)] assms(2,3) by (simp add: good_move_def)

lemma move_on_success:
  "move_on E (ws_OnSuccess step) l s = (Move l', s') \<Longrightarrow> ls_completed l \<noteq> [] \<Longrightarrow> good_move step l'"
  by (erule move_on_good_move) simp_all

lemma route_on_fail_Move:
  assumes "route_on_fail E step e tell st l s = (Move l', s')"
  shows "good_move step l'" and "ls_current l' = ws_OnFail step" and "\<not> en_shuttingDown E s"
  using assms move_on_good_move [of E "ws_OnFail step"] move_on_Move(1) [of E "ws_OnFail step"]
  by (auto simp: route_on_fail_def Let_def split: if_splits)

lemma gate_target:
  assumes "fst (evaluateGateStepTraced u gates x) = Inr t" shows "t \<in> wg_Target ` set gates"
  using assms walk_gates_some
  by (fastforce simp: evaluateGateStepTraced_def split: if_splits sum.splits option.splits prod.splits)

lemma finish_agent_Move:
  assumes "finish_agent E step r n l s = (Move l', s')" and "n \<in> successors step" and "ls_completed l \<noteq> []"
  shows "good_move step l'" and "n \<noteq> [] \<Longrightarrow> ls_current l' = n"
proof -
  show "good_move step l'"
  proof (cases "n = []")
    case True
    then have "move_on E (ws_OnFail step)
        (store_result r (l\<lparr>ls_message := ''no gate condition matched and no on_success defined''\<rparr>)) s = (Move l', s')"
      using assms(1) by (auto simp: finish_agent_def split: if_splits)
    then show ?thesis by (rule move_on_good_move) (simp_all add: assms(3))
  next
    case False
    then have "move_on E n (store_result r l) (en_finalizePendingOutcome E (ls_current l) ''ok'' [] [] None s) = (Move l', s')"
      using assms(1) by (simp add: finish_agent_def)
    then show ?thesis by (rule move_on_good_move) (simp_all add: assms(2,3))
  qed
  show "ls_current l' = n" if "n \<noteq> []"
    using that assms(1) by (auto simp: finish_agent_def dest: move_on_Move(1))
qed

lemma agent_next_Move:
  assumes "agent_next E step r l s = (Move l', s')" and "ls_completed l \<noteq> []"
  shows "good_move step l'"
proof (cases "ws_OnSuccess step = [] \<and> ws_Gates step \<noteq> []")
  case True
  show ?thesis
  proof (cases "fst (evaluateGateStepTraced (en_unmarshal E) (ws_Gates step) r)")
    case (Inl ge)
    with True assms show ?thesis
      by (auto simp: agent_next_def Let_def split: if_splits dest!: finish_agent_Move(1))
  next
    case (Inr t)
    then have "t \<in> successors step" using gate_target by (auto simp: successors_def)
    with True Inr assms show ?thesis by (auto simp: agent_next_def dest: finish_agent_Move(1))
  qed
next
  case False
  with assms show ?thesis by (auto simp: agent_next_def dest: finish_agent_Move(1))
qed

lemma handleSelectedWorkflowRoute_stops:
  "handleSelectedWorkflowRoute E plan task step t opts role r h l s = Some out \<Longrightarrow> fst out \<noteq> Move l'"
  by (auto simp: handleSelectedWorkflowRoute_def split: if_splits sum.splits prod.splits option.splits)

lemma handleDelegatedTasks_stops:
  "handleDelegatedTasks E task step r l s = Some out \<Longrightarrow> fst out \<noteq> Move l'"
  by (auto simp: handleDelegatedTasks_def split: if_splits prod.splits option.splits)

lemma agent_succeeded_elim:
  assumes "agent_succeeded E plan task step t opts role h cid r l s = (Move l', s')"
  obtains l1 where "agent_next E step r l1 s = (Move l', s')" "ls_completed l1 \<noteq> []"
proof -
  define l1 where "l1 = (complete_current l)\<lparr>ls_containerID := cid, ls_result := r,
    ls_state := (if en_complexity E r \<noteq> [] then (ls_state l)\<lparr>es_ComplexityTier := en_complexity E r\<rparr> else ls_state l),
    ls_artifacts := en_inputArtifacts E (task_Payload task) @ map tagged_output (en_stepOutputArtifacts E s),
    ls_message := [], ls_error := None\<rparr>"
  define l2 where "l2 a = l1\<lparr>ls_message := en_stripReasoning E (asr_Message a)\<rparr>" for a :: agent_step_result
  define ro where "ro = (if r = [] then None else en_decodeResult E r)"
  have l: "ls_completed l1 \<noteq> []" "ls_completed (l2 a) \<noteq> []" for a :: agent_step_result by (simp_all add: l1_def l2_def)
  have run: "agent_succeeded E plan task step t opts role h cid r l s =
      (case ro of None \<Rightarrow> agent_next E step r l1 s
       | Some a \<Rightarrow> (case handleSelectedWorkflowRoute E plan task step t opts role a h (l2 a) s of
             Some stop \<Rightarrow> stop
           | None \<Rightarrow> (case handleDelegatedTasks E task step a (l2 a) s of
               Some stop \<Rightarrow> stop | None \<Rightarrow> agent_next E step r (l2 a) s)))"
    unfolding agent_succeeded_def Let_def l1_def l2_def ro_def by (rule refl)
  show thesis
  proof (cases ro)
    case None
    with assms run l(1) show thesis by (intro that [of l1]) simp_all
  next
    case (Some a)
    with assms run have "handleSelectedWorkflowRoute E plan task step t opts role a h (l2 a) s = None"
      using handleSelectedWorkflowRoute_stops by (force split: option.splits)
    moreover with Some assms run have "handleDelegatedTasks E task step a (l2 a) s = None"
      using handleDelegatedTasks_stops by (force split: option.splits)
    ultimately have "agent_next E step r (l2 a) s = (Move l', s')" using Some assms run by simp
    then show thesis by (rule that) (rule l(2))
  qed
qed

lemma agent_succeeded_Move:
  "agent_succeeded E plan task step t opts role h cid r l s = (Move l', s') \<Longrightarrow> good_move step l'"
  by (erule agent_succeeded_elim) (rule agent_next_Move)

lemma agent_failed_Move:
  assumes "agent_failed E plan task step e l s = (Move l', s')"
  shows "good_move step l'" and "ls_current l' = ws_OnFail step" and "\<not> en_shuttingDown E s"
proof -
  obtain st where "route_on_fail E step e True st l s = (Move l', s')"
    using assms by (auto simp: agent_failed_def Let_def split: if_splits)
  from route_on_fail_Move [OF this]
  show "good_move step l'" and "ls_current l' = ws_OnFail step" and "\<not> en_shuttingDown E s" by simp_all
qed

lemma prepare_keeps:
  assumes "prepareAgentStepInput E plan step l s = ((opts, role, l1), s1)"
  shows "ls_current l1 = ls_current l" and "ls_completed l1 = ls_completed l" and "ls_exec l1 = ls_exec l"
  using assms by (auto simp: prepareAgentStepInput_def Let_def split: prod.splits)

lemma run_agent_step_Move:
  assumes "run_agent_step E plan task step t l s = (Move l', s')"
  shows "ls_current l' \<in> successors step"
    and "\<not> isStrictRouteStep (pl_workflow plan) (ls_current l) \<Longrightarrow> good_move step l'"
proof -
  obtain opts role l1 s1 where p: "prepareAgentStepInput E plan step l s = ((opts, role, l1), s1)" by (metis surj_pair)
  obtain h f kids where g: "resolveResumeGuard E plan task (ls_current l1) s1 = (h, f, kids)" by (metis surj_pair)
  have cur: "ls_current l1 = ls_current l" using prepare_keeps [OF p] by simp
  have "good_move step l' \<or> (h \<and> f \<and> ls_current l' = ws_OnFail step)"
  proof (cases "h \<and> f")
    case True
    with assms p g show ?thesis by (auto simp: run_agent_step_def Let_def split: if_splits)
  next
    case False
    obtain cid r err s2 where d:
      "dispatchAgentStep E plan (ls_current l1) step t opts role h kids s1 = ((cid, r, err), s2)" by (metis surj_pair)
    with False assms p g show ?thesis
      by (cases err) (auto simp: run_agent_step_def dest: agent_failed_Move(1) agent_succeeded_Move)
  qed
  then show "ls_current l' \<in> successors step" by (auto simp: good_move_def)
  assume "\<not> isStrictRouteStep (pl_workflow plan) (ls_current l)"
  with g cur have "\<not> h" by (auto simp: resolveResumeGuard_def)
  with \<open>good_move step l' \<or> (h \<and> f \<and> ls_current l' = ws_OnFail step)\<close> show "good_move step l'" by blast
qed

lemma run_gate_step_Move:
  assumes "run_gate_step E step l s = (Move l', s')" shows "good_move step l'"
proof -
  obtain res s1 where r: "runGateStep E step l s = (res, s1)" by (metis surj_pair)
  with assms obtain n where n: "res = Inr n" "move_on E n (complete_current l) s1 = (Move l', s')"
    by (auto simp: run_gate_step_def split: sum.splits)
  have "n \<in> successors step"
    using r n(1) gate_target [of "en_unmarshal E" "ws_Gates step" "es_LastResult (ls_state l)"]
    by (auto simp: runGateStep_def successors_def Let_def split: sum.splits if_splits)
  with n(2) show ?thesis by (auto intro: move_on_good_move)
qed

lemma run_approval_step_Move:
  assumes "run_approval_step E task step l s = (Move l', s')" shows "good_move step l'"
proof -
  obtain res l1 s1 where r: "runApprovalStep E task step l s = (res, l1, s1)" by (metis surj_pair)
  with assms obtain n where n: "res = Inr (Some n)" "move_on E n (complete_current l1) s1 = (Move l', s')"
    by (auto simp: run_approval_step_def split: sum.splits option.splits)
  have "n = ws_OnSuccess step"
    using r n(1) by (auto simp: runApprovalStep_def Let_def split: if_splits prod.splits option.splits)
  with n(2) show ?thesis by (auto intro: move_on_success)
qed

lemma run_plan_step_Move:
  assumes "run_plan_step E step t l s = (Move l', s')" and "plan_follows E" shows "good_move step l'"
proof -
  obtain cid result n completed err ex st s1 where
    p: "en_planStep E (ls_current l) step t (ls_artifacts l) (ls_completed l) (ls_exec l, ls_state l) s
      = ((cid, result, n, completed, err), (ex, st), s1)" by (metis surj_pair)
  show ?thesis
  proof (cases err)
    case None
    with assms(2) p have "n = ws_OnSuccess step" unfolding plan_follows_def by blast
    with None p assms(1) show ?thesis
      by (auto simp: run_plan_step_def Let_def intro: move_on_success)
  next
    case (Some e)
    with p assms(1) show ?thesis
      by (auto simp: run_plan_step_def Let_def split: if_splits dest!: route_on_fail_Move(1))
  qed
qed

lemma run_spawn_step_Move: "run_spawn_step E step l s = (Move l', s') \<Longrightarrow> good_move step l'"
  by (auto simp: run_spawn_step_def split: prod.splits sum.splits intro: route_on_fail_Move(1) move_on_success)

lemma run_call_step_Move: "run_call_step E task step l s = (Move l', s') \<Longrightarrow> good_move step l'"
  by (auto simp: run_call_step_def Let_def split: prod.splits sum.splits option.splits dest: route_on_fail_Move(1))

lemma run_a2a_step_Move: "run_a2a_step E step l s = (Move l', s') \<Longrightarrow> good_move step l'"
  by (auto simp: run_a2a_step_def Let_def split: prod.splits option.splits intro: route_on_fail_Move(1) move_on_success)

lemma run_system_step_Move: "run_system_step E step l s = (Move l', s') \<Longrightarrow> good_move step l'"
  by (auto simp: run_system_step_def Let_def split: prod.splits sum.splits option.splits
      intro: route_on_fail_Move(1) move_on_success)

lemmas step_moves = run_gate_step_Move run_approval_step_Move run_plan_step_Move run_spawn_step_Move
  run_call_step_Move run_a2a_step_Move run_system_step_Move

lemma dispatch_step_Move:
  assumes "dispatch_step E plan task step t l s = (Move l', s')" and "plan_follows E"
  shows "ls_current l' \<in> successors step"
    and "\<not> (ws_Type step = ''agent'' \<and> isStrictRouteStep (pl_workflow plan) (ls_current l)) \<Longrightarrow> good_move step l'"
proof -
  have moved: "run_agent_step E plan task step t l s = (Move l', s') \<and> ws_Type step = ''agent'' \<or> good_move step l'"
    using assms step_moves [of E] unfolding dispatch_step_def by (auto split: if_splits)
  from moved show "ls_current l' \<in> successors step" using run_agent_step_Move(1) by (auto simp: good_move_def)
  show "good_move step l'" if "\<not> (ws_Type step = ''agent'' \<and> isStrictRouteStep (pl_workflow plan) (ls_current l))"
    using moved that by (auto intro: run_agent_step_Move(2))
qed

lemma give_up_error: "Stop r ex = give_up e l \<Longrightarrow> snd (snd (snd r)) = Some e"
  by (simp add: give_up_def)

lemma Stop_error_simps:
  "move_on E n l s = (Stop r ex, s') \<Longrightarrow> snd (snd (snd r)) \<noteq> None"
  "route_on_fail E step e tell st l s = (Stop r ex, s') \<Longrightarrow> snd (snd (snd r)) \<noteq> None"
  by (auto simp: route_on_fail_def move_on_def give_up_def Let_def split: prod.splits option.splits if_splits)

lemma handled_Stop_error:
  "handleSelectedWorkflowRoute E plan task step t opts role a h l s = Some (Stop r ex, s') \<Longrightarrow> snd (snd (snd r)) \<noteq> None"
  "handleDelegatedTasks E task step a l s = Some (Stop r ex, s') \<Longrightarrow> snd (snd (snd r)) \<noteq> None"
  by (auto simp: handleSelectedWorkflowRoute_def handleDelegatedTasks_def give_up_def
      split: if_splits sum.splits prod.splits option.splits)

lemma finish_agent_Stop_error: "finish_agent E step res n l s = (Stop r ex, s') \<Longrightarrow> snd (snd (snd r)) \<noteq> None"
  by (auto simp: finish_agent_def split: if_splits dest: Stop_error_simps give_up_error [OF sym])

lemma agent_next_Stop_error: "agent_next E step res l s = (Stop r ex, s') \<Longrightarrow> snd (snd (snd r)) \<noteq> None"
  by (auto simp: agent_next_def Let_def split: if_splits sum.splits
      dest: finish_agent_Stop_error give_up_error [OF sym])

lemma agent_succeeded_Stop_error:
  "agent_succeeded E plan task step t opts role h cid res l s = (Stop r ex, s') \<Longrightarrow> snd (snd (snd r)) \<noteq> None"
  unfolding agent_succeeded_def Let_def
  by (auto split: if_splits option.splits dest: agent_next_Stop_error handled_Stop_error)

lemma run_agent_step_Stop_error:
  assumes "run_agent_step E plan task step t l s = (Stop r ex, s')" shows "snd (snd (snd r)) \<noteq> None"
proof -
  obtain opts role l1 s1 where p: "prepareAgentStepInput E plan step l s = ((opts, role, l1), s1)" by (metis surj_pair)
  obtain h f kids where g: "resolveResumeGuard E plan task (ls_current l1) s1 = (h, f, kids)" by (metis surj_pair)
  obtain cid res err s2 where d:
    "dispatchAgentStep E plan (ls_current l1) step t opts role h kids s1 = ((cid, res, err), s2)" by (metis surj_pair)
  show ?thesis
  proof (cases "h \<and> f")
    case True
    with assms p g show ?thesis
      by (auto simp: run_agent_step_def Let_def split: if_splits dest: give_up_error [OF sym])
  next
    case False
    with assms p g d show ?thesis
      by (cases err) (auto simp: run_agent_step_def agent_failed_def Let_def split: if_splits
          dest: agent_succeeded_Stop_error Stop_error_simps give_up_error [OF sym])
  qed
qed

lemma other_steps_Stop_error:
  "run_gate_step E step l s = (Stop r ex, s') \<Longrightarrow> snd (snd (snd r)) \<noteq> None"
  "run_approval_step E task step l s = (Stop r ex, s') \<Longrightarrow> snd (snd (snd r)) \<noteq> None"
  "run_plan_step E step t l s = (Stop r ex, s') \<Longrightarrow> snd (snd (snd r)) \<noteq> None"
  "run_spawn_step E step l s = (Stop r ex, s') \<Longrightarrow> snd (snd (snd r)) \<noteq> None"
  "run_call_step E task step l s = (Stop r ex, s') \<Longrightarrow> snd (snd (snd r)) \<noteq> None"
  "run_a2a_step E step l s = (Stop r ex, s') \<Longrightarrow> snd (snd (snd r)) \<noteq> None"
  "run_system_step E step l s = (Stop r ex, s') \<Longrightarrow> snd (snd (snd r)) \<noteq> None"
  by (auto simp: run_gate_step_def run_approval_step_def run_plan_step_def run_spawn_step_def run_call_step_def
      run_a2a_step_def run_system_step_def Let_def split: prod.splits sum.splits option.splits if_splits
      dest: Stop_error_simps give_up_error [OF sym])

text \<open>A step never ends an attempt with success: only a terminal does.\<close>

lemma dispatch_step_Stop_error:
  assumes "dispatch_step E plan task step t l s = (Stop r ex, s')" shows "snd (snd (snd r)) \<noteq> None"
  using assms unfolding dispatch_step_def
  by (auto split: if_splits dest: run_agent_step_Stop_error other_steps_Stop_error give_up_error [OF sym])

section \<open>The loop\<close>

lemma attempt_loop_elim:
  assumes "attempt_loop E plan task timeout it vc l s = (r, ex, lg, s')"
  obtains (terminal) t where "wf_Terminals (pl_workflow plan) (ls_current l) = Some t" "lg = []"
      "resolveTerminalOutcome E t l s = ((fst r, fst (snd r), snd (snd (snd r))), s')"
  | (missing) "lg = []" "snd (snd (snd r)) \<noteq> None" "wf_Terminals (pl_workflow plan) (ls_current l) = None"
      "wf_Steps (pl_workflow plan) (ls_current l) = None"
  | (refused) step where "wf_Terminals (pl_workflow plan) (ls_current l) = None"
      "wf_Steps (pl_workflow plan) (ls_current l) = Some step" "lg = [(ls_current l, it + 1)]" "snd (snd (snd r)) \<noteq> None"
      "max_iterations (pl_workflow plan) < it + 1 \<or>
       (\<exists>m. snd (snd (snd r)) = Some (plain_err (''step '' @ ls_current l @ '' visited '' @ m)))"
  | (stopped) step t l1 where "wf_Terminals (pl_workflow plan) (ls_current l) = None"
      "wf_Steps (pl_workflow plan) (ls_current l) = Some step" "lg = [(ls_current l, it + 1)]" "snd (snd (snd r)) \<noteq> None"
      "it + 1 \<le> max_iterations (pl_workflow plan)" "ls_current l1 = ls_current l"
      "dispatch_step E plan task step t l1 s = (Stop r ex, s')"
  | (moved) step visits l1 t l2 s1 lg' where "wf_Terminals (pl_workflow plan) (ls_current l) = None"
      "wf_Steps (pl_workflow plan) (ls_current l) = Some step" "it + 1 \<le> max_iterations (pl_workflow plan)"
      "vc (ls_current l) + 1 \<le> max_visits E task (pl_workflow plan)"
      "visits = (if ws_Type step = ''plan'' then vc else vc(ls_current l := vc (ls_current l) + 1))"
      "dispatch_step E plan task step t l1 s = (Move l2, s1)"
      "attempt_loop E plan task timeout (it + 1) visits l2 s1 = (r, ex, lg', s')" "lg = (ls_current l, it + 1) # lg'"
proof (cases "wf_Terminals (pl_workflow plan) (ls_current l)")
  case (Some t)
  then show thesis using assms terminal by (auto simp: attempt_loop.simps [of E] Let_def split: prod.splits)
next
  case no_term: None
  show thesis
  proof (cases "wf_Steps (pl_workflow plan) (ls_current l)")
    case None
    with no_term assms show thesis by (intro missing) (auto simp: attempt_loop.simps [of E] Let_def)
  next
    case (Some step)
    show thesis
    proof (cases "it + 1 \<le> max_iterations (pl_workflow plan) \<and> vc (ls_current l) + 1 \<le> max_visits E task (pl_workflow plan)")
      case False
      with no_term Some assms show thesis
        by (intro refused) (auto simp: attempt_loop.simps [of E] Let_def split: if_splits)
    next
      case ok: True
      let ?visits = "if ws_Type step = ''plan'' then vc else vc(ls_current l := vc (ls_current l) + 1)"
      let ?l1 = "l\<lparr>ls_state := (ls_state l)\<lparr>es_Iterations := it + 1, es_VisitCounts := ?visits\<rparr>\<rparr>"
      let ?t = "step_timeout E plan task timeout step (ls_state ?l1)"
      obtain out s1 where d: "dispatch_step E plan task step ?t ?l1 s = (out, s1)" by (metis surj_pair)
      have run: "attempt_loop E plan task timeout it vc l s = (case out of
          Stop r ex \<Rightarrow> (r, ex, [(ls_current l, it + 1)], s1)
        | Move l2 \<Rightarrow> (case attempt_loop E plan task timeout (it + 1) ?visits l2 s1 of
            (r, ex, lg, s2) \<Rightarrow> (r, ex, (ls_current l, it + 1) # lg, s2)))"
        using ok no_term Some d by (subst attempt_loop.simps) (simp add: Let_def split: step_outcome.split)
      show thesis
      proof (cases out)
        case (Stop r0 ex0)
        have "snd (snd (snd r0)) \<noteq> None" by (rule dispatch_step_Stop_error [OF d [unfolded Stop]])
        with Stop run assms ok no_term Some d show thesis by (intro stopped [of step ?l1 ?t]) simp_all
      next
        case (Move l2)
        obtain r0 ex0 lg0 s0 where "attempt_loop E plan task timeout (it + 1) ?visits l2 s1 = (r0, ex0, lg0, s0)"
          by (metis surj_pair)
        with Move run assms d ok no_term Some show thesis by (intro moved [of step ?visits ?t ?l1 l2 s1 lg0]) auto
      qed
    qed
  qed
qed

definition dispatches :: "string \<Rightarrow> dispatch_log \<Rightarrow> nat" where
  "dispatches c lg = length (filter (\<lambda>e. fst e = c) lg)"

lemma attempt_loop_bounds:
  assumes "attempt_loop E plan task timeout it vc l s = (r, ex, lg, s')"
  shows "map snd lg = map (\<lambda>k. it + 1 + int k) [0..<length lg]
       \<and> int (length lg) \<le> max 0 (max_iterations (pl_workflow plan) - it) + 1"
    and "wf_Steps (pl_workflow plan) c = Some st \<Longrightarrow> ws_Type st \<noteq> ''plan'' \<Longrightarrow>
       int (dispatches c (butlast lg)) \<le> max 0 (max_visits E task (pl_workflow plan) - vc c)"
  using assms
proof (induction lg arbitrary: it vc l s)
  case (Cons e lg0)
  {
    case 1
    from 1(1) show ?case
    proof (cases rule: attempt_loop_elim)
      case (moved step visits l1 t l2 s1 lg')
      then have lg0: "lg0 = lg'" "e = (ls_current l, it + 1)" by simp_all
      note IH = Cons.IH(1) [OF moved(7) [folded lg0(1)]]
      have "map snd (e # lg0) = (it + 1) # map (\<lambda>k. it + 1 + 1 + int k) [0..<length lg0]" using IH lg0(2) by simp
      also have "\<dots> = map (\<lambda>k. it + 1 + int k) [0..<length (e # lg0)]"
        by (simp add: upt_conv_Cons map_Suc_upt [symmetric] del: upt_Suc map_Suc_upt)
      finally show ?thesis using IH moved(3) by simp
    qed simp_all
  next
    case 2
    from 2(3) show ?case
    proof (cases rule: attempt_loop_elim)
      case (moved step visits l1 t l2 s1 lg')
      then have lg0: "lg0 = lg'" "e = (ls_current l, it + 1)" by simp_all
      note IH = Cons.IH(2) [OF 2(1,2) moved(7) [folded lg0(1)]]
      have "visits c = (if c = ls_current l then vc c + 1 else vc c)" using moved(2,5) 2(1,2) by auto
      with IH moved(4) lg0(2) show ?thesis by (auto simp: dispatches_def)
    qed (simp_all add: dispatches_def)
  }
qed (simp_all add: dispatches_def)

text \<open>The walk through the graph: from a position, over the dispatched steps, to a position.\<close>

fun reaches :: "workflow \<Rightarrow> string \<Rightarrow> string list \<Rightarrow> string \<Rightarrow> bool" where
  "reaches w c [] x \<longleftrightarrow> x = c"
| "reaches w c (a # as) x \<longleftrightarrow> a = c \<and> wf_Terminals w c = None \<and>
     (\<exists>step. wf_Steps w c = Some step \<and> (\<exists>y \<in> successors step. reaches w y as x))"

lemma terminal_success: "resolveTerminalOutcome E t l s = ((a, b, None), s') \<Longrightarrow> wt_Status t = ''COMPLETED''"
  by (auto simp: resolveTerminalOutcome_def Let_def split: if_splits)

lemma attempt_loop_path:
  assumes "attempt_loop E plan task timeout it vc l s = (r, ex, lg, s')" and "plan_follows E"
  shows "(lg \<noteq> [] \<longrightarrow> reaches (pl_workflow plan) (ls_current l) (map fst (butlast lg)) (fst (last lg)))
       \<and> (snd (snd (snd r)) = None \<longrightarrow> (\<exists>x t. reaches (pl_workflow plan) (ls_current l) (map fst lg) x \<and>
            wf_Terminals (pl_workflow plan) x = Some t \<and> wt_Status t = ''COMPLETED''))"
  using assms(1)
proof (induction lg arbitrary: it vc l s)
  case Nil
  from Nil.prems show ?case
  proof (cases rule: attempt_loop_elim)
    case (terminal t)
    then have "snd (snd (snd r)) = None \<Longrightarrow> wt_Status t = ''COMPLETED''" using terminal_success by metis
    with terminal(1) show ?thesis by auto
  qed auto
next
  case (Cons e lg0)
  from Cons.prems show ?case
  proof (cases rule: attempt_loop_elim)
    case (moved step visits l1 t l2 s1 lg')
    then have lg0: "lg0 = lg'" "e = (ls_current l, it + 1)" by simp_all
    note IH = Cons.IH [OF moved(7) [folded lg0(1)]]
    have "ls_current l2 \<in> successors step" by (rule dispatch_step_Move(1) [OF moved(6) assms(2)])
    with IH moved(1,2) lg0(2) show ?thesis by (cases lg0) auto
  qed auto
qed

lemma attempt_unfold:
  assumes "executeWorkflowAttempt E plan task ex timeout s = (r, ex', lg, s')"
  obtains l s1 where "ls_current l = ls_current (start_position E plan task ex)"
    "ls_completed l = ex_CompletedSteps ex" "ls_state l = loadExecutionState ex"
    "attempt_loop E plan task timeout (es_Iterations (loadExecutionState ex))
       (es_VisitCounts (loadExecutionState ex)) l s1 = (r, ex', lg, s')"
proof -
  let ?l = "start_position E plan task ex"
  define s0 where "s0 = (if ls_current ?l = wf_Entrypoint (pl_workflow plan) \<and> ls_completed ?l = [] then en_cleanup E s else s)"
  obtain ex1 s1 where "(if wf_Terminals (pl_workflow plan) (ls_current ?l) \<noteq> None then (ex, s0)
      else (case saveCheckpoint E ex (ls_current ?l) (ls_completed ?l) (ls_state ?l) s0 of ((_, ex1), s2) \<Rightarrow> (ex1, s2))) = (ex1, s1)"
    by (metis surj_pair)
  with assms have "attempt_loop E plan task timeout (es_Iterations (ls_state ?l)) (es_VisitCounts (ls_state ?l))
      (?l\<lparr>ls_exec := ex1\<rparr>) s1 = (r, ex', lg, s')"
    unfolding executeWorkflowAttempt_def Let_def s0_def by simp
  then show thesis by (intro that [of "?l\<lparr>ls_exec := ex1\<rparr>" s1]) (simp_all add: start_position_def)
qed

text \<open>
  \<^bold>\<open>C7.\<close> A workflow attempt ends after a bounded number of dispatches, whatever its agents, handlers and
  gates do. Counting from the persisted counters, it logs consecutive iteration numbers, at most one line more
  than the iterations left (20 by default for a whole execution), and, the last line aside, dispatches every
  step that is not a plan step at most as often as its visits left (3 by default, or the tighter replay
  budget). The bound holds across restarts because the counters are part of every checkpoint.
\<close>

theorem attempt_bounded:
  fixes E :: "'s engine"
  assumes "executeWorkflowAttempt E plan task ex timeout s = (r, ex', lg, s')"
  shows "map snd lg = map (\<lambda>k. es_Iterations (loadExecutionState ex) + 1 + int k) [0..<length lg]
       \<and> int (length lg) \<le> max 0 (max_iterations (pl_workflow plan) - es_Iterations (loadExecutionState ex)) + 1
       \<and> (\<forall>c st. wf_Steps (pl_workflow plan) c = Some st \<and> ws_Type st \<noteq> ''plan'' \<longrightarrow>
            int (dispatches c (butlast lg))
              \<le> max 0 (max_visits E task (pl_workflow plan) - es_VisitCounts (loadExecutionState ex) c))"
proof -
  from assms obtain l s1 where run: "attempt_loop E plan task timeout (es_Iterations (loadExecutionState ex))
       (es_VisitCounts (loadExecutionState ex)) l s1 = (r, ex', lg, s')" by (rule attempt_unfold)
  from attempt_loop_bounds(1) [OF run] attempt_loop_bounds(2) [OF run] show ?thesis by blast
qed

text \<open>
  \<^bold>\<open>C8.\<close> An attempt only takes transitions the workflow declares, and succeeds only at a terminal declared
  COMPLETED: from the saved step (the entrypoint on a fresh start) each dispatched step is followed by its
  on_success, its on_fail or the target of one of its gates, and an attempt that returns no error has walked
  such a path to a COMPLETED terminal.
\<close>

theorem attempt_follows_graph:
  assumes "executeWorkflowAttempt E plan task ex timeout s = (r, ex', lg, s')" and "plan_follows E"
  shows "(lg \<noteq> [] \<longrightarrow> reaches (pl_workflow plan) (ls_current (start_position E plan task ex))
            (map fst (butlast lg)) (fst (last lg)))
       \<and> (snd (snd (snd r)) = None \<longrightarrow>
            (\<exists>x t. reaches (pl_workflow plan) (ls_current (start_position E plan task ex)) (map fst lg) x \<and>
                wf_Terminals (pl_workflow plan) x = Some t \<and> wt_Status t = ''COMPLETED''))"
proof -
  from assms(1) obtain l s1 where l: "ls_current l = ls_current (start_position E plan task ex)"
    and run: "attempt_loop E plan task timeout (es_Iterations (loadExecutionState ex))
       (es_VisitCounts (loadExecutionState ex)) l s1 = (r, ex', lg, s')" by (rule attempt_unfold)
  from attempt_loop_path [OF run assms(2)] show ?thesis unfolding l .
qed


section \<open>A concrete engine\<close>

text \<open>
  An engine over a task repository whose agent answers with the given text or fails with the given error,
  whose handlers succeed and whose saves succeed.
\<close>

definition base_engine :: "'s task_repo \<Rightarrow> (step_call \<Rightarrow> string + string) \<Rightarrow> 's engine" where
  "base_engine R answer = \<lparr>en_quote = quote_ascii, en_jsonString = quote_ascii,
     en_decodeResult = (\<lambda>_. Some \<lparr>asr_Message = ''done'', asr_DelegatedTasks = [], asr_DelegationMode = [], asr_SelectedWorkflow = []\<rparr>),
     en_decodeError = (\<lambda>_. []), en_unmarshal = (\<lambda>_. Inl ''not an object''), en_marshalError = (\<lambda>_. []), en_parseDuration = (\<lambda>_. None),
     en_stripReasoning = (\<lambda>m. m), en_complexity = (\<lambda>_. []), en_inputArtifacts = (\<lambda>_. []),
     en_cfBudget = (\<lambda>_. \<lparr>cf_MaxItersPerStep = 0, cf_StepTimeoutSeconds = 0\<rparr>), en_payloadPedantic = (\<lambda>_. None),
     en_toolBudget = \<lparr>tb_Enabled = False, tb_Factors = Map.empty, tb_MaxFactor = 1, tb_AutonomyMaxFactor = 1, tb_MinStepTimeout = 0\<rparr>,
     en_repo = R, en_SaveStateSnapshot = (\<lambda>_ _ d. (None, d)), en_execUpdateStatus = (\<lambda>_ _ d. (None, d)),
     en_shuttingDown = (\<lambda>_. False), en_cleanup = (\<lambda>d. d),
     en_agent = (\<lambda>c d. (case answer c of Inl e \<Rightarrow> ([], [], Some (plain_err e)) | Inr t \<Rightarrow> (''c1'', t, None), d)),
     en_sleep = (\<lambda>_ d. (False, d)), en_outcomes = (\<lambda>_. None), en_prior = (\<lambda>_. []), en_consumeHints = (\<lambda>_ d. ([], d)),
     en_prewarm = (\<lambda>opts d. (opts, d)), en_attachRemediations = (\<lambda>rc d. (rc, d)),
     en_resolveRoleOpts = (\<lambda>_ opts. (opts, None)), en_synthesizeResumeResult = (\<lambda>_ _. ''{}''),
     en_stepOutputArtifacts = (\<lambda>_. []), en_recordStepOutcome = (\<lambda>_ _ _ _ _ _ d. d),
     en_finalizePendingOutcome = (\<lambda>_ _ _ _ _ d. d), en_recordRecoveryEvent = (\<lambda>_ d. d),
     en_delegateSelectedWorkflow = (\<lambda>w d. (Inr w, d)), en_createDelegatedTasks = (\<lambda>_ _ d. (None, d)),
     en_planStep = (\<lambda>c step t arts completed p d. (([], ''{}'', ws_OnSuccess step, completed, None), p, d)),
     en_spawnProject = (\<lambda>_ _ _ d. (Inr ''{}'', d)), en_callProject = (\<lambda>_ _ _ d. (Inl (plain_err ''disabled''), d)),
     en_a2aCall = (\<lambda>_ _ d. ((Some ''{}'', None), d)), en_systemHandler = (\<lambda>_. None), en_systemHandlerNames = ''[]''\<rparr>"

abbreviation demo_engine :: "(step_call \<Rightarrow> string + string) \<Rightarrow> db engine" where
  "demo_engine \<equiv> base_engine (sqlite_repo (<))"

lemma demo_plan_follows: "plan_follows (demo_engine a)"
  by (simp add: plan_follows_def base_engine_def)

definition plain_step :: "string \<Rightarrow> string \<Rightarrow> string \<Rightarrow> workflow_step" where
  "plain_step typ ok fail = \<lparr>ws_Type = typ, ws_Role = ''coder'', ws_Prompt = ''work'', ws_OnSuccess = ok, ws_OnFail = fail,
     ws_Gates = [], ws_Timeout = [], ws_Handler = ''rag.index'', ws_DelegatedWorkflow = [],
     ws_TargetProject = [], ws_TargetWorkflow = [], ws_ExpectSchema = [], ws_CancelOnTimeout = False, ws_Template = []\<rparr>"

definition demo_workflow :: workflow where
  "demo_workflow = \<lparr>wf_ID = ''dev'', wf_Description = [], wf_Entrypoint = ''build'',
     wf_Steps = [''build'' \<mapsto> plain_step ''agent'' ''done'' ''failed'', ''sign'' \<mapsto> plain_step ''approval'' ''done'' [],
       ''index'' \<mapsto> plain_step ''system'' ''done'' ''failed''],
     wf_Terminals = [''done'' \<mapsto> \<lparr>wt_Status = ''COMPLETED'', wt_Message = [], wt_Recovery = False\<rparr>,
       ''failed'' \<mapsto> \<lparr>wt_Status = ''FAILED'', wt_Message = [], wt_Recovery = False\<rparr>],
     wf_ResumeAfterChildren = False, wf_MaxStepVisits = 0, wf_MaxIterations = 0, wf_MaxWallClock = [], wf_Pedantic = None,
     wf_IngestInputArtifacts = False\<rparr>"

definition demo_plan :: execution_plan where
  "demo_plan = \<lparr>pl_project = None, pl_roles = [], pl_workflow = demo_workflow\<rparr>"

definition demo_exec :: "string \<Rightarrow> int \<Rightarrow> execution" where
  "demo_exec c n = \<lparr>ex_ID = ''e'', ex_TaskID = ''parent'', ex_ProjectID = ''p'', ex_WorkflowID = ''dev'', ex_WorkflowRevision = ''v1'',
     ex_WorkflowSnapshot = None, ex_Status = ExecutionStatusRunning,
     ex_CurrentStepID = Some c, ex_CompletedSteps = [], ex_StateSnapshot = Some (zero_state\<lparr>es_VisitCounts := (\<lambda>_. n)\<rparr>),
     ex_Result = None, ex_ErrorMessage = None, ex_ErrorCode = None, ex_StartedAt = None, ex_CompletedAt = None,
     ex_CreatedAt = Minute, ex_UpdatedAt = Minute, ex_ParentExecutionID = None, ex_ForkedFromStepID = None, ex_ForkedPromptOverride = None\<rparr>"

lemmas demo_engine_defs = base_engine_def demo_workflow_def demo_plan_def demo_exec_def plain_step_def

lemma demo_run:
  "snd (snd (snd (fst (executeWorkflowAttempt (demo_engine (\<lambda>_. Inr ''{}'')) demo_plan wake_parent (demo_exec ''build'' 0) Minute wake_db)))) = None"
  by code_simp

theorem attempt_bounded_witness:
  "\<exists>r ex' lg s'. executeWorkflowAttempt (demo_engine (\<lambda>_. Inr ''{}'')) demo_plan wake_parent (demo_exec ''build'' 0) Minute wake_db
     = (r, ex', lg, s') \<and> int (length lg) \<le> 21"
proof -
  obtain r ex' lg s' where run: "executeWorkflowAttempt (demo_engine (\<lambda>_. Inr ''{}'')) demo_plan wake_parent
      (demo_exec ''build'' 0) Minute wake_db = (r, ex', lg, s')" by (metis surj_pair)
  have "max_iterations (pl_workflow demo_plan) = 20" "es_Iterations (loadExecutionState (demo_exec ''build'' 0)) = 0"
    by (simp_all add: max_iterations_def demo_plan_def demo_workflow_def loadExecutionState_def demo_exec_def zero_state_def)
  with attempt_bounded [OF run] have "int (length lg) \<le> 21" by simp
  with run show ?thesis by blast
qed

theorem attempt_follows_graph_witness:
  "\<exists>lg x. reaches demo_workflow ''build'' lg x \<and> (\<exists>t. wf_Terminals demo_workflow x = Some t \<and> wt_Status t = ''COMPLETED'')"
proof -
  obtain r ex' lg s' where run: "executeWorkflowAttempt (demo_engine (\<lambda>_. Inr ''{}'')) demo_plan wake_parent
      (demo_exec ''build'' 0) Minute wake_db = (r, ex', lg, s')" by (metis surj_pair)
  have "snd (snd (snd r)) = None" using demo_run run by simp
  with attempt_follows_graph [OF run demo_plan_follows] show ?thesis
    by (auto simp: demo_plan_def start_position_def demo_exec_def)
qed

definition demo_position :: loop_state where
  "demo_position = start_position (demo_engine (\<lambda>_. Inr ''{}'')) demo_plan wake_parent (demo_exec ''build'' 0)"

lemma demo_move:
  "case dispatch_step (demo_engine (\<lambda>_. Inr ''{}'')) demo_plan wake_parent (plain_step ''agent'' ''done'' ''failed'') Minute
      demo_position wake_db of
     (Move l', s') \<Rightarrow> ls_current l' = ''done'' | (Stop _ _, _) \<Rightarrow> False"
  by code_simp


section \<open>Approval steps and the visit limit\<close>

lemma refused_visit:
  assumes "wf_Terminals (pl_workflow plan) (ls_current l) = None" and "wf_Steps (pl_workflow plan) (ls_current l) = Some step"
    and "it + 1 \<le> max_iterations (pl_workflow plan)" and "max_visits E task (pl_workflow plan) < vc (ls_current l) + 1"
  shows "\<exists>e s'. attempt_loop E plan task timeout it vc l s
      = (([], [], ls_completed l, Some (plain_err (''step '' @ ls_current l @ '' visited '' @ e))), ls_exec l, [(ls_current l, it + 1)], s')"
  using assms by (subst attempt_loop.simps) (auto simp: Let_def)

lemma approval_pauses:
  assumes "wf_Terminals (pl_workflow plan) (ls_current l) = None" and "wf_Steps (pl_workflow plan) (ls_current l) = Some step"
    and "ws_Type step = ''approval''" and "it + 1 \<le> max_iterations (pl_workflow plan)"
    and "vc (ls_current l) + 1 \<le> max_visits E task (pl_workflow plan)"
    and "es_ApprovalGrantedStep (ls_state l) \<noteq> ls_current l" and "marshals (ls_state l)"
    and "\<forall>i st s. fst (en_SaveStateSnapshot E i st s) = None"
    and "attempt_loop E plan task timeout it vc l s = (r, ex', lg, s')"
  shows "snd (snd (snd r)) = Some errExecutionPaused"
    and "ls_current l \<noteq> [] \<Longrightarrow> ex_CurrentStepID ex' = Some (ls_current l)"
    and "ex_StateSnapshot ex' = Some ((ls_state l)\<lparr>es_Iterations := it + 1,
           es_VisitCounts := vc(ls_current l := vc (ls_current l) + 1), es_CurrentStepID := ls_current l,
           es_CompletedSteps := ls_completed l, es_ApprovalPendingStep := ls_current l, es_PausedReason := PauseReasonOperator\<rparr>)"
proof -
  let ?st = "(ls_state l)\<lparr>es_Iterations := it + 1,
           es_VisitCounts := vc(ls_current l := vc (ls_current l) + 1), es_CurrentStepID := ls_current l,
           es_CompletedSteps := ls_completed l, es_ApprovalPendingStep := ls_current l, es_PausedReason := PauseReasonOperator\<rparr>"
  have m: "marshals ?st" using assms(7) by (simp add: marshals_def)
  obtain s1 where sv: "en_SaveStateSnapshot E (ex_ID (ls_exec l)) ?st s = (None, s1)"
    using assms(8) by (metis prod.collapse)
  have "attempt_loop E plan task timeout it vc l s = (([], [], ls_completed l, Some errExecutionPaused),
      (ls_exec l)\<lparr>ex_CompletedSteps := ls_completed l,
        ex_CurrentStepID := (if ls_current l \<noteq> [] then Some (ls_current l) else ex_CurrentStepID (ls_exec l)),
        ex_StateSnapshot := Some ?st\<rparr>, [(ls_current l, it + 1)],
      snd (en_execUpdateStatus E (ex_ID (ls_exec l)) ExecutionStatusPaused
        (snd (tr_UpdateStatus (en_repo E) (task_ID task) TaskStatusPending s1))))"
    using assms(1-6) m sv
    by (subst attempt_loop.simps) (simp add: Let_def dispatch_step_def run_approval_step_def runApprovalStep_def
        saveExecutionState_def give_up_def)
  with assms(9) show "snd (snd (snd r)) = Some errExecutionPaused"
    and "ls_current l \<noteq> [] \<Longrightarrow> ex_CurrentStepID ex' = Some (ls_current l)" and "ex_StateSnapshot ex' = Some ?st"
    by auto
qed

text \<open>
  An approval spends two visits of its step: one to pause, one to go on once it is granted. So an
  approval asked for on a step's last permitted visit can never be passed: the attempt pauses for the
  operator, and after the operator has approved and the execution was resumed, the next attempt fails with the
  rework-loop error without dispatching anything. (The counters are kept through a pause of the task's first
  attempt; later attempts start with fresh ones.)
\<close>

theorem last_visit_approval_lost:
  assumes saves: "\<forall>i st s. fst (en_SaveStateSnapshot E i st s) = None"
    and step: "wf_Terminals (pl_workflow plan) c = None" "wf_Steps (pl_workflow plan) c = Some step"
      "ws_Type step = ''approval''" "c \<noteq> []"
    and at: "ex_CurrentStepID ex = Some c" "marshals (loadExecutionState ex)"
      "es_ApprovalGrantedStep (loadExecutionState ex) \<noteq> c"
    and visit: "es_VisitCounts (loadExecutionState ex) c + 1 = max_visits E task (pl_workflow plan)"
      "es_Iterations (loadExecutionState ex) + 2 \<le> max_iterations (pl_workflow plan)"
    and first: "executeWorkflowAttempt E plan task ex timeout s = (r1, ex1, lg1, s1)"
    and resumed: "Resume E active (\<lambda>_ _. Inr (ex1\<lparr>ex_Status := ExecutionStatusPaused\<rparr>)) i s2 = (Inr ex2, s3)"
    and second: "executeWorkflowAttempt E plan task ex2 timeout s4 = (r2, ex3, lg2, s5)"
  shows "snd (snd (snd r1)) = Some errExecutionPaused
       \<and> (\<exists>e. snd (snd (snd r2)) = Some (plain_err (''step '' @ c @ '' visited '' @ e)))
       \<and> map fst lg2 = [c]"
proof -
  let ?st = "loadExecutionState ex"
  from first obtain l s0 where l: "ls_current l = c" "ls_state l = ?st"
    and run1: "attempt_loop E plan task timeout (es_Iterations ?st) (es_VisitCounts ?st) l s0 = (r1, ex1, lg1, s1)"
    using at(1) step(4) by (elim attempt_unfold) (simp add: start_position_def)
  note paused = approval_pauses [OF _ _ step(3) _ _ _ _ saves run1, unfolded l, OF step(1,2) _ _ at(3,2)]
  have p1: "snd (snd (snd r1)) = Some errExecutionPaused" and cur1: "ex_CurrentStepID ex1 = Some c"
    and snap1: "ex_StateSnapshot ex1 = Some (?st\<lparr>es_Iterations := es_Iterations ?st + 1,
        es_VisitCounts := (es_VisitCounts ?st)(c := es_VisitCounts ?st c + 1), es_CurrentStepID := c,
        es_CompletedSteps := ls_completed l, es_ApprovalPendingStep := c, es_PausedReason := PauseReasonOperator\<rparr>)"
    using paused visit step(4) by simp_all
  have st1: "es_ApprovalPendingStep (loadExecutionState ex1') = c"
    "es_Iterations (loadExecutionState ex1') = es_Iterations ?st + 1"
    "es_VisitCounts (loadExecutionState ex1') c = es_VisitCounts ?st c + 1"
    "es_CurrentStepID (loadExecutionState ex1') = c"
    if "ex1' = ex1\<lparr>ex_Status := ExecutionStatusPaused\<rparr>" for ex1'
    using snap1 step(4) that by (simp_all add: loadExecutionState_def Let_def split: option.split)
  have ex2: "ex_CurrentStepID ex2 = Some c \<and> ex_StateSnapshot ex2 = Some ((loadExecutionState (ex1\<lparr>ex_Status := ExecutionStatusPaused\<rparr>))
      \<lparr>es_ApprovalGrantedStep := c, es_ApprovalPendingStep := [], es_PausedReason := []\<rparr>)"
    using resumed st1 [OF refl] step(4) cur1
    by (auto simp: Resume_def Let_def saveExecutionState_def split: if_splits sum.splits prod.splits option.splits)
  let ?st2 = "loadExecutionState ex2"
  have st2: "es_Iterations ?st2 = es_Iterations ?st + 1" "es_VisitCounts ?st2 c = es_VisitCounts ?st c + 1"
    using ex2 st1 [OF refl] step(4) by (simp_all add: loadExecutionState_def [of ex2] Let_def)
  from second obtain l2 s20 where l2: "ls_current l2 = c"
    and run2: "attempt_loop E plan task timeout (es_Iterations ?st2) (es_VisitCounts ?st2) l2 s20 = (r2, ex3, lg2, s5)"
    using ex2 step(4) by (elim attempt_unfold) (simp add: start_position_def)
  have "\<exists>e s'. attempt_loop E plan task timeout (es_Iterations ?st2) (es_VisitCounts ?st2) l2 s20
      = (([], [], ls_completed l2, Some (plain_err (''step '' @ ls_current l2 @ '' visited '' @ e))), ls_exec l2,
         [(ls_current l2, es_Iterations ?st2 + 1)], s')"
    by (rule refused_visit) (use l2 step visit st2 in simp_all)
  with run2 l2 p1 show ?thesis by auto
qed

definition approval_run :: "attempt_result \<times> execution \<times> dispatch_log \<times> db" where
  "approval_run = executeWorkflowAttempt (demo_engine (\<lambda>_. Inr ''{}'')) demo_plan wake_parent (demo_exec ''sign'' 2) Minute wake_db"

definition approval_resume :: "(string + execution) \<times> db" where
  "approval_resume = Resume (demo_engine (\<lambda>_. Inr ''{}'')) (\<lambda>_. False)
     (\<lambda>_ _. Inr ((fst (snd approval_run))\<lparr>ex_Status := ExecutionStatusPaused\<rparr>)) ''parent'' wake_db"

lemma approval_resume_ok: "case fst approval_resume of Inr _ \<Rightarrow> True | Inl _ \<Rightarrow> False"
  by code_simp

theorem last_visit_approval_lost_witness:
  "\<exists>ex2 s3. approval_resume = (Inr ex2, s3) \<and>
     map fst (fst (snd (snd (executeWorkflowAttempt (demo_engine (\<lambda>_. Inr ''{}'')) demo_plan wake_parent ex2 Minute s3)))) = [''sign'']"
proof -
  let ?E = "demo_engine (\<lambda>_. Inr ''{}'')"
  obtain ex2 s3 where res: "approval_resume = (Inr ex2, s3)"
    using approval_resume_ok by (metis old.sum.exhaust old.sum.simps(5) prod.collapse)
  obtain r1 ex1 lg1 s1 where first: "executeWorkflowAttempt ?E demo_plan wake_parent (demo_exec ''sign'' 2) Minute wake_db
      = (r1, ex1, lg1, s1)" by (metis surj_pair)
  obtain r2 ex3 lg2 s5 where second: "executeWorkflowAttempt ?E demo_plan wake_parent ex2 Minute s3 = (r2, ex3, lg2, s5)"
    by (metis surj_pair)
  have resumed: "Resume ?E (\<lambda>_. False) (\<lambda>_ _. Inr (ex1\<lparr>ex_Status := ExecutionStatusPaused\<rparr>)) ''parent'' wake_db = (Inr ex2, s3)"
    using res first by (simp add: approval_resume_def approval_run_def)
  have "\<forall>i st s. fst (en_SaveStateSnapshot ?E i st s) = None" by (simp add: base_engine_def)
  moreover have "wf_Terminals (pl_workflow demo_plan) ''sign'' = None"
    "wf_Steps (pl_workflow demo_plan) ''sign'' = Some (plain_step ''approval'' ''done'' [])"
    "ws_Type (plain_step ''approval'' ''done'' []) = ''approval''" "''sign'' \<noteq> []"
    by (simp_all add: demo_plan_def demo_workflow_def plain_step_def)
  moreover have "ex_CurrentStepID (demo_exec ''sign'' 2) = Some ''sign''" "marshals (loadExecutionState (demo_exec ''sign'' 2))"
    "es_ApprovalGrantedStep (loadExecutionState (demo_exec ''sign'' 2)) \<noteq> ''sign''"
    "es_VisitCounts (loadExecutionState (demo_exec ''sign'' 2)) ''sign'' + 1 = max_visits ?E wake_parent (pl_workflow demo_plan)"
    "es_Iterations (loadExecutionState (demo_exec ''sign'' 2)) + 2 \<le> max_iterations (pl_workflow demo_plan)"
    by (simp_all add: demo_engine_defs loadExecutionState_def zero_state_def marshals_def raw_ok_def max_visits_def max_iterations_def)
  ultimately have "map fst lg2 = [''sign'']"
    using last_visit_approval_lost [OF _ _ _ _ _ _ _ _ _ _ first resumed second] by simp
  with res second show ?thesis by (intro exI [of _ ex2] exI [of _ s3]) simp
qed

section \<open>What a failed step leaves behind\<close>

lemma route_on_fail_saved:
  assumes "ws_OnFail step \<noteq> []" and "\<not> en_shuttingDown E s" and "marshals st"
    and "\<forall>i st s. fst (en_SaveStateSnapshot E i st s) = None"
  shows "\<exists>l' s'. route_on_fail E step e tell st l s = (Move l', s') \<and> ls_current l' = ws_OnFail step
      \<and> ls_completed l' = ls_completed l @ [ls_current l] \<and> ls_state l' = st
      \<and> ls_message l' = (if tell then se_msg e else ls_message l) \<and> ls_error l' = (if tell then Some e else ls_error l)"
proof -
  let ?st = "st\<lparr>es_CurrentStepID := ws_OnFail step, es_CompletedSteps := ls_completed l @ [ls_current l]\<rparr>"
  have m: "marshals ?st" using assms(3) by (simp add: marshals_def)
  obtain s1 where "en_SaveStateSnapshot E (ex_ID (ls_exec l)) ?st s = (None, s1)"
    using assms(4) by (metis prod.collapse)
  with m assms(1,2) show ?thesis
    by (simp add: route_on_fail_def move_on_def saveCheckpoint_def saveExecutionState_def Let_def)
qed

lemma route_on_fail_unsaved:
  assumes "ws_OnFail step \<noteq> []" and "\<not> en_shuttingDown E s" and "\<not> marshals st"
  shows "\<exists>m ex. route_on_fail E step e tell st l s
      = (Stop ([], [], ls_completed l @ [ls_current l], Some (plain_err (''failed to marshal execution checkpoint: '' @ m))) ex, s)"
proof -
  let ?st = "st\<lparr>es_CurrentStepID := ws_OnFail step, es_CompletedSteps := ls_completed l @ [ls_current l]\<rparr>"
  have "\<not> marshals ?st"
    using assms(3) by (simp add: marshals_def)
  with assms(1,2) have "route_on_fail E step e tell st l s = (Stop ([], [], ls_completed l @ [ls_current l],
      Some (plain_err (''failed to marshal execution checkpoint: '' @ en_marshalError E ?st))) (ls_exec l), s)"
    by (simp add: route_on_fail_def move_on_def saveCheckpoint_def saveExecutionState_def give_up_def Let_def)
  then show ?thesis by blast
qed

text \<open>
  Whether a failed agent step reaches its on_fail target depends on the bytes of its error text.
  Outside shutdown and with a store that accepts the checkpoint, an ASCII error without control characters
  beyond \<open>\b \t \n \f \r\<close> is routed to on_fail, with the error as the stated reason; with any other control
  character (a terminal colour code is enough) the checkpoint cannot be encoded, and the attempt ends with that
  encoding error instead: on_fail is not taken and the original error is not reported.
\<close>

theorem on_fail_needs_clean_error:
  assumes "quotes_ascii (en_quote E)" and "ascii (se_msg e)" and "\<not> isTerminalVerifierError e"
    and "ws_OnFail step \<noteq> []" and "\<not> en_shuttingDown E s"
    and "list_all (\<lambda>kv. raw_ok (snd kv)) (es_StepResults (ls_state l))"
    and "\<forall>i st s. fst (en_SaveStateSnapshot E i st s) = None"
  shows "if list_ex go_only_escape (se_msg e)
         then \<exists>m ex. agent_failed E plan task step e l s = (Stop ([], [], ls_completed l @ [ls_current l],
                Some (plain_err (''failed to marshal execution checkpoint: '' @ m))) ex, s)
         else \<exists>l' s'. agent_failed E plan task step e l s = (Move l', s') \<and> ls_current l' = ws_OnFail step
                \<and> ls_message l' = se_msg e \<and> ls_error l' = Some e"
proof -
  let ?st = "error_state E e (ls_state l)"
  let ?st' = "case buildStepFailureRecovery E e (ls_current l) task plan of
      Some rc \<Rightarrow> ?st\<lparr>es_PendingRecovery := Some rc\<rparr> | None \<Rightarrow> ?st"
  have run: "agent_failed E plan task step e l s = route_on_fail E step e True ?st' l s"
    using assms(3) by (simp add: agent_failed_def Let_def)
  have "error_result (en_quote E) (se_msg e) \<noteq> []" by (simp add: error_result_def)
  then have "marshals ?st' \<longleftrightarrow> json_valid (error_result (en_quote E) (se_msg e))"
    using assms(6) by (simp add: marshals_def raw_ok_def error_state_def split: option.split)
  then have m: "marshals ?st' \<longleftrightarrow> \<not> list_ex go_only_escape (se_msg e)"
    using error_result_json_iff [OF assms(1,2)] by simp
  show ?thesis
  proof (cases "list_ex go_only_escape (se_msg e)")
    case True
    with m route_on_fail_unsaved [OF assms(4,5)] show ?thesis unfolding run by simp
  next
    case False
    with m route_on_fail_saved [OF assms(4,5) _ assms(7), of ?st' e True l] show ?thesis unfolding run by auto
  qed
qed

definition colour_err :: step_err where
  "colour_err = plain_err (CHR 0x1B # ''[31mfailed'')"

theorem on_fail_needs_clean_error_witness:
  "\<exists>m ex. agent_failed (demo_engine (\<lambda>_. Inr ''{}'')) demo_plan wake_parent (plain_step ''agent'' ''done'' ''failed'')
     colour_err demo_position wake_db = (Stop ([], [], ls_completed demo_position @ [ls_current demo_position],
       Some (plain_err (''failed to marshal execution checkpoint: '' @ m))) ex, wake_db)"
proof -
  let ?E = "demo_engine (\<lambda>_. Inr ''{}'')" and ?step = "plain_step ''agent'' ''done'' ''failed''"
  have bad: "list_ex go_only_escape (se_msg colour_err)" and asc: "ascii (se_msg colour_err)" by code_simp+
  have q: "quotes_ascii (en_quote ?E)" by (simp add: base_engine_def)
  have nt: "\<not> isTerminalVerifierError colour_err" by (simp add: isTerminalVerifierError_def colour_err_def)
  have fl: "ws_OnFail ?step \<noteq> []" by (simp add: plain_step_def)
  have sd: "\<not> en_shuttingDown ?E wake_db" by (simp add: base_engine_def)
  have raw: "list_all (\<lambda>kv. raw_ok (snd kv)) (es_StepResults (ls_state demo_position))"
    by (simp add: demo_position_def start_position_def demo_exec_def loadExecutionState_def zero_state_def Let_def)
  have sv: "\<forall>i st s. fst (en_SaveStateSnapshot ?E i st s) = None" by (simp add: base_engine_def)
  from on_fail_needs_clean_error [OF q asc nt fl sd raw sv, of demo_plan wake_parent] bad show ?thesis
    by (simp only: if_True)
qed

lemma system_failure_routed:
  assumes "ws_OnFail step \<noteq> []" and "\<forall>s. \<not> en_shuttingDown E s"
    and "\<forall>i st s. fst (en_SaveStateSnapshot E i st s) = None"
    and "en_systemHandler E (ws_Handler step) = Some h"
    and "h (ls_current l) step (es_LastResult (ls_state l)) s = (Inl e, s1)"
    and "marshals (error_state E e (ls_state l))"
  shows "\<exists>l' s'. run_system_step E step l s = (Move l', s') \<and> ls_current l' = ws_OnFail step
      \<and> ls_completed l' = ls_completed l @ [ls_current l] \<and> ls_message l' = ls_message l \<and> ls_error l' = ls_error l"
proof -
  have "\<not> en_shuttingDown E s2" for s2 using assms(2) by blast
  from route_on_fail_saved [OF assms(1) this assms(6,3)] assms(4,5) show ?thesis
    by (fastforce simp: run_system_step_def Let_def)
qed

text \<open>
  The error of a failing system step is lost on the way to a failure terminal. When the handler
  fails and on_fail names a FAILED terminal, the error the attempt ends with is built from the message and
  error an \<^emph>\<open>earlier\<close> step left behind (or from nothing): it is the same whatever the handler reported.
\<close>

theorem system_failure_reason_lost:
  assumes run: "\<forall>s. \<not> en_shuttingDown E s" "\<forall>i st s. fst (en_SaveStateSnapshot E i st s) = None"
    and step: "wf_Terminals (pl_workflow plan) (ls_current l) = None" "wf_Steps (pl_workflow plan) (ls_current l) = Some step"
      "ws_Type step = ''system''" "en_systemHandler E (ws_Handler step) = Some h"
    and failed: "h (ls_current l) step (es_LastResult (ls_state l)) s = (Inl e, s1)" "marshals (error_state E e (ls_state l))"
    and target: "ws_OnFail step \<noteq> []" "wf_Terminals (pl_workflow plan) (ws_OnFail step) = Some t" "wt_Status t = ''FAILED''"
    and limits: "it + 1 \<le> max_iterations (pl_workflow plan)" "vc (ls_current l) + 1 \<le> max_visits E task (pl_workflow plan)"
  shows "snd (snd (snd (fst (attempt_loop E plan task timeout it vc l s)))) =
    (let detail = failure_detail t (ls_completed l @ [ls_current l]) (ls_message l)
     in Some (case ls_error l of Some e0 \<Rightarrow> wrap_err (detail @ '': '') [] e0 | None \<Rightarrow> plain_err detail))"
proof -
  let ?l = "l\<lparr>ls_state := (ls_state l)\<lparr>es_Iterations := it + 1, es_VisitCounts := vc(ls_current l := vc (ls_current l) + 1)\<rparr>\<rparr>"
  have "marshals (error_state E e (ls_state ?l))" using failed(2) by (simp add: marshals_def error_state_def)
  then obtain l' s' where moved: "run_system_step E step ?l s = (Move l', s')"
    and l': "ls_current l' = ws_OnFail step" "ls_completed l' = ls_completed l @ [ls_current l]"
      "ls_message l' = ls_message l" "ls_error l' = ls_error l"
    using system_failure_routed [OF target(1) run step(4), of ?l s e s1] failed(1) by auto
  have ended: "snd (snd (snd (fst (attempt_loop E plan task timeout (it + 1) visits l' s')))) =
    (let detail = failure_detail t (ls_completed l @ [ls_current l]) (ls_message l)
     in Some (case ls_error l of Some e0 \<Rightarrow> wrap_err (detail @ '': '') [] e0 | None \<Rightarrow> plain_err detail))" for visits
    using l' target by (subst attempt_loop.simps) (simp add: Let_def resolveTerminalOutcome_def)
  show ?thesis
    using step(1-3) limits moved ended
    by (subst attempt_loop.simps) (simp add: Let_def dispatch_step_def case_prod_beta)
qed

definition broken_engine :: "db engine" where
  "broken_engine = (demo_engine (\<lambda>_. Inr ''{}''))\<lparr>en_systemHandler := (\<lambda>_. Some (\<lambda>_ _ _ d. (Inl (plain_err ''index is corrupt''), d)))\<rparr>"

definition index_position :: loop_state where
  "index_position = (start_position broken_engine demo_plan wake_parent (demo_exec ''index'' 0))\<lparr>ls_message := ''tests passed''\<rparr>"

theorem system_failure_reason_lost_witness:
  "snd (snd (snd (fst (attempt_loop broken_engine demo_plan wake_parent Minute 0 (\<lambda>_. 0) index_position wake_db)))) =
     Some (plain_err ''workflow failed (last step: index, reason: tests passed)'')"
proof -
  let ?step = "plain_step ''system'' ''done'' ''failed''" and ?h = "\<lambda>_ _ _ d. (Inl (plain_err ''index is corrupt''), d)"
  let ?t = "\<lparr>wt_Status = ''FAILED'', wt_Message = [], wt_Recovery = False\<rparr>"
  have pos: "ls_current index_position = ''index''" "ls_completed index_position = []" "ls_message index_position = ''tests passed''"
    "ls_error index_position = None"
    by (simp_all add: index_position_def start_position_def demo_exec_def)
  have m: "marshals (error_state broken_engine (plain_err ''index is corrupt'') (ls_state index_position))" by code_simp
  have "max_iterations (pl_workflow demo_plan) = 20" "max_visits broken_engine wake_parent (pl_workflow demo_plan) = 3"
    by (simp_all add: max_iterations_def max_visits_def broken_engine_def demo_engine_defs)
  then have "snd (snd (snd (fst (attempt_loop broken_engine demo_plan wake_parent Minute 0 (\<lambda>_. 0) index_position wake_db)))) =
    (let detail = failure_detail ?t (ls_completed index_position @ [ls_current index_position]) (ls_message index_position)
     in Some (case ls_error index_position of Some e0 \<Rightarrow> wrap_err (detail @ '': '') [] e0 | None \<Rightarrow> plain_err detail))"
    using m by (intro system_failure_reason_lost [where step = ?step and h = ?h and e = "plain_err ''index is corrupt''" and ?s1.0 = wake_db])
      (simp_all add: pos broken_engine_def demo_engine_defs)
  then show ?thesis by (simp add: pos failure_detail_def lastStepOrUnknown_def)
qed

end
