(* ===== verification/WorkflowValidate.thy ===== *)
theory WorkflowValidate
  imports WorkflowProps
begin

text \<open>
  Validation of workflow definitions at load time (\<^verbatim>\<open>src/internal/registry/workflow.go\<close>: \<open>Validate\<close>,
  \<open>validateTransition\<close>, \<open>validateReachability\<close>, \<open>reachableFrom\<close>), against a declarative notion of a
  well-formed workflow, and what validation buys at run time: where the loop of \<^verbatim>\<open>WorkflowEngine\<close> can
  come to rest on a validated workflow.

  Go visits the keys of a map in an unspecified order, so which of several errors \<open>Validate\<close> reports is
  unspecified; the orders are arguments here, one for each loop over a map.
\<close>

section \<open>Definitions\<close>

record validation_error =
  ve_File :: string
  ve_Field :: string
  ve_Message :: string

definition WorkflowDescriptionMaxLen :: nat where
  "WorkflowDescriptionMaxLen = 1024"

definition step_types :: "string list" where
  "step_types = [''agent'', ''gate'', ''approval'', ''plan'', ''call_project'', ''spawn_project'', ''a2a_call'', ''system'']"

definition terminal_statuses :: "string list" where
  "terminal_statuses = [''COMPLETED'', ''FAILED'', ''CANCELLED'']"

text \<open>The first error of a sequence of checks.\<close>

fun first_error :: "'a option list \<Rightarrow> 'a option" where
  "first_error [] = None"
| "first_error (Some e # rest) = Some e"
| "first_error (None # rest) = first_error rest"

definition require :: "bool \<Rightarrow> string \<Rightarrow> string \<Rightarrow> string \<Rightarrow> validation_error option" where
  "require ok filename field message =
     (if ok then None else Some \<lparr>ve_File = filename, ve_Field = field, ve_Message = message\<rparr>)"

definition known_target :: "workflow \<Rightarrow> string \<Rightarrow> bool" where
  "known_target w target \<longleftrightarrow> wf_Steps w target \<noteq> None \<or> wf_Terminals w target \<noteq> None"

definition step_field :: "string \<Rightarrow> string \<Rightarrow> string" where
  "step_field stepID field = ''steps.'' @ stepID @ ''.'' @ field"

text \<open>Go's \<open>'%s'\<close>.\<close>

definition single_quoted :: "string \<Rightarrow> string" where
  "single_quoted str = CHR 0x27 # str @ [CHR 0x27]"

definition validateTransition :: "workflow \<Rightarrow> string \<Rightarrow> string \<Rightarrow> string \<Rightarrow> string \<Rightarrow> validation_error option" where
  "validateTransition w fromStep field target filename =
     require (known_target w target) filename (step_field fromStep field)
       (''transition target '' @ single_quoted target @ '' not found in steps or terminals'')"

text \<open>Long messages, kept folded.\<close>

definition bad_type_msg :: "string \<Rightarrow> string" where
  "bad_type_msg t = ''invalid step type '' @ single_quoted t @
     '', must be one of: agent, gate, approval, plan, call_project, spawn_project, a2a_call, system''"

definition shadowed_gates_msg :: string where
  "shadowed_gates_msg = ''an agent step must not set both on_success and gates '' @ map char_of [226, 128, 148 :: nat] @
     '' on_success shadows the gates, leaving them dead; remove on_success and let the gates route (use on_fail as the catch-all)''"

definition bad_status_msg :: "string \<Rightarrow> string" where
  "bad_status_msg st = ''invalid terminal status '' @ single_quoted st @ '', must be one of: COMPLETED, FAILED, CANCELLED''"

definition description_msg :: "nat \<Rightarrow> string" where
  "description_msg n = ''description must be '' @ map char_of [226, 137, 164 :: nat] @ show_nat WorkflowDescriptionMaxLen @
     '' characters (got '' @ show_nat n @ '')''"

definition gate_field :: "nat \<Rightarrow> string \<Rightarrow> string" where
  "gate_field i field = ''gates['' @ show_nat i @ ''].'' @ field"

definition check_gate :: "workflow \<Rightarrow> string \<Rightarrow> string \<Rightarrow> nat \<times> workflow_gate \<Rightarrow> validation_error option" where
  "check_gate w filename stepID ig = (case ig of (i, gate) \<Rightarrow> first_error [
     require (wg_Condition gate \<noteq> []) filename (step_field stepID (gate_field i ''condition'')) ''gate condition is required'',
     require (wg_Target gate \<noteq> []) filename (step_field stepID (gate_field i ''target'')) ''gate target is required'',
     validateTransition w stepID (gate_field i ''target'') (wg_Target gate) filename])"

definition check_step :: "workflow \<Rightarrow> string \<Rightarrow> string \<Rightarrow> workflow_step \<Rightarrow> validation_error option" where
  "check_step w filename stepID step =
     (let need = (\<lambda>ok field message. require ok filename (step_field stepID field) message)
      in first_error ([
        need (ws_Type step \<noteq> []) ''type'' ''step type is required'',
        need (ws_Type step \<in> set step_types) ''type'' (bad_type_msg (ws_Type step)),
        need (ws_Type step \<in> {''agent'', ''plan''} \<longrightarrow> ws_Role step \<noteq> []) ''role''
          ''role is required for agent and plan steps'',
        need (ws_Type step = ''system'' \<longrightarrow> ws_Handler step \<noteq> []) ''handler''
          (''handler is required for system steps (e.g. '' @ single_quoted ''rag.extract'' @ '' / '' @ single_quoted ''rag.index'' @ '')''),
        need (ws_Type step = ''spawn_project'' \<longrightarrow> ws_Template step \<noteq> []) ''template''
          ''template is required for spawn_project steps'',
        need (ws_Type step = ''call_project'' \<longrightarrow> ws_TargetProject step \<noteq> []) ''target_project''
          ''target_project is required for call_project steps'',
        need (ws_Type step = ''call_project'' \<longrightarrow> ws_TargetWorkflow step \<noteq> []) ''target_workflow''
          ''target_workflow is required for call_project steps'',
        need (ws_Type step = ''call_project'' \<longrightarrow> ws_ExpectSchema step \<noteq> []) ''expect.schema''
          ''expect.schema is required for call_project steps (the result envelope JSON-Schema id)'',
        need (ws_Type step = ''plan'' \<longrightarrow> ws_OnSuccess step \<noteq> []) ''on_success''
          ''on_success is required for plan steps'',
        (if ws_OnSuccess step \<noteq> [] then validateTransition w stepID ''on_success'' (ws_OnSuccess step) filename else None),
        (if ws_OnFail step \<noteq> [] then validateTransition w stepID ''on_fail'' (ws_OnFail step) filename else None)]
       @ map (check_gate w filename stepID) (enumerate 0 (ws_Gates step))
       @ [need (\<not> (ws_Type step = ''agent'' \<and> ws_OnSuccess step \<noteq> [] \<and> ws_Gates step \<noteq> [])) ''on_success''
            shadowed_gates_msg]))"

definition check_terminal :: "string \<Rightarrow> string \<Rightarrow> workflow_terminal \<Rightarrow> validation_error option" where
  "check_terminal filename termID t =
     (let field = ''terminals.'' @ termID @ ''.status''
      in first_error [require (wt_Status t \<noteq> []) filename field ''terminal status is required'',
           require (wt_Status t \<in> set terminal_statuses) filename field (bad_status_msg (wt_Status t))])"

text \<open>
  The depth-first search, with the recursion depth as fuel: \<^const>\<open>None\<close> when it is exhausted. \<open>visited\<close>
  is the map shared by the calls. One level more than there are steps is always enough (shown below).
\<close>

function (sequential) reachableFrom :: "nat \<Rightarrow> workflow \<Rightarrow> string \<Rightarrow> string set \<Rightarrow> string set option"
  and reachable_all :: "nat \<Rightarrow> workflow \<Rightarrow> string list \<Rightarrow> string set \<Rightarrow> string set option" where
  "reachableFrom 0 w current visited = None"
| "reachableFrom (Suc n) w current visited =
     (if current \<in> visited then Some visited
      else (case wf_Steps w current of
              None \<Rightarrow> Some (insert current visited)
            | Some step \<Rightarrow> reachable_all n w
                ((if ws_OnSuccess step \<noteq> [] then [ws_OnSuccess step] else []) @
                 (if ws_OnFail step \<noteq> [] then [ws_OnFail step] else []) @
                 map wg_Target (ws_Gates step)) (insert current visited)))"
| "reachable_all n w [] visited = Some visited"
| "reachable_all n w (t # ts) visited =
     (case reachableFrom n w t visited of None \<Rightarrow> None | Some visited' \<Rightarrow> reachable_all n w ts visited')"
  by pat_completeness auto
termination
  by (relation "measures [case_sum fst fst, case_sum (\<lambda>_. 0) (\<lambda>(_, _, ts, _). Suc (length ts))]") auto

definition validateReachability :: "workflow \<Rightarrow> string list \<Rightarrow> string \<Rightarrow> validation_error option" where
  "validateReachability w steps filename =
     (let visited = (case reachableFrom (length steps + 2) w (wf_Entrypoint w) {} of Some v \<Rightarrow> v | None \<Rightarrow> {})
      in first_error (map (\<lambda>stepID. require (stepID \<in> visited) filename (''steps.'' @ stepID)
           ''step is not reachable from entrypoint'') steps))"

definition Validate :: "workflow \<Rightarrow> string list \<Rightarrow> string list \<Rightarrow> string list \<Rightarrow> string \<Rightarrow> validation_error option" where
  "Validate w steps terms steps' filename = first_error ([
     require (wf_ID w \<noteq> []) filename ''workflowId'' ''workflowId is required'',
     require (wf_Entrypoint w \<noteq> []) filename ''entrypoint'' ''entrypoint is required'',
     require (length (wf_Description w) \<le> WorkflowDescriptionMaxLen) filename ''description''
       (description_msg (length (wf_Description w))),
     require (steps \<noteq> [] \<or> wf_IngestInputArtifacts w) filename ''steps'' ''at least one step is required'',
     require (known_target w (wf_Entrypoint w)) filename ''entrypoint''
       (''entrypoint '' @ single_quoted (wf_Entrypoint w) @ '' not found in steps or terminals'')]
    @ map (\<lambda>stepID. case wf_Steps w stepID of Some step \<Rightarrow> check_step w filename stepID step | None \<Rightarrow> None) steps
    @ map (\<lambda>termID. case wf_Terminals w termID of Some t \<Rightarrow> check_terminal filename termID t | None \<Rightarrow> None) terms
    @ [validateReachability w steps' filename])"

section \<open>The search\<close>

definition step_targets :: "workflow_step \<Rightarrow> string set" where
  "step_targets step = {t \<in> {ws_OnSuccess step, ws_OnFail step}. t \<noteq> []} \<union> wg_Target ` set (ws_Gates step)"

text \<open>One transition of the workflow's graph.\<close>

definition leads_to :: "workflow \<Rightarrow> (string \<times> string) set" where
  "leads_to w = {(a, b). \<exists>step. wf_Steps w a = Some step \<and> b \<in> step_targets step}"

lemma leads_toI: "wf_Steps w a = Some step \<Longrightarrow> b \<in> step_targets step \<Longrightarrow> (a, b) \<in> leads_to w"
  by (auto simp: leads_to_def)

lemma search_targets: "set ((if ws_OnSuccess step \<noteq> [] then [ws_OnSuccess step] else []) @
     (if ws_OnFail step \<noteq> [] then [ws_OnFail step] else []) @ map wg_Target (ws_Gates step)) = step_targets step"
  by (auto simp: step_targets_def)

text \<open>What a finished search has added is closed under transitions and was reachable.\<close>

lemma search_sound:
  "reachableFrom n w c V = Some V' \<Longrightarrow>
     V \<subseteq> V' \<and> c \<in> V' \<and> (\<forall>x \<in> V' - V. leads_to w `` {x} \<subseteq> V' \<and> (c, x) \<in> (leads_to w)\<^sup>*)"
  "reachable_all n w ts V = Some V' \<Longrightarrow>
     V \<subseteq> V' \<and> set ts \<subseteq> V' \<and> (\<forall>x \<in> V' - V. leads_to w `` {x} \<subseteq> V' \<and> (\<exists>t \<in> set ts. (t, x) \<in> (leads_to w)\<^sup>*))"
proof (induction n w c V and n w ts V arbitrary: V' and V' rule: reachableFrom_reachable_all.induct)
  case (2 n w c V)
  show ?case
  proof (cases "c \<in> V \<or> wf_Steps w c = None")
    case True
    then show ?thesis using 2(2) by (auto simp: leads_to_def split: if_splits)
  next
    case False
    then obtain step where step: "c \<notin> V" "wf_Steps w c = Some step" by auto
    let ?ts = "(if ws_OnSuccess step \<noteq> [] then [ws_OnSuccess step] else []) @
        (if ws_OnFail step \<noteq> [] then [ws_OnFail step] else []) @ map wg_Target (ws_Gates step)"
    have "reachable_all n w ?ts (insert c V) = Some V'" using 2(2) step by simp
    note IH = 2(1) [OF step this, unfolded search_targets]
    have here: "leads_to w `` {c} = step_targets step" using step(2) by (auto simp: leads_to_def)
    have on: "(c, x) \<in> (leads_to w)\<^sup>*" if "t \<in> step_targets step" "(t, x) \<in> (leads_to w)\<^sup>*" for t x
      using leads_toI [OF step(2) that(1)] that(2) by (rule converse_rtrancl_into_rtrancl)
    have "leads_to w `` {x} \<subseteq> V' \<and> (c, x) \<in> (leads_to w)\<^sup>*" if "x \<in> V' - V" for x
      using that here on IH by (cases "x = c") blast+
    with IH show ?thesis by blast
  qed
next
  case (4 n w t ts V)
  then obtain V1 where V1: "reachableFrom n w t V = Some V1" "reachable_all n w ts V1 = Some V'"
    by (auto split: option.splits)
  note first = 4(1) [OF V1(1)] and rest = 4(2) [OF V1]
  show ?case
  proof (intro conjI ballI)
    show "V \<subseteq> V'" "set (t # ts) \<subseteq> V'" using first rest by auto
  next
    fix x assume x: "x \<in> V' - V"
    show "leads_to w `` {x} \<subseteq> V'" using x first rest by (cases "x \<in> V1") blast+
    show "\<exists>y \<in> set (t # ts). (y, x) \<in> (leads_to w)\<^sup>*" using x first rest by (cases "x \<in> V1") auto
  qed
qed auto

text \<open>Each level of the recursion marks another step, so a level more than there are steps is enough.\<close>

lemma search_grows:
  "reachableFrom n w c V = Some V' \<Longrightarrow> V \<subseteq> V'" "reachable_all n w ts V = Some V' \<Longrightarrow> V \<subseteq> V'"
  using search_sound by blast+

lemma search_ends:
  "finite (dom (wf_Steps w)) \<Longrightarrow> card (dom (wf_Steps w) - V) < n \<Longrightarrow> reachableFrom n w c V \<noteq> None"
  "finite (dom (wf_Steps w)) \<Longrightarrow> card (dom (wf_Steps w) - V) < n \<Longrightarrow> reachable_all n w ts V \<noteq> None"
proof (induction n w c V and n w ts V rule: reachableFrom_reachable_all.induct)
  case (2 n w c V)
  show ?case
  proof (cases "c \<in> V \<or> wf_Steps w c = None")
    case False
    then obtain step where step: "c \<notin> V" "wf_Steps w c = Some step" by auto
    have "dom (wf_Steps w) - insert c V \<subset> dom (wf_Steps w) - V" using step by auto
    then have "card (dom (wf_Steps w) - insert c V) < card (dom (wf_Steps w) - V)"
      using 2(2) by (intro psubset_card_mono) auto
    then have "card (dom (wf_Steps w) - insert c V) < n" using 2(3) by linarith
    with 2(1) [OF step 2(2)] step show ?thesis by simp
  qed auto
next
  case (4 n w t ts V)
  then obtain V1 where V1: "reachableFrom n w t V = Some V1" by auto
  then have "card (dom (wf_Steps w) - V1) \<le> card (dom (wf_Steps w) - V)"
    using search_grows(1) [OF V1] 4(3) by (intro card_mono) auto
  with 4(2) [OF V1 4(3)] 4(4) V1 show ?case by simp
qed auto

lemma search_exact:
  assumes "finite (dom (wf_Steps w))" and "card (dom (wf_Steps w)) < n"
  shows "reachableFrom n w c {} = Some ((leads_to w)\<^sup>* `` {c})"
proof -
  obtain V where V: "reachableFrom n w c {} = Some V" using search_ends(1) [OF assms(1)] assms(2) by fastforce
  note sound = search_sound(1) [OF V]
  have "x \<in> V" if "(c, x) \<in> (leads_to w)\<^sup>*" for x
    using that by induction (use sound in auto)
  with sound have "V = (leads_to w)\<^sup>* `` {c}" by auto
  with V show ?thesis by simp
qed

section \<open>Well-formed workflows\<close>

definition well_formed_step :: "workflow \<Rightarrow> workflow_step \<Rightarrow> bool" where
  "well_formed_step w step \<longleftrightarrow> ws_Type step \<in> set step_types
     \<and> (ws_Type step \<in> {''agent'', ''plan''} \<longrightarrow> ws_Role step \<noteq> [])
     \<and> (ws_Type step = ''system'' \<longrightarrow> ws_Handler step \<noteq> [])
     \<and> (ws_Type step = ''spawn_project'' \<longrightarrow> ws_Template step \<noteq> [])
     \<and> (ws_Type step = ''call_project'' \<longrightarrow>
          ws_TargetProject step \<noteq> [] \<and> ws_TargetWorkflow step \<noteq> [] \<and> ws_ExpectSchema step \<noteq> [])
     \<and> (ws_Type step = ''plan'' \<longrightarrow> ws_OnSuccess step \<noteq> [])
     \<and> (ws_Type step = ''agent'' \<longrightarrow> ws_OnSuccess step = [] \<or> ws_Gates step = [])
     \<and> (\<forall>gate \<in> set (ws_Gates step). wg_Condition gate \<noteq> [] \<and> wg_Target gate \<noteq> [])
     \<and> (\<forall>t \<in> step_targets step. known_target w t)"

definition well_formed :: "workflow \<Rightarrow> bool" where
  "well_formed w \<longleftrightarrow> wf_ID w \<noteq> [] \<and> wf_Entrypoint w \<noteq> [] \<and> length (wf_Description w) \<le> WorkflowDescriptionMaxLen
     \<and> (dom (wf_Steps w) \<noteq> {} \<or> wf_IngestInputArtifacts w) \<and> known_target w (wf_Entrypoint w)
     \<and> (\<forall>c step. wf_Steps w c = Some step \<longrightarrow> well_formed_step w step \<and> (wf_Entrypoint w, c) \<in> (leads_to w)\<^sup>*)
     \<and> (\<forall>c t. wf_Terminals w c = Some t \<longrightarrow> wt_Status t \<in> set terminal_statuses)"

lemma first_error_None: "first_error es = None \<longleftrightarrow> (\<forall>e \<in> set es. e = None)"
  by (induction es rule: first_error.induct) auto

lemma require_None [simp]: "require ok f fd m = None \<longleftrightarrow> ok"
  by (simp add: require_def)

lemma validateTransition_None [simp]: "validateTransition w c f t fname = None \<longleftrightarrow> known_target w t"
  by (simp add: validateTransition_def)

lemma check_gate_None:
  "check_gate w fname c ig = None \<longleftrightarrow>
     wg_Condition (snd ig) \<noteq> [] \<and> wg_Target (snd ig) \<noteq> [] \<and> known_target w (wg_Target (snd ig))"
  by (cases ig) (auto simp: check_gate_def first_error_None)

lemma all_gates_None:
  "(\<forall>e \<in> set (map (check_gate w fname c) (enumerate 0 gates)). e = None) \<longleftrightarrow>
     (\<forall>gate \<in> set gates. wg_Condition gate \<noteq> [] \<and> wg_Target gate \<noteq> [] \<and> known_target w (wg_Target gate))"
proof -
  have "snd ` set (enumerate 0 gates) = set gates" by (simp flip: set_map)
  then have "(\<forall>g \<in> set gates. P g) \<longleftrightarrow> (\<forall>ig \<in> set (enumerate 0 gates). P (snd ig))" for P by (metis image_iff)
  then show ?thesis by (simp add: check_gate_None)
qed

lemma step_types_nonempty: "[] \<notin> set step_types"
  by (simp add: step_types_def)

lemma targets_known:
  "(\<forall>t \<in> step_targets step. known_target w t) \<longleftrightarrow>
     (ws_OnSuccess step \<noteq> [] \<longrightarrow> known_target w (ws_OnSuccess step)) \<and> (ws_OnFail step \<noteq> [] \<longrightarrow> known_target w (ws_OnFail step))
     \<and> (\<forall>gate \<in> set (ws_Gates step). known_target w (wg_Target gate))"
  by (auto simp: step_targets_def)

lemma check_step_None: "check_step w fname c step = None \<longleftrightarrow> well_formed_step w step"
proof -
  have ty: "ws_Type step \<in> set step_types \<Longrightarrow> ws_Type step \<noteq> []" using step_types_nonempty by metis
  have opt: "((if b then x else None) = None) = (b \<longrightarrow> x = None)" for b and x :: "validation_error option" by simp
  show ?thesis
    unfolding check_step_def Let_def first_error_None well_formed_step_def targets_known set_append ball_Un all_gates_None
    by (simp only: list.set ball_simps require_None validateTransition_None opt) (use ty in blast)
qed

lemma check_terminal_None: "check_terminal fname c t = None \<longleftrightarrow> wt_Status t \<in> set terminal_statuses"
  by (auto simp: check_terminal_def Let_def first_error_None terminal_statuses_def)

lemma validateReachability_None:
  assumes "set steps = dom (wf_Steps w)"
  shows "validateReachability w steps fname = None \<longleftrightarrow> (\<forall>c step. wf_Steps w c = Some step \<longrightarrow> (wf_Entrypoint w, c) \<in> (leads_to w)\<^sup>*)"
proof -
  have fin: "finite (dom (wf_Steps w))" using assms by (metis List.finite_set)
  have "card (dom (wf_Steps w)) \<le> length steps" using card_length [of steps] assms by simp
  then have "reachableFrom (length steps + 2) w (wf_Entrypoint w) {} = Some ((leads_to w)\<^sup>* `` {wf_Entrypoint w})"
    by (intro search_exact [OF fin]) linarith
  then show ?thesis using assms by (auto simp: validateReachability_def first_error_None dom_def)
qed

text \<open>
  \<^bold>\<open>C10.\<close> Validation is exact: whatever order the maps are walked in, \<open>Validate\<close> accepts a definition if and only if it
  is well formed: required fields per step type, transitions and gates that name declared steps or terminals,
  terminal statuses of the three kinds, no dead gates, and every step reachable from the entrypoint. The
  depth-first search ends and finds exactly the reachable names.
\<close>

theorem validate_exact:
  assumes "set steps = dom (wf_Steps w)" and "set terms = dom (wf_Terminals w)" and "set steps' = dom (wf_Steps w)"
  shows "Validate w steps terms steps' fname = None \<longleftrightarrow> well_formed w"
proof -
  have ne: "steps = [] \<longleftrightarrow> dom (wf_Steps w) = {}" by (metis assms(1) set_empty)
  have st: "(\<forall>c \<in> set steps. (case wf_Steps w c of Some step \<Rightarrow> check_step w fname c step | None \<Rightarrow> None) = None)
      \<longleftrightarrow> (\<forall>c step. wf_Steps w c = Some step \<longrightarrow> well_formed_step w step)"
    by (auto simp: assms(1) check_step_None split: option.splits)
  have tm: "(\<forall>c \<in> set terms. (case wf_Terminals w c of Some t \<Rightarrow> check_terminal fname c t | None \<Rightarrow> None) = None)
      \<longleftrightarrow> (\<forall>c t. wf_Terminals w c = Some t \<longrightarrow> wt_Status t \<in> set terminal_statuses)"
    by (auto simp: assms(2) check_terminal_None split: option.splits)
  show ?thesis
    unfolding Validate_def first_error_None well_formed_def
    by (simp only: set_append ball_Un list.set set_map ball_simps require_None st tm ne validateReachability_None [OF assms(3)])
      blast
qed

section \<open>Validated workflows at run time\<close>

text \<open>The step types whose missing on_success neither validation nor the step itself notices.\<close>

definition dead_end :: "workflow_step \<Rightarrow> bool" where
  "dead_end step \<longleftrightarrow> ws_Type step \<in> {''system'', ''spawn_project'', ''a2a_call''} \<and> ws_OnSuccess step = []"

lemma route_on_fail_somewhere: "route_on_fail E step e tell st l s = (Move l', s') \<Longrightarrow> ls_current l' \<noteq> []"
  using route_on_fail_Move(2) [of E step e tell st l s l' s'] by (auto simp: route_on_fail_def split: if_splits)

lemma finish_agent_somewhere: "finish_agent E step r n l s = (Move l', s') \<Longrightarrow> ls_current l' \<noteq> []"
  by (auto simp: finish_agent_def split: if_splits dest: move_on_Move(1))

lemma agent_next_somewhere: "agent_next E step r l s = (Move l', s') \<Longrightarrow> ls_current l' \<noteq> []"
  by (auto simp: agent_next_def Let_def split: if_splits sum.splits dest: finish_agent_somewhere)

lemma agent_succeeded_somewhere:
  "agent_succeeded E plan task step t opts role h cid r l s = (Move l', s') \<Longrightarrow> ls_current l' \<noteq> []"
  by (erule agent_succeeded_elim) (rule agent_next_somewhere)

lemma run_agent_step_somewhere:
  assumes "run_agent_step E plan task step t l s = (Move l', s')" shows "ls_current l' \<noteq> []"
proof -
  obtain opts role l1 s1 where p: "prepareAgentStepInput E plan step l s = ((opts, role, l1), s1)" by (metis surj_pair)
  obtain h f kids where g: "resolveResumeGuard E plan task (ls_current l1) s1 = (h, f, kids)" by (metis surj_pair)
  obtain cid r err s2 where d:
    "dispatchAgentStep E plan (ls_current l1) step t opts role h kids s1 = ((cid, r, err), s2)" by (metis surj_pair)
  show ?thesis
  proof (cases "h \<and> f")
    case True
    with assms p g show ?thesis by (auto simp: run_agent_step_def Let_def split: if_splits)
  next
    case False
    with assms p g d show ?thesis
      by (cases err) (auto simp: run_agent_step_def agent_failed_def Let_def split: if_splits
          dest: route_on_fail_somewhere agent_succeeded_somewhere)
  qed
qed

lemma run_gate_step_somewhere:
  assumes "run_gate_step E step l s = (Move l', s')" and "\<forall>gate \<in> set (ws_Gates step). wg_Target gate \<noteq> []"
  shows "ls_current l' \<noteq> []"
proof -
  obtain res s1 where r: "runGateStep E step l s = (res, s1)" by (metis surj_pair)
  with assms obtain n where n: "res = Inr n" "move_on E n (complete_current l) s1 = (Move l', s')"
    by (auto simp: run_gate_step_def split: sum.splits)
  have "n \<noteq> []"
    using r n(1) assms(2) gate_target [of "en_unmarshal E" "ws_Gates step" "es_LastResult (ls_state l)"]
    by (fastforce simp: runGateStep_def Let_def split: sum.splits if_splits)
  with n(2) show ?thesis by (auto dest: move_on_Move(1))
qed

lemma run_approval_step_somewhere:
  assumes "run_approval_step E task step l s = (Move l', s')" shows "ls_current l' \<noteq> []"
  using assms
  by (auto simp: run_approval_step_def runApprovalStep_def Let_def split: if_splits prod.splits option.splits sum.splits
      dest: move_on_Move(1))

lemma run_plan_step_somewhere:
  assumes "run_plan_step E step t l s = (Move l', s')" and "plan_follows E" and "ws_OnSuccess step \<noteq> []"
  shows "ls_current l' \<noteq> []"
proof -
  obtain cid result n completed err ex st s1 where
    p: "en_planStep E (ls_current l) step t (ls_artifacts l) (ls_completed l) (ls_exec l, ls_state l) s
      = ((cid, result, n, completed, err), (ex, st), s1)" by (metis surj_pair)
  show ?thesis
  proof (cases err)
    case None
    with assms(2) p have "n = ws_OnSuccess step" unfolding plan_follows_def by blast
    with None p assms(1,3) show ?thesis by (auto simp: run_plan_step_def Let_def dest: move_on_Move(1))
  next
    case (Some e)
    with p assms(1) show ?thesis
      by (auto simp: run_plan_step_def Let_def split: if_splits dest: route_on_fail_somewhere)
  qed
qed

lemma other_steps_somewhere:
  "run_spawn_step E step l s = (Move l', s') \<Longrightarrow> ws_OnSuccess step \<noteq> [] \<Longrightarrow> ls_current l' \<noteq> []"
  "run_call_step E task step l s = (Move l', s') \<Longrightarrow> ls_current l' \<noteq> []"
  "run_a2a_step E step l s = (Move l', s') \<Longrightarrow> ws_OnSuccess step \<noteq> [] \<Longrightarrow> ls_current l' \<noteq> []"
  "run_system_step E step l s = (Move l', s') \<Longrightarrow> ws_OnSuccess step \<noteq> [] \<Longrightarrow> ls_current l' \<noteq> []"
  by (auto simp: run_spawn_step_def run_call_step_def run_a2a_step_def run_system_step_def Let_def
      split: prod.splits sum.splits option.splits if_splits dest: route_on_fail_somewhere move_on_Move(1))

lemma dispatch_step_known:
  assumes "dispatch_step E plan task step t l s = (Move l', s')" and "plan_follows E"
    and "well_formed_step w step" and "\<not> dead_end step"
  shows "known_target w (ls_current l')"
proof -
  have "ls_current l' \<noteq> []"
  proof -
    have gates: "\<forall>gate \<in> set (ws_Gates step). wg_Target gate \<noteq> []" and plan: "ws_Type step = ''plan'' \<Longrightarrow> ws_OnSuccess step \<noteq> []"
      using assms(3) by (simp_all add: well_formed_step_def)
    have sys: "ws_Type step \<in> {''system'', ''spawn_project'', ''a2a_call''} \<Longrightarrow> ws_OnSuccess step \<noteq> []"
      using assms(4) unfolding dead_end_def by blast
    note moved = assms(1) [unfolded dispatch_step_def]
    show ?thesis
    proof (cases "ws_Type step \<in> {''system'', ''spawn_project'', ''a2a_call'', ''plan''}")
      case True
      with sys plan have on: "ws_OnSuccess step \<noteq> []" by blast
      from True moved show ?thesis
        by (auto split: if_splits dest: run_plan_step_somewhere [OF _ assms(2) on] other_steps_somewhere(1) [OF _ on]
            other_steps_somewhere(3) [OF _ on] other_steps_somewhere(4) [OF _ on])
    next
      case False
      with moved show ?thesis
        by (auto split: if_splits dest: run_agent_step_somewhere run_gate_step_somewhere [OF _ gates]
            run_approval_step_somewhere other_steps_somewhere(2))
    qed
  qed
  with dispatch_step_Move(1) [OF assms(1,2)] have "ls_current l' \<in> step_targets step"
    by (auto simp: successors_def step_targets_def)
  with assms(3) show ?thesis by (simp add: well_formed_step_def)
qed

text \<open>
  How an attempt may end: at a declared terminal, reached over the dispatched steps; in the step it dispatched
  last, of a known type; or at one of the two limits.
\<close>

definition ends_at_terminal ::
  "'s engine \<Rightarrow> workflow \<Rightarrow> string \<Rightarrow> attempt_result \<Rightarrow> dispatch_log \<Rightarrow> 's \<Rightarrow> bool" where
  "ends_at_terminal E w start r lg s' \<longleftrightarrow> (\<exists>(l :: loop_state) s0 t. reaches w start (map fst lg) (ls_current l)
     \<and> wf_Terminals w (ls_current l) = Some t \<and> wt_Status t \<in> set terminal_statuses
     \<and> resolveTerminalOutcome E t l s0 = ((fst r, fst (snd r), snd (snd (snd r))), s'))"

definition ends_in_step ::
  "'s engine \<Rightarrow> execution_plan \<Rightarrow> task \<Rightarrow> attempt_result \<Rightarrow> execution \<Rightarrow> dispatch_log \<Rightarrow> 's \<Rightarrow> bool" where
  "ends_in_step E plan task r ex lg s' \<longleftrightarrow> lg \<noteq> [] \<and> (\<exists>(l :: loop_state) s0 t step. ls_current l = fst (last lg)
     \<and> wf_Steps (pl_workflow plan) (ls_current l) = Some step \<and> ws_Type step \<in> set step_types
     \<and> dispatch_step E plan task step t l s0 = (Stop r ex, s'))"

definition ends_at_limit :: "workflow \<Rightarrow> attempt_result \<Rightarrow> dispatch_log \<Rightarrow> bool" where
  "ends_at_limit w r lg \<longleftrightarrow> lg \<noteq> [] \<and> (max_iterations w < snd (last lg) \<or>
     (\<exists>m. snd (snd (snd r)) = Some (plain_err (''step '' @ fst (last lg) @ '' visited '' @ m))))"

lemma validated_loop:
  assumes "attempt_loop E plan task timeout it vc l s = (r, ex, lg, s')" and "plan_follows E"
    and "well_formed (pl_workflow plan)" and "\<And>c step. wf_Steps (pl_workflow plan) c = Some step \<Longrightarrow> \<not> dead_end step"
    and "known_target (pl_workflow plan) (ls_current l)"
  shows "ends_at_terminal E (pl_workflow plan) (ls_current l) r lg s' \<or> ends_in_step E plan task r ex lg s'
       \<or> ends_at_limit (pl_workflow plan) r lg"
  using assms(1,5)
proof (induction lg arbitrary: it vc l s)
  case Nil
  from Nil.prems(1) show ?case
  proof (cases rule: attempt_loop_elim)
    case (terminal t)
    then have "wt_Status t \<in> set terminal_statuses" using assms(3) by (auto simp: well_formed_def)
    with terminal show ?thesis unfolding ends_at_terminal_def by auto
  next
    case missing
    with Nil.prems(2) show ?thesis by (simp add: known_target_def)
  qed auto
next
  case (Cons e lg0)
  have wfs: "well_formed_step (pl_workflow plan) step" if "wf_Steps (pl_workflow plan) c = Some step" for c step
    using assms(3) that by (auto simp: well_formed_def)
  from Cons.prems(1) show ?case
  proof (cases rule: attempt_loop_elim)
    case (stopped step t l1)
    then have "ws_Type step \<in> set step_types" using wfs by (auto simp: well_formed_step_def)
    then have "ends_in_step E plan task r ex (e # lg0) s'"
      unfolding ends_in_step_def using stopped
      by (intro conjI exI [of _ l1] exI [of _ s] exI [of _ t] exI [of _ step]) auto
    then show ?thesis by blast
  next
    case (refused step)
    then show ?thesis by (auto simp: ends_at_limit_def)
  next
    case (moved step visits l1 t l2 s1 lg')
    then have lg0: "lg0 = lg'" "e = (ls_current l, it + 1)" by simp_all
    have kt: "known_target (pl_workflow plan) (ls_current l2)"
      using dispatch_step_known [OF moved(6) assms(2) wfs assms(4)] moved(2) by blast
    have succ: "ls_current l2 \<in> successors step" by (rule dispatch_step_Move(1) [OF moved(6) assms(2)])
    from Cons.IH [OF moved(7) [folded lg0(1)] kt] show ?thesis
    proof (elim disjE)
      assume "ends_at_terminal E (pl_workflow plan) (ls_current l2) r lg0 s'"
      then obtain l3 s0 t where end3: "reaches (pl_workflow plan) (ls_current l2) (map fst lg0) (ls_current l3)"
        "wf_Terminals (pl_workflow plan) (ls_current l3) = Some t" "wt_Status t \<in> set terminal_statuses"
        "resolveTerminalOutcome E t l3 s0 = ((fst r, fst (snd r), snd (snd (snd r))), s')"
        unfolding ends_at_terminal_def by blast
      have "reaches (pl_workflow plan) (ls_current l) (map fst (e # lg0)) (ls_current l3)"
        using end3(1) moved(1,2) succ lg0(2) by auto
      with end3(2-4) show ?thesis unfolding ends_at_terminal_def by blast
    qed (auto simp: ends_in_step_def ends_at_limit_def)
  qed auto
qed

text \<open>
  \<^bold>\<open>C9.\<close> Validated workflows do not go wrong. Let a definition pass \<open>Validate\<close>, in whatever order its maps are
  walked, and let its system, spawn and A2A steps name an on_success. An attempt from a fresh start or from a
  declared step never loses its way: it ends at a declared terminal of one of the three statuses, or inside a
  step of a known type, or at one of the two limits; the errors for an unknown step, an unknown step type and
  an unsupported terminal status cannot occur.
\<close>

theorem validated_workflow_sound:
  fixes E :: "'s engine"
  assumes valid: "Validate (pl_workflow plan) steps terms steps' fname = None"
    and maps: "set steps = dom (wf_Steps (pl_workflow plan))" "set terms = dom (wf_Terminals (pl_workflow plan))"
      "set steps' = dom (wf_Steps (pl_workflow plan))"
    and live: "\<forall>c step. wf_Steps (pl_workflow plan) c = Some step \<longrightarrow> \<not> dead_end step"
    and start: "\<forall>c. ex_CurrentStepID ex = Some c \<longrightarrow> c = [] \<or> known_target (pl_workflow plan) c"
    and "plan_follows E"
    and run: "executeWorkflowAttempt E plan task ex timeout s = (r, ex', lg, s')"
  shows "ends_at_terminal E (pl_workflow plan) (ls_current (start_position E plan task ex)) r lg s'
       \<or> ends_in_step E plan task r ex' lg s' \<or> ends_at_limit (pl_workflow plan) r lg"
proof -
  have wfd: "well_formed (pl_workflow plan)" using validate_exact [OF maps] valid by blast
  have "known_target (pl_workflow plan) (ls_current (start_position E plan task ex))"
    using start wfd by (auto simp: start_position_def well_formed_def split: option.splits)
  moreover obtain l s1 where l: "ls_current l = ls_current (start_position E plan task ex)"
    and loop: "attempt_loop E plan task timeout (es_Iterations (loadExecutionState ex))
       (es_VisitCounts (loadExecutionState ex)) l s1 = (r, ex', lg, s')" using run by (rule attempt_unfold)
  ultimately show ?thesis using validated_loop [OF loop \<open>plan_follows E\<close> wfd] live by simp
qed

text \<open>
  Validation misses a dead end. A system step without on_success passes \<open>Validate\<close> (plan steps are the only
  ones that must name it, and approval steps check it themselves), but when its handler succeeds the loop goes
  to the step with the empty name: unless a step or terminal has that name, the attempt fails as an unknown step
  after all its work was done.
\<close>

theorem validated_dead_end:
  fixes E :: "'s engine"
  assumes valid: "Validate (pl_workflow plan) steps terms steps' fname = None"
    and step: "wf_Terminals (pl_workflow plan) (ls_current l) = None" "wf_Steps (pl_workflow plan) (ls_current l) = Some step"
      "ws_Type step = ''system''" "dead_end step" "\<not> known_target (pl_workflow plan) []"
    and worked: "en_systemHandler E (ws_Handler step) = Some h"
      "h (ls_current l) step (es_LastResult (ls_state l)) s = (Inr result, s1)"
      "raw_ok result" "list_all (\<lambda>kv. raw_ok (snd kv)) (es_StepResults (ls_state l))"
      "\<forall>i st s. fst (en_SaveStateSnapshot E i st s) = None"
    and limits: "it + 1 \<le> max_iterations (pl_workflow plan)" "vc (ls_current l) + 1 \<le> max_visits E task (pl_workflow plan)"
  shows "snd (snd (snd (fst (attempt_loop E plan task timeout it vc l s)))) = Some (plain_err (missing_step_msg []))"
proof -
  let ?l = "l\<lparr>ls_state := (ls_state l)\<lparr>es_Iterations := it + 1, es_VisitCounts := vc(ls_current l := vc (ls_current l) + 1)\<rparr>\<rparr>"
  have m: "marshals (st\<lparr>es_CurrentStepID := a, es_CompletedSteps := b\<rparr>) = marshals st" for st a b by (simp add: marshals_def)
  have "raw_ok ''{}''" by code_simp
  with worked(3,4) have ok: "marshals ((ls_state ?l)\<lparr>es_LastResult := (if result \<noteq> [] then result else ''{}'')\<rparr>)"
    by (simp add: marshals_def)
  have saves: "\<exists>s2. en_SaveStateSnapshot E i st s0 = (None, s2)" for i st s0
    using worked(5) by (metis prod.collapse)
  have on: "ws_OnSuccess step = []" using step(4) by (simp add: dead_end_def)
  obtain l' s' where moved: "run_system_step E step ?l s = (Move l', s')" and here: "ls_current l' = []"
  proof -
    define l1 where "l1 = (complete_current ?l)\<lparr>ls_state := (ls_state ?l)\<lparr>es_LastResult :=
        (if result \<noteq> [] then result else ''{}'')\<rparr>\<rparr>"
    define s2 where "s2 = en_recordStepOutcome E (ls_current l) ''system'' (ws_Handler step) ''ok'' [] [] s1"
    have "run_system_step E step ?l s = move_on E [] l1 s2"
      using worked(1,2) on by (simp add: run_system_step_def Let_def l1_def s2_def)
    moreover obtain s3 where "en_SaveStateSnapshot E (ex_ID (ls_exec l1))
        ((ls_state l1)\<lparr>es_CurrentStepID := [], es_CompletedSteps := ls_completed l1\<rparr>) s2 = (None, s3)" using saves by blast
    moreover have "marshals (ls_state l1)" using ok by (simp add: l1_def)
    ultimately show thesis using that by (simp add: move_on_def saveCheckpoint_def saveExecutionState_def m Let_def)
  qed
  have "snd (snd (snd (fst (attempt_loop E plan task timeout (it + 1) visits l' s')))) = Some (plain_err (missing_step_msg []))"
    for visits using here step(5) by (subst attempt_loop.simps) (simp add: Let_def known_target_def)
  then show ?thesis
    using step(1-3) limits moved
    by (subst attempt_loop.simps) (simp add: Let_def dispatch_step_def case_prod_beta)
qed

section \<open>Concrete definitions\<close>

definition demo_steps :: "string list" where "demo_steps = [''sign'', ''build'', ''index'']"
definition demo_terminals :: "string list" where "demo_terminals = [''failed'', ''done'']"

definition demo_chain :: workflow where
  "demo_chain = demo_workflow\<lparr>wf_Steps := [''build'' \<mapsto> plain_step ''agent'' ''sign'' ''failed'',
     ''sign'' \<mapsto> plain_step ''approval'' ''index'' [], ''index'' \<mapsto> plain_step ''system'' ''done'' ''failed'']\<rparr>"

definition demo_open :: workflow where
  "demo_open = demo_workflow\<lparr>wf_Entrypoint := ''index'', wf_Steps := [''index'' \<mapsto> plain_step ''system'' [] ''failed'']\<rparr>"

lemma demo_chain_valid: "Validate demo_chain demo_steps demo_terminals demo_steps ''dev.md'' = None"
  by code_simp

lemma demo_open_valid: "Validate demo_open [''index''] demo_terminals [''index''] ''rag.md'' = None"
  by code_simp

theorem validate_exact_witness: "well_formed demo_chain"
  using validate_exact [of demo_steps demo_chain demo_terminals demo_steps "''dev.md''"] demo_chain_valid
  by (auto simp: demo_steps_def demo_terminals_def demo_chain_def demo_workflow_def)

definition chain_plan :: execution_plan where
  "chain_plan = demo_plan\<lparr>pl_workflow := demo_chain\<rparr>"

theorem validated_workflow_sound_witness:
  "\<exists>r ex' lg s'. executeWorkflowAttempt (demo_engine (\<lambda>_. Inr ''{}'')) chain_plan wake_parent (demo_exec ''build'' 0) Minute wake_db
       = (r, ex', lg, s')
     \<and> (ends_at_terminal (demo_engine (\<lambda>_. Inr ''{}'')) demo_chain ''build'' r lg s'
        \<or> ends_in_step (demo_engine (\<lambda>_. Inr ''{}'')) chain_plan wake_parent r ex' lg s' \<or> ends_at_limit demo_chain r lg)"
proof -
  let ?E = "demo_engine (\<lambda>_. Inr ''{}'')"
  obtain r ex' lg s' where run: "executeWorkflowAttempt ?E chain_plan wake_parent (demo_exec ''build'' 0) Minute wake_db
      = (r, ex', lg, s')" by (metis surj_pair)
  have w: "pl_workflow chain_plan = demo_chain" by (simp add: chain_plan_def)
  have "set demo_steps = dom (wf_Steps demo_chain)" "set demo_terminals = dom (wf_Terminals demo_chain)"
    by (auto simp: demo_steps_def demo_terminals_def demo_chain_def demo_workflow_def)
  moreover have "\<forall>c step. wf_Steps demo_chain c = Some step \<longrightarrow> \<not> dead_end step"
    by (auto simp: demo_chain_def demo_workflow_def plain_step_def dead_end_def split: if_splits)
  moreover have "\<forall>c. ex_CurrentStepID (demo_exec ''build'' 0) = Some c \<longrightarrow> c = [] \<or> known_target demo_chain c"
    by (simp add: demo_exec_def known_target_def demo_chain_def)
  moreover have "ls_current (start_position ?E chain_plan wake_parent (demo_exec ''build'' 0)) = ''build''"
    by (simp add: start_position_def demo_exec_def)
  ultimately have "ends_at_terminal ?E demo_chain ''build'' r lg s' \<or> ends_in_step ?E chain_plan wake_parent r ex' lg s'
      \<or> ends_at_limit demo_chain r lg"
    using validated_workflow_sound [of chain_plan demo_steps demo_terminals demo_steps "''dev.md''" "demo_exec ''build'' 0" ?E,
        unfolded w, OF demo_chain_valid _ _ _ _ _ demo_plan_follows run] by simp
  with run show ?thesis by blast
qed

definition open_plan :: execution_plan where
  "open_plan = demo_plan\<lparr>pl_workflow := demo_open\<rparr>"

definition indexing_engine :: "db engine" where
  "indexing_engine = (demo_engine (\<lambda>_. Inr ''{}''))\<lparr>en_systemHandler := (\<lambda>_. Some (\<lambda>_ _ _ d. (Inr ''{}'', d)))\<rparr>"

definition open_position :: loop_state where
  "open_position = start_position indexing_engine open_plan wake_parent (demo_exec ''index'' 0)"

theorem validated_dead_end_witness:
  "snd (snd (snd (fst (attempt_loop indexing_engine open_plan wake_parent Minute 0 (\<lambda>_. 0) open_position wake_db)))) =
     Some (plain_err ''workflow step  not found'')"
proof -
  let ?step = "plain_step ''system'' [] ''failed''"
  have w: "pl_workflow open_plan = demo_open" by (simp add: open_plan_def)
  have cur: "ls_current open_position = ''index''" by (simp add: open_position_def start_position_def demo_exec_def)
  have raw: "raw_ok ''{}''" by code_simp
  have "list_all (\<lambda>kv. raw_ok (snd kv)) (es_StepResults (ls_state open_position))"
    by (simp add: open_position_def start_position_def demo_exec_def loadExecutionState_def zero_state_def Let_def)
  moreover have "wf_Terminals demo_open ''index'' = None" "wf_Steps demo_open ''index'' = Some ?step" "dead_end ?step"
    "ws_Type ?step = ''system''" "\<not> known_target demo_open []"
    by (simp_all add: demo_open_def demo_workflow_def plain_step_def dead_end_def known_target_def)
  moreover have "en_systemHandler indexing_engine (ws_Handler ?step) = Some (\<lambda>_ _ _ d. (Inr ''{}'', d))"
    "\<forall>i st s. fst (en_SaveStateSnapshot indexing_engine i st s) = None"
    by (simp_all add: indexing_engine_def base_engine_def)
  moreover have "max_iterations demo_open = 20" "max_visits indexing_engine wake_parent demo_open = 3"
    by (simp_all add: max_iterations_def max_visits_def indexing_engine_def base_engine_def demo_open_def demo_workflow_def)
  ultimately have "snd (snd (snd (fst (attempt_loop indexing_engine open_plan wake_parent Minute 0 (\<lambda>_. 0) open_position wake_db)))) =
      Some (plain_err (missing_step_msg []))"
    using raw by (intro validated_dead_end [where step = ?step, OF demo_open_valid [folded w]]) (simp_all add: w cur)
  then show ?thesis by (simp add: missing_step_msg_def)
qed

end
