(* ===== verification/ExecutorRun.thy ===== *)
theory ExecutorRun
  imports WorkflowProps
begin

text \<open>
  One execution of a task (\<^verbatim>\<open>src/internal/executor/executor.go\<close>: \<open>runExecution\<close>, \<open>cleanupExecution\<close>,
  \<open>releaseRecoveredTask\<close>; \<^verbatim>\<open>workflow.go\<close>: \<open>handleSuccess\<close>, \<open>handleFailure\<close>, \<open>handleCancelled\<close>,
  \<open>taskWillRetry\<close>, \<open>shouldRetry\<close>; \<^verbatim>\<open>checkpoint.go\<close>): the retry loop around the workflow attempts and what is
  written when it ends.

  A call made with the execution's context fails without effect once that context is done; this is what
  \<^verbatim>\<open>database/sql\<close> does. The repository seen through the context is the engine's \<open>en_repo\<close>, the one seen
  through \<open>context.Background()\<close> is \<open>rn_bg\<close>. The in-memory task is passed along explicitly, because the
  finalisers write it back as a whole.
\<close>

section \<open>Environment\<close>

record 's run_env =
  rn_engine :: "'s engine"
  rn_bg :: "'s task_repo"
  rn_Update :: "task \<Rightarrow> 's \<Rightarrow> 's"
  rn_Create :: "task \<Rightarrow> 's \<Rightarrow> repo_error option \<times> 's"
  rn_isShuttingDown :: "'s \<Rightarrow> bool"
  rn_sweepPendingOutcomes :: "string \<Rightarrow> string \<Rightarrow> 's \<Rightarrow> 's"
  rn_RecordCompletion :: "string \<Rightarrow> string \<Rightarrow> 's \<Rightarrow> 's"
  rn_RecordFailure :: "string \<Rightarrow> string \<Rightarrow> string \<Rightarrow> 's \<Rightarrow> 's"
  rn_execUpdate :: "execution \<Rightarrow> 's \<Rightarrow> 's"
  rn_SupersedeNonTerminal :: "string \<Rightarrow> 's \<Rightarrow> 's"
  rn_settleBudgetReservation :: "string \<Rightarrow> 's \<Rightarrow> 's"
  rn_resolveCrossProjectCall :: "task \<Rightarrow> bool \<Rightarrow> 's \<Rightarrow> 's"
  rn_ingest :: "task \<Rightarrow> execution \<Rightarrow> string \<Rightarrow> 's \<Rightarrow> 's"
  rn_circuitBreaker :: "(task \<Rightarrow> string \<Rightarrow> 's \<Rightarrow> 's) option"
  rn_notify :: "task \<Rightarrow> bool \<Rightarrow> string \<Rightarrow> 's \<Rightarrow> 's"
  rn_judge :: "task \<Rightarrow> 's \<Rightarrow> 's"
  rn_resultMessage :: "string \<Rightarrow> string"
  rn_resolveExecutionPlan :: "task \<Rightarrow> execution \<Rightarrow> 's \<Rightarrow> (step_err + execution_plan \<times> execution) \<times> 's"
  rn_setupWorkspace :: "'s \<Rightarrow> 's"
  rn_mergeWorktree :: "'s \<Rightarrow> step_err option \<times> 's"
  rn_discardWorkspace :: "'s \<Rightarrow> 's"
  rn_resetWorkspace :: "bool \<Rightarrow> 's \<Rightarrow> 's"
  rn_freshWorkspace :: "'s \<Rightarrow> 's"
  rn_worktreeDir :: "'s \<Rightarrow> string"
  rn_retryDelay :: "'s \<Rightarrow> step_err option \<times> 's"
  rn_handoffFinalization :: "task \<Rightarrow> execution \<Rightarrow> string \<Rightarrow> string \<Rightarrow> 's \<Rightarrow> 's"
  rn_generateID :: "'s \<Rightarrow> string \<times> 's"
  rn_now :: "'s \<Rightarrow> nanos"
  rn_extractPrompt :: "task \<Rightarrow> string"
  rn_continuationPayload :: "string \<Rightarrow> string"
  rn_WithTimeout :: "nanos \<Rightarrow> 's \<Rightarrow> 's"
  rn_MaxRetries :: int
  rn_DefaultTimeout :: nanos

text \<open>A repository behind a context: when the context is done every call fails and changes nothing.\<close>

definition ctx_repo :: "('s \<Rightarrow> bool) \<Rightarrow> repo_error \<Rightarrow> 's task_repo \<Rightarrow> 's task_repo" where
  "ctx_repo isdone e R = \<lparr>
     tr_Get = (\<lambda>i s. if isdone s then Inl e else tr_Get R i s),
     tr_List = (\<lambda>f s. if isdone s then Inl e else tr_List R f s),
     tr_TransitionConditional = (\<lambda>i frm to opts s. if isdone s then (Inl e, s) else tr_TransitionConditional R i frm to opts s),
     tr_LeaseTask = (\<lambda>opts s. if isdone s then (Inl e, s) else tr_LeaseTask R opts s),
     tr_RenewLease = (\<lambda>i l n s. if isdone s then (Some e, s) else tr_RenewLease R i l n s),
     tr_ReleaseLease = (\<lambda>i l st opts s. if isdone s then (Some e, s) else tr_ReleaseLease R i l st opts s),
     tr_FindExpiredLeases = (\<lambda>n s. if isdone s then Inl e else tr_FindExpiredLeases R n s),
     tr_GetChildren = (\<lambda>i s. if isdone s then Inl e else tr_GetChildren R i s),
     tr_UpdateStatus = (\<lambda>i st s. if isdone s then (Some e, s) else tr_UpdateStatus R i st s)\<rparr>"

section \<open>Finalisers\<close>

definition taskWillRetry :: "task \<Rightarrow> bool" where
  "taskWillRetry t \<longleftrightarrow> \<not> task_MaxAttempts t \<le> 0 \<and> task_Attempt t < task_MaxAttempts t"

definition shouldRetry :: "step_err option \<Rightarrow> bool" where
  "shouldRetry err = (case err of
       None \<Rightarrow> False
     | Some e \<Rightarrow> if WrapsCanceled \<in> set (se_chain e) \<or> WrapsDeadline \<in> set (se_chain e) then False else se_retryable e)"

definition paused_by_operator :: "'s run_env \<Rightarrow> task \<Rightarrow> 's \<Rightarrow> bool" where
  "paused_by_operator L task s = (case tr_Get (rn_bg L) (task_ID task) s of
       Inl _ \<Rightarrow> False | Inr fresh \<Rightarrow> task_Status fresh = TaskStatusPaused)"

definition cascadeOrphanExecutions :: "'s run_env \<Rightarrow> string \<Rightarrow> 's \<Rightarrow> 's" where
  "cascadeOrphanExecutions L taskID s = (if taskID = [] then s else rn_SupersedeNonTerminal L taskID s)"

definition handleSuccess :: "'s run_env \<Rightarrow> task \<Rightarrow> execution \<Rightarrow> string \<Rightarrow> 's \<Rightarrow> task \<times> 's" where
  "handleSuccess L task0 ex result s =
     (if paused_by_operator L task0 s then (task0, s)
      else (let s1 = rn_sweepPendingOutcomes L (ex_ID ex) ''ok'' s;
                s2 = rn_RecordCompletion L (ex_ID ex) result s1;
                s3 = snd (tr_UpdateStatus (en_repo (rn_engine L)) (task_ID task0) TaskStatusCompleted s2);
                task = task0\<lparr>task_Status := TaskStatusCompleted\<rparr>;
                s4 = rn_settleBudgetReservation L (task_ID task) s3;
                s5 = cascadeOrphanExecutions L (task_ID task) s4;
                s6 = rn_resolveCrossProjectCall L task True s5;
                s7 = checkParentUnblock (en_repo (rn_engine L)) (task_ParentTaskID task) s6;
                s8 = rn_ingest L task ex result s7;
                msg = (if result \<noteq> [] \<and> rn_resultMessage L result \<noteq> [] then rn_resultMessage L result
                       else ''Task completed successfully'');
                s9 = rn_notify L task True msg s8
            in (task, rn_judge L task s9)))"

definition failure_text :: "step_err option \<Rightarrow> string" where
  "failure_text err = (case err of None \<Rightarrow> ''unknown error'' | Some e \<Rightarrow> se_msg e)"

definition failure_class :: "step_err option \<Rightarrow> string" where
  "failure_class err = ClassifyExecutionFailure err (failure_text err)"

text \<open>The in-memory task as \<open>handleFailure\<close> leaves it, and writes it back.\<close>

definition failed_task :: "task \<Rightarrow> step_err option \<Rightarrow> task" where
  "failed_task task err =
     (let t1 = task\<lparr>task_LastError := Some (failure_text err),
                task_LastErrorClass := (if failure_class err \<noteq> [] then Some (failure_class err) else task_LastErrorClass task)\<rparr>
      in if \<not> taskWillRetry t1 then t1\<lparr>task_Status := TaskStatusFailed\<rparr> else t1)"

definition handleFailure :: "'s run_env \<Rightarrow> task \<Rightarrow> execution \<Rightarrow> step_err option \<Rightarrow> 's \<Rightarrow> task \<times> 's" where
  "handleFailure L task0 ex err s =
     (if paused_by_operator L task0 s then (task0, s)
      else (let task = failed_task task0 err;
                s1 = rn_sweepPendingOutcomes L (ex_ID ex) ''ok'' s;
                s2 = rn_RecordFailure L (ex_ID ex) (failure_text err)
                       (if failure_class err = [] then ''EXECUTION_ERROR'' else failure_class err) s1;
                s3 = rn_Update L task s2;
                s4 = (if task_Status task = TaskStatusFailed then rn_settleBudgetReservation L (task_ID task) s3 else s3);
                s5 = rn_resolveCrossProjectCall L task False s4;
                s6 = checkParentUnblock (en_repo (rn_engine L)) (task_ParentTaskID task) s5;
                s7 = (case rn_circuitBreaker L of
                        Some trip \<Rightarrow> if \<not> taskWillRetry task then trip task (failure_class err) s6 else s6
                      | None \<Rightarrow> s6);
                s8 = (if \<not> taskWillRetry task then rn_judge L task (rn_notify L task False (failure_text err) s7) else s7)
            in (task, s8)))"

definition handleCancelled :: "'s run_env \<Rightarrow> task \<Rightarrow> execution \<Rightarrow> 's \<Rightarrow> task \<times> 's" where
  "handleCancelled L task0 ex s =
     (let s1 = rn_sweepPendingOutcomes L (ex_ID ex) ''cancelled'' s;
          s2 = snd (en_execUpdateStatus (rn_engine L) (ex_ID ex) ExecutionStatusCancelled s1);
          s3 = snd (tr_UpdateStatus (en_repo (rn_engine L)) (task_ID task0) TaskStatusCancelled s2);
          task = task0\<lparr>task_Status := TaskStatusCancelled\<rparr>;
          s4 = rn_settleBudgetReservation L (task_ID task) s3;
          s5 = cascadeOrphanExecutions L (task_ID task) s4;
          s6 = rn_resolveCrossProjectCall L task False s5;
          s7 = rn_notify L task False ''Task cancelled'' s6
      in (task, checkParentUnblock (en_repo (rn_engine L)) (task_ParentTaskID task) s7))"

definition isTaskCancelled :: "'s run_env \<Rightarrow> string \<Rightarrow> 's \<Rightarrow> bool" where
  "isTaskCancelled L taskID s = (case tr_Get (en_repo (rn_engine L)) taskID s of
       Inl _ \<Rightarrow> False | Inr t \<Rightarrow> task_Status t = TaskStatusCancelled)"

section \<open>Checkpoint follow-ups\<close>

definition maxCheckpointDepth :: nat where "maxCheckpointDepth = 3"

text \<open>The walk up the parents; \<open>guard\<close> bounds a malformed chain. An error carries no depth: the caller drops it.\<close>

fun count_checkpoints :: "'s task_repo \<Rightarrow> nat \<Rightarrow> nat \<Rightarrow> task \<Rightarrow> 's \<Rightarrow> repo_error + nat" where
  "count_checkpoints R 0 depth cursor s = Inr depth"
| "count_checkpoints R (Suc g) depth cursor s = (case task_ParentTaskID cursor of
       None \<Rightarrow> Inr depth
     | Some p \<Rightarrow> (case tr_Get R p s of
           Inl e \<Rightarrow> Inl e
         | Inr parent \<Rightarrow>
             if task_CreationSource parent \<noteq> TaskCreationSourceCheckpoint then Inr depth
             else count_checkpoints R g (depth + 1) parent s))"

definition countCheckpointDepth :: "'s task_repo \<Rightarrow> task \<Rightarrow> 's \<Rightarrow> repo_error + nat" where
  "countCheckpointDepth R t s = count_checkpoints R (maxCheckpointDepth * 2 + 1) 0 t s"

definition checkpointPrompt :: "string \<Rightarrow> string \<Rightarrow> string \<Rightarrow> string" where
  "checkpointPrompt taskID stepID previous =
     ''[checkpoint continuation]\<newline>\<newline>The previous task '' @ taskID @
     '' hit the agent'' @ [CHR 0x27] @ ''s tool-iteration limit (VORNIK_MAX_TOOL_ITERATIONS) on step '' @ stepID @
     ''. Partial work was committed and merged to the project repository '' @ map char_of [226, 128, 148 :: nat] @
     '' read the most recent commits ('' @ [CHR 0x27] @ ''cd project && git log --oneline -8'' @ [CHR 0x27] @
     '') to see what was completed.\<newline>\<newline>Continue from there toward the original goal:\<newline>\<newline>'' @ previous @
     ''\<newline>\<newline>If the work appears already done, verify against the original acceptance criteria and finish; otherwise pick up the next concrete subtask. Prefer one tight focused step over re-doing what the previous attempt accomplished.''"

definition continuation_task :: "'s run_env \<Rightarrow> task \<Rightarrow> string \<Rightarrow> string \<Rightarrow> nanos \<Rightarrow> task" where
  "continuation_task L parent failedStepID taskID now =
     (let prev = rn_extractPrompt L parent;
          prompt = checkpointPrompt (task_ID parent) failedStepID
            (if prev = [] then ''(original prompt unavailable; consult parent task '' @ task_ID parent @ '' in the UI)'' else prev)
      in zero_task\<lparr>task_ID := taskID, task_ProjectID := task_ProjectID parent, task_WorkflowID := task_WorkflowID parent,
           task_ParentTaskID := Some (task_ID parent), task_CreationSource := TaskCreationSourceCheckpoint,
           task_Status := TaskStatusQueued, task_Priority := task_Priority parent,
           task_Payload := Some (rn_continuationPayload L prompt), task_Attempt := 1,
           task_MaxAttempts := (if task_MaxAttempts parent \<le> 0 then 1 else task_MaxAttempts parent),
           task_CreatedAt := now, task_UpdatedAt := now\<rparr>)"

definition scheduleCheckpointFollowUp :: "'s run_env \<Rightarrow> task \<Rightarrow> string \<Rightarrow> 's \<Rightarrow> (string + string) \<times> 's" where
  "scheduleCheckpointFollowUp L parent failedStepID s =
     (let depth = (case countCheckpointDepth (en_repo (rn_engine L)) parent s of Inl _ \<Rightarrow> 0 | Inr n \<Rightarrow> n)
      in if depth \<ge> maxCheckpointDepth
         then (Inl (''checkpoint depth '' @ show_nat depth @ '' reached cap '' @ show_nat maxCheckpointDepth @ '' '' @
                 map char_of [226, 128, 148 :: nat] @ '' refusing further continuation''), s)
         else (case rn_generateID L s of (i, s1) \<Rightarrow>
               case rn_Create L (continuation_task L parent failedStepID i (rn_now L s1)) s1 of
                 (Some e, s2) \<Rightarrow> (Inl (''create checkpoint task: '' @ err_text e), s2)
               | (None, s2) \<Rightarrow> (Inr i, s2)))"

section \<open>The retry loop\<close>

datatype run_end =
    EndPaused
  | EndShutdown
  | EndHandoff string string "string list"
  | EndCancelled
  | EndMergeFailed step_err "string list"
  | EndSuccess string string "string list"
  | EndFailed "step_err option"

text \<open>Before every attempt but the first of a task the loop-protection counters are reset.\<close>

definition reset_counters :: "'s run_env \<Rightarrow> int \<Rightarrow> execution \<Rightarrow> 's \<Rightarrow> execution \<times> 's" where
  "reset_counters L attempts ex s =
     (if attempts > 1
      then (case saveExecutionState (rn_engine L) ex
                   ((loadExecutionState ex)\<lparr>es_VisitCounts := (\<lambda>_. 0), es_Iterations := 0\<rparr>) s of
              ((_, ex1), s1) \<Rightarrow> (ex1, s1))
      else (ex, s))"

text \<open>The result: how the loop ended, the attempts counted, the log of each workflow attempt, execution and state.\<close>

function retry_loop ::
  "'s run_env \<Rightarrow> execution_plan \<Rightarrow> task \<Rightarrow> int \<Rightarrow> step_err option \<Rightarrow> int \<Rightarrow> execution \<Rightarrow> 's \<Rightarrow>
   run_end \<times> int \<times> dispatch_log list \<times> execution \<times> 's" where
  "retry_loop L plan task maxAttempts lastErr attempts ex s =
     (if \<not> attempts < maxAttempts then (EndFailed lastErr, attempts, [], ex, s)
      else (case reset_counters L (attempts + 1) ex s of (ex1, s1) \<Rightarrow>
       case executeWorkflowAttempt (rn_engine L) plan task ex1 (rn_DefaultTimeout L) s1 of
         ((cid, result, completed, err), ex2, lg, s2) \<Rightarrow>
        (case err of
           None \<Rightarrow> (case rn_mergeWorktree L s2 of
               (Some me, s3) \<Rightarrow> (EndMergeFailed me completed, attempts + 1, [lg], ex2, s3)
             | (None, s3) \<Rightarrow> (EndSuccess cid result completed, attempts + 1, [lg], ex2, s3))
         | Some e \<Rightarrow>
             if WrapsPaused \<in> set (se_chain e) then (EndPaused, attempts + 1, [lg], ex2, s2)
             else if IsLeadHandoff e then (EndHandoff cid result completed, attempts + 1, [lg], ex2, s2)
             else if rn_isShuttingDown L s2 then (EndShutdown, attempts + 1, [lg], ex2, s2)
             else if WrapsCanceled \<in> set (se_chain e) \<and> isTaskCancelled L (task_ID task) s2
             then (EndCancelled, attempts + 1, [lg], ex2, s2)
             else if \<not> shouldRetry (Some e) \<or> attempts + 1 \<ge> maxAttempts
             then (EndFailed (Some e), attempts + 1, [lg], ex2, s2)
             else (case rn_retryDelay L (rn_freshWorkspace L s2) of
                 (Some ce, s3) \<Rightarrow> (EndFailed (Some ce), attempts + 1, [lg], ex2, s3)
               | (None, s3) \<Rightarrow>
                   (case retry_loop L plan task maxAttempts (Some e) (attempts + 1) ex2 s3 of
                      (end, a, lgs, ex3, s4) \<Rightarrow> (end, a, lg # lgs, ex3, s4))))))"
  by pat_completeness auto
termination
  by (relation "measure (\<lambda>(_, _, _, maxAttempts, _, attempts, _). nat (maxAttempts - attempts))") auto

declare retry_loop.simps [simp del]

definition max_attempts :: "'s run_env \<Rightarrow> task \<Rightarrow> int" where
  "max_attempts L task = (let m = (if task_MaxAttempts task = 0 then rn_MaxRetries L + 1 else task_MaxAttempts task)
     in if m \<le> 0 then 1 else m)"

section \<open>Finishing a run\<close>

text \<open>
  The workspace of a failed run: merged when the tool-iteration limit ended it, discarded otherwise. The flag
  tells whether the partial work was kept.
\<close>

definition salvage :: "'s run_env \<Rightarrow> step_err option \<Rightarrow> 's \<Rightarrow> bool \<times> 's" where
  "salvage L lastErr s =
     (if ClassifyExecutionFailure lastErr [] = TaskFailureClassToolIterationLimit
      then (case rn_mergeWorktree L s of
              (Some _, s1) \<Rightarrow> (False, rn_resetWorkspace L False s1)
            | (None, s1) \<Rightarrow> (True, rn_resetWorkspace L True s1))
      else (False, rn_resetWorkspace L False (rn_discardWorkspace L s)))"

definition count_attempts :: "task \<Rightarrow> int \<Rightarrow> task" where
  "count_attempts task attempts = (if attempts > task_Attempt task then task\<lparr>task_Attempt := attempts\<rparr> else task)"

definition finish_failed :: "'s run_env \<Rightarrow> task \<Rightarrow> int \<Rightarrow> step_err option \<Rightarrow> execution \<Rightarrow> 's \<Rightarrow> task \<times> 's" where
  "finish_failed L task0 attempts lastErr ex s =
     (case salvage L lastErr s of (preserve, s1) \<Rightarrow>
      case handleFailure L (count_attempts task0 attempts) ex lastErr s1 of (task, s2) \<Rightarrow>
        (task, if preserve
               then snd (scheduleCheckpointFollowUp L task (case ex_CurrentStepID ex of Some c \<Rightarrow> c | None \<Rightarrow> []) s2)
               else s2))"

definition merge_error :: "step_err \<Rightarrow> string \<Rightarrow> step_err" where
  "merge_error me dir = wrap_err ''agent steps succeeded but changes could not be merged to master: ''
     (''. worktree preserved at '' @ dir @ '' for manual recovery'') me"

definition finish_run :: "'s run_env \<Rightarrow> task \<Rightarrow> run_end \<Rightarrow> int \<Rightarrow> execution \<Rightarrow> 's \<Rightarrow> task \<times> 's" where
  "finish_run L task how attempts ex s = (case how of
       EndPaused \<Rightarrow> (task, s)
     | EndShutdown \<Rightarrow> (task, s)
     | EndHandoff cid result completed \<Rightarrow>
         (let ex1 = ex\<lparr>ex_CompletedSteps := completed\<rparr>;
              s1 = rn_RecordCompletion L (ex_ID ex1) result s;
              s2 = snd (rn_mergeWorktree L s1)
          in (task, rn_handoffFinalization L task ex1 cid result s2))
     | EndCancelled \<Rightarrow> handleCancelled L task ex (rn_resetWorkspace L False (rn_discardWorkspace L s))
     | EndMergeFailed me completed \<Rightarrow>
         handleFailure L task (ex\<lparr>ex_CompletedSteps := completed @ [''MERGE_FAILED'']\<rparr>)
           (Some (merge_error me (rn_worktreeDir L s))) s
     | EndSuccess cid result completed \<Rightarrow> handleSuccess L task (ex\<lparr>ex_CompletedSteps := completed\<rparr>) result s
     | EndFailed lastErr \<Rightarrow> finish_failed L task attempts lastErr ex s)"

definition mark_running :: "'s run_env \<Rightarrow> task \<Rightarrow> execution \<Rightarrow> 's \<Rightarrow> 's" where
  "mark_running L task ex s =
     (let s1 = snd (en_execUpdateStatus (rn_engine L) (ex_ID ex) ExecutionStatusRunning s)
      in snd (tr_UpdateStatus (en_repo (rn_engine L)) (task_ID task) TaskStatusRunning s1))"

definition no_attempts_err :: "int \<Rightarrow> int \<Rightarrow> step_err" where
  "no_attempts_err attempts maxAttempts = plain_err (''task has no remaining attempts ('' @ show_int attempts @ ''/'' @
     show_int maxAttempts @ '')'')"

text \<open>The workflow's wall-clock cap puts a deadline on the context of the whole run.\<close>

definition arm_wall_clock :: "'s run_env \<Rightarrow> workflow \<Rightarrow> 's \<Rightarrow> 's" where
  "arm_wall_clock L w s =
     (if wf_MaxWallClock w = [] then s
      else (case en_parseDuration (rn_engine L) (wf_MaxWallClock w) of
              Some d \<Rightarrow> if d > 0 then rn_WithTimeout L d s else s
            | None \<Rightarrow> s))"

definition runExecution :: "'s run_env \<Rightarrow> task \<Rightarrow> execution \<Rightarrow> 's \<Rightarrow> task \<times> dispatch_log list \<times> 's" where
  "runExecution L task0 ex0 s =
     (let ex = ex0\<lparr>ex_Status := ExecutionStatusRunning\<rparr>;
          s1 = mark_running L task0 ex s;
          task = (if task_Attempt task0 \<le> 0 then task0\<lparr>task_Attempt := 1\<rparr> else task0);
          attempts = task_Attempt task - 1;
          maxAttempts = max_attempts L task
      in case rn_resolveExecutionPlan L task ex s1 of
           (Inl e, s2) \<Rightarrow> (case handleFailure L task ex (Some e) s2 of (t, s3) \<Rightarrow> (t, [], s3))
         | (Inr (plan, ex1), s2) \<Rightarrow>
             (let s3 = rn_setupWorkspace L (rn_execUpdate L ex1 (arm_wall_clock L (pl_workflow plan) s2));
                  lastErr = (if attempts \<ge> maxAttempts then Some (no_attempts_err attempts maxAttempts) else None)
              in case retry_loop L plan task maxAttempts lastErr attempts ex1 s3 of
                   (how, a, lgs, ex2, s4) \<Rightarrow>
                     (case finish_run L task how a ex2 s4 of (t, s5) \<Rightarrow> (t, lgs, s5))))"

section \<open>Releasing a recovered execution\<close>

definition releaseRecoveredTask :: "'s task_repo \<Rightarrow> string \<Rightarrow> 's \<Rightarrow> 's" where
  "releaseRecoveredTask R taskID s = (case tr_Get R taskID s of
       Inl _ \<Rightarrow> s
     | Inr task \<Rightarrow>
         (let leaseID = (case task_LeaseID task of Some l \<Rightarrow> l | None \<Rightarrow> [])
          in if task_Status task \<in> {TaskStatusCompleted, TaskStatusFailed, TaskStatusCancelled}
             then (if leaseID = [] then s else snd (tr_ReleaseLease R taskID leaseID (task_Status task) no_release_options s))
             else (let maxAttempts = (if task_MaxAttempts task \<le> 0 then 1 else task_MaxAttempts task);
                       attempt = (if task_Attempt task \<le> 0 then 1 else task_Attempt task);
                       again = (attempt < maxAttempts);
                       newStatus = (if again then TaskStatusQueued else TaskStatusFailed);
                       opts = no_release_options\<lparr>ro_Attempt := (if again then attempt + 1 else attempt),
                                ro_MaxAttempts := maxAttempts,
                                ro_Error := (case task_LastError task of Some e \<Rightarrow> e | None \<Rightarrow> [])\<rparr>
                   in if leaseID = []
                      then snd (tr_TransitionConditional R taskID
                             [TaskStatusLeased, TaskStatusRunning, TaskStatusPending, TaskStatusWaitingForChildren] newStatus
                             (no_transition_opts\<lparr>to_ClearLease := True, to_Attempt := ro_Attempt opts,
                                to_MaxAttempts := maxAttempts, to_LastError := task_LastError task,
                                to_LastErrorClass := task_LastErrorClass task\<rparr>) s)
                      else snd (tr_ReleaseLease R taskID leaseID newStatus opts s))))"

end
