(* ===== verification/ExecutionStore.thy ===== *)
theory ExecutionStore
  imports WorkflowModel
begin

text \<open>
  The SQLite execution repository (\<^verbatim>\<open>src/internal/persistence/sqlite/execution_repository.go\<close>), one
  definition per method. The store is the task database together with the \<open>executions\<close> table, whose rows are
  kept in insertion order; times are compared as their stored text. \<open>GetRoleQuality\<close>, a report over another
  table, is left out.
\<close>

record store =
  st_db :: db
  st_execs :: "execution list"

abbreviation st_now :: "store \<Rightarrow> nanos" where
  "st_now s \<equiv> db_now (st_db s)"

section \<open>The table\<close>

definition declared_exec_status :: "execution_status \<Rightarrow> bool" where
  "declared_exec_status st \<longleftrightarrow> st \<in> {ExecutionStatusPending, ExecutionStatusRunning, ExecutionStatusCompleted,
     ExecutionStatusFailed, ExecutionStatusCancelled, ExecutionStatusPaused}"

definition execs_ok :: "execution list \<Rightarrow> bool" where
  "execs_ok es \<longleftrightarrow> distinct (map ex_ID es) \<and> list_all (\<lambda>e. declared_exec_status (ex_Status e)) es"

definition exec_terminal :: "execution_status \<Rightarrow> bool" where
  "exec_terminal st \<longleftrightarrow> st \<in> {ExecutionStatusCompleted, ExecutionStatusFailed, ExecutionStatusCancelled}"

text \<open>One \<open>UPDATE executions SET f WHERE P\<close>, refused when the new rows violate the table's constraints.\<close>

definition exec_write :: "(execution \<Rightarrow> bool) \<Rightarrow> (execution \<Rightarrow> execution) \<Rightarrow> store \<Rightarrow> (repo_error + nat) \<times> store" where
  "exec_write P f s =
     (let es = sql_update P f (st_execs s)
      in if execs_ok es then (Inr (rows_affected P (st_execs s)), s\<lparr>st_execs := es\<rparr>)
         else (Inl (ErrConstraint ''executions''), s))"

definition exec_done :: "(repo_error + nat) \<times> store \<Rightarrow> repo_error option \<times> store" where
  "exec_done r = (case r of (Inl e, s) \<Rightarrow> (Some e, s) | (Inr _, s) \<Rightarrow> (None, s))"

section \<open>Reading and writing rows\<close>

definition exec_defaults :: "nanos \<Rightarrow> execution \<Rightarrow> execution" where
  "exec_defaults now e0 =
     (let e1 = (if ex_CreatedAt e0 = 0 then e0\<lparr>ex_CreatedAt := now\<rparr> else e0);
          e2 = (if ex_UpdatedAt e1 = 0 then e1\<lparr>ex_UpdatedAt := ex_CreatedAt e1\<rparr> else e1);
          e3 = (if ex_Status e2 = ExecutionStatusOther [] then e2\<lparr>ex_Status := ExecutionStatusPending\<rparr> else e2)
      in if ex_WorkflowRevision e3 = [] then e3\<lparr>ex_WorkflowRevision := ''v1''\<rparr> else e3)"

definition insert_exec :: "execution \<Rightarrow> execution" where
  "insert_exec e = e\<lparr>ex_WorkflowSnapshot := nullableBlob (ex_WorkflowSnapshot e), ex_Result := nullableBlob (ex_Result e)\<rparr>"

definition execCreate :: "execution option \<Rightarrow> store \<Rightarrow> (repo_error + execution) \<times> store" where
  "execCreate ep s = (case ep of
       None \<Rightarrow> (Inl (ErrOther ''execution is nil''), s)
     | Some e0 \<Rightarrow>
         (let e = exec_defaults (st_now s) e0; es = st_execs s @ [insert_exec e]
          in if execs_ok es then (Inr e, s\<lparr>st_execs := es\<rparr>) else (Inl (ErrConstraint ''executions''), s)))"

definition scanSqliteExecution :: "execution \<Rightarrow> execution" where
  "scanSqliteExecution e = e\<lparr>ex_StartedAt := sqlNullTime (ex_StartedAt e), ex_CompletedAt := sqlNullTime (ex_CompletedAt e)\<rparr>"

definition scan_exec :: "execution list \<Rightarrow> repo_error + execution" where
  "scan_exec rows = (case query_row rows of None \<Rightarrow> Inl ErrNotFound | Some e \<Rightarrow> Inr (scanSqliteExecution e))"

definition execGet :: "string \<Rightarrow> store \<Rightarrow> repo_error + execution" where
  "execGet i s = scan_exec (filter (\<lambda>e. ex_ID e = i) (st_execs s))"

abbreviation exec_created :: "execution \<Rightarrow> int \<times> string" where
  "exec_created e \<equiv> sqliteTime (ex_CreatedAt e)"

definition execGetByTaskID :: "string \<Rightarrow> store \<Rightarrow> repo_error + execution" where
  "execGetByTaskID taskID s = scan_exec (select_desc (\<lambda>e. ex_TaskID e = taskID) exec_created (st_execs s))"

text \<open>
  \<open>ROW_NUMBER() OVER (PARTITION BY task_id ORDER BY created_at DESC) = 1\<close>: within each task the first row of
  the descending order. The result map is filled row by row.
\<close>

definition ranked_first :: "execution list \<Rightarrow> execution list" where
  "ranked_first es = filter (\<lambda>e. query_row (select_desc (\<lambda>x. ex_TaskID x = ex_TaskID e) exec_created es) = Some e) es"

definition execGetByTaskIDs :: "string list \<Rightarrow> store \<Rightarrow> string \<rightharpoonup> execution" where
  "execGetByTaskIDs taskIDs s =
     (if taskIDs = [] then Map.empty
      else fold (\<lambda>e out. out(ex_TaskID e \<mapsto> scanSqliteExecution e))
             (ranked_first (filter (\<lambda>e. ex_TaskID e \<in> set taskIDs) (st_execs s))) Map.empty)"

text \<open>\<open>workflow_snapshot\<close>, the creation time and the fork columns are not in the \<open>UPDATE\<close>.\<close>

definition updated_exec :: "execution \<Rightarrow> nanos \<Rightarrow> execution \<Rightarrow> execution" where
  "updated_exec e now r = r\<lparr>ex_ProjectID := ex_ProjectID e, ex_WorkflowID := ex_WorkflowID e,
     ex_WorkflowRevision := ex_WorkflowRevision e, ex_Status := ex_Status e, ex_CurrentStepID := ex_CurrentStepID e,
     ex_CompletedSteps := ex_CompletedSteps e, ex_StateSnapshot := ex_StateSnapshot e, ex_Result := nullableBlob (ex_Result e),
     ex_ErrorMessage := ex_ErrorMessage e, ex_ErrorCode := ex_ErrorCode e,
     ex_StartedAt := (case ex_StartedAt e of None \<Rightarrow> ex_StartedAt r | Some t \<Rightarrow> Some t),
     ex_CompletedAt := ex_CompletedAt e, ex_UpdatedAt := now\<rparr>"

definition execUpdate :: "execution option \<Rightarrow> store \<Rightarrow> repo_error option \<times> store" where
  "execUpdate ep s = (case ep of
       None \<Rightarrow> (Some (ErrOther ''execution is nil''), s)
     | Some e \<Rightarrow> exec_done (exec_write (\<lambda>r. ex_ID r = ex_ID e) (updated_exec e (st_now s)) s))"

definition status_exec :: "execution_status \<Rightarrow> nanos \<Rightarrow> execution \<Rightarrow> execution" where
  "status_exec st now r = r\<lparr>ex_Status := st,
     ex_StartedAt := (if st = ExecutionStatusRunning \<and> ex_StartedAt r = None then Some now else ex_StartedAt r),
     ex_CompletedAt := (if exec_terminal st then Some now else ex_CompletedAt r), ex_UpdatedAt := now\<rparr>"

definition execUpdateStatus :: "string \<Rightarrow> execution_status \<Rightarrow> store \<Rightarrow> repo_error option \<times> store" where
  "execUpdateStatus i st s = exec_done (exec_write (\<lambda>r. ex_ID r = i) (status_exec st (st_now s)) s)"

definition saved_exec :: "execution_state \<Rightarrow> string \<Rightarrow> string list \<Rightarrow> nanos \<Rightarrow> execution \<Rightarrow> execution" where
  "saved_exec snapshot currentStepID completedSteps now r = r\<lparr>ex_StateSnapshot := Some snapshot,
     ex_CurrentStepID := (if currentStepID = [] then None else Some currentStepID),
     ex_CompletedSteps := completedSteps, ex_UpdatedAt := now\<rparr>"

definition execSaveStateSnapshot ::
  "string \<Rightarrow> execution_state \<Rightarrow> string \<Rightarrow> string list \<Rightarrow> store \<Rightarrow> repo_error option \<times> store" where
  "execSaveStateSnapshot i snapshot currentStepID completedSteps s =
     exec_done (exec_write (\<lambda>r. ex_ID r = i) (saved_exec snapshot currentStepID completedSteps (st_now s)) s)"

definition execSetWorkflowSnapshot :: "string \<Rightarrow> string \<Rightarrow> store \<Rightarrow> repo_error option \<times> store" where
  "execSetWorkflowSnapshot i snapshot s =
     (if snapshot = [] then (None, s)
      else exec_done (exec_write (\<lambda>r. ex_ID r = i)
             (\<lambda>r. r\<lparr>ex_WorkflowSnapshot := Some snapshot, ex_UpdatedAt := st_now s\<rparr>) s))"

definition execGetWorkflowSnapshot :: "string \<Rightarrow> store \<Rightarrow> repo_error + string option" where
  "execGetWorkflowSnapshot i s = (case query_row (filter (\<lambda>e. ex_ID e = i) (st_execs s)) of
       None \<Rightarrow> Inl ErrNotFound | Some e \<Rightarrow> Inr (ex_WorkflowSnapshot e))"

definition completed_exec :: "string \<Rightarrow> nanos \<Rightarrow> execution \<Rightarrow> execution" where
  "completed_exec result now r = r\<lparr>ex_Status := ExecutionStatusCompleted, ex_Result := nullableBlob (Some result),
     ex_CompletedAt := Some now, ex_UpdatedAt := now\<rparr>"

definition execRecordCompletion :: "string \<Rightarrow> string \<Rightarrow> store \<Rightarrow> repo_error option \<times> store" where
  "execRecordCompletion i result s =
     exec_done (exec_write (\<lambda>r. ex_ID r = i) (completed_exec result (st_now s)) s)"

definition superseded_exec :: "string \<Rightarrow> string \<Rightarrow> nanos \<Rightarrow> execution \<Rightarrow> execution" where
  "superseded_exec code msg now r = r\<lparr>ex_Status := ExecutionStatusCancelled, ex_ErrorCode := Some code,
     ex_ErrorMessage := (case ex_ErrorMessage r of None \<Rightarrow> Some msg | Some m \<Rightarrow> Some m),
     ex_CompletedAt := (case ex_CompletedAt r of None \<Rightarrow> Some now | Some t \<Rightarrow> Some t), ex_UpdatedAt := now\<rparr>"

definition superseded_by_task :: "nanos \<Rightarrow> execution \<Rightarrow> execution" where
  "superseded_by_task = superseded_exec ''superseded_by_terminal_task''
     ''execution superseded when parent task reached terminal status''"

definition execSupersedeNonTerminalForTask :: "string \<Rightarrow> store \<Rightarrow> (repo_error + nat) \<times> store" where
  "execSupersedeNonTerminalForTask taskID s =
     exec_write (\<lambda>r. ex_TaskID r = taskID \<and> \<not> exec_terminal (ex_Status r)) (superseded_by_task (st_now s)) s"

definition task_finished :: "string \<Rightarrow> store \<Rightarrow> bool" where
  "task_finished taskID s \<longleftrightarrow> list_ex (\<lambda>t. task_ID t = taskID \<and>
     task_Status t \<in> {TaskStatusCompleted, TaskStatusFailed, TaskStatusCancelled, TaskStatusClosed}) (db_tasks (st_db s))"

definition superseded_orphan :: "nanos \<Rightarrow> execution \<Rightarrow> execution" where
  "superseded_orphan = superseded_exec ''superseded_orphan_paused''
     ''orphan PAUSED execution finalized: parent task already terminal''"

definition execSupersedeOrphanPausedExecutions :: "store \<Rightarrow> (repo_error + nat) \<times> store" where
  "execSupersedeOrphanPausedExecutions s =
     exec_write (\<lambda>r. ex_Status r = ExecutionStatusPaused \<and> task_finished (ex_TaskID r) s)
       (superseded_orphan (st_now s)) s"

definition failed_exec :: "string \<Rightarrow> string \<Rightarrow> nanos \<Rightarrow> execution \<Rightarrow> execution" where
  "failed_exec errorMessage errorCode now r = r\<lparr>ex_Status := ExecutionStatusFailed,
     ex_ErrorMessage := (if errorMessage = [] then None else Some errorMessage),
     ex_ErrorCode := (if errorCode = [] then None else Some errorCode), ex_CompletedAt := Some now, ex_UpdatedAt := now\<rparr>"

definition execRecordFailure :: "string \<Rightarrow> string \<Rightarrow> string \<Rightarrow> store \<Rightarrow> repo_error option \<times> store" where
  "execRecordFailure i errorMessage errorCode s =
     exec_done (exec_write (\<lambda>r. ex_ID r = i) (failed_exec errorMessage errorCode (st_now s)) s)"

definition execCountByStatus :: "string \<Rightarrow> store \<Rightarrow> execution_status \<rightharpoonup> nat" where
  "execCountByStatus projectID s = (\<lambda>st.
     let n = length (filter (\<lambda>e. (projectID = [] \<or> ex_ProjectID e = projectID) \<and> ex_Status e = st) (st_execs s))
     in if n = 0 then None else Some n)"

record execution_filter =
  xf_ProjectID :: "string option"
  xf_TaskID :: "string option"
  xf_Status :: "execution_status option"
  xf_PageSize :: int
  xf_Offset :: int

definition exec_filter :: "execution_filter \<Rightarrow> execution \<Rightarrow> bool" where
  "exec_filter f e \<longleftrightarrow>
     (case xf_ProjectID f of None \<Rightarrow> True | Some p \<Rightarrow> ex_ProjectID e = p) \<and>
     (case xf_TaskID f of None \<Rightarrow> True | Some t \<Rightarrow> ex_TaskID e = t) \<and>
     (case xf_Status f of None \<Rightarrow> True | Some st \<Rightarrow> ex_Status e = st)"

text \<open>SQLite's grammar has no \<open>OFFSET\<close> without a \<open>LIMIT\<close>.\<close>

definition execList :: "execution_filter \<Rightarrow> store \<Rightarrow> repo_error + execution list" where
  "execList f s =
     (let rows = select_desc (exec_filter f) exec_created (st_execs s)
      in if xf_PageSize f \<le> 0 \<and> xf_Offset f > 0 then Inl (ErrOther ''near OFFSET: syntax error'')
         else Inr (map scanSqliteExecution
                (let page = (if xf_Offset f > 0 then drop (nat (xf_Offset f)) rows else rows)
                 in if xf_PageSize f > 0 then take (nat (xf_PageSize f)) page else page)))"

definition execCount :: "execution_filter \<Rightarrow> store \<Rightarrow> int" where
  "execCount f s = int (length (filter (exec_filter f) (st_execs s)))"

section \<open>The table invariant\<close>

datatype exec_op =
    XCreate execution
  | XUpdate execution
  | XUpdateStatus string execution_status
  | XSaveState string execution_state string "string list"
  | XSetWorkflow string string
  | XComplete string string
  | XFail string string string
  | XSupersede string
  | XSupersedeOrphans
  | XTasks db

fun exec_step :: "exec_op \<Rightarrow> store \<Rightarrow> store" where
  "exec_step (XCreate e) s = snd (execCreate (Some e) s)"
| "exec_step (XUpdate e) s = snd (execUpdate (Some e) s)"
| "exec_step (XUpdateStatus i st) s = snd (execUpdateStatus i st s)"
| "exec_step (XSaveState i st c cs) s = snd (execSaveStateSnapshot i st c cs s)"
| "exec_step (XSetWorkflow i w) s = snd (execSetWorkflowSnapshot i w s)"
| "exec_step (XComplete i r) s = snd (execRecordCompletion i r s)"
| "exec_step (XFail i m c) s = snd (execRecordFailure i m c s)"
| "exec_step (XSupersede t) s = snd (execSupersedeNonTerminalForTask t s)"
| "exec_step XSupersedeOrphans s = snd (execSupersedeOrphanPausedExecutions s)"
| "exec_step (XTasks d) s = s\<lparr>st_db := d\<rparr>"

definition exec_run :: "exec_op list \<Rightarrow> store \<Rightarrow> store" where
  "exec_run ops s = fold exec_step ops s"

text \<open>A finished execution carries its completion time.\<close>

definition completion_stamped :: "execution \<Rightarrow> bool" where
  "completion_stamped e \<longleftrightarrow> (exec_terminal (ex_Status e) \<longrightarrow> ex_CompletedAt e \<noteq> None)"

definition supplied_exec_ok :: "exec_op \<Rightarrow> bool" where
  "supplied_exec_ok op \<longleftrightarrow> (case op of XCreate e \<Rightarrow> completion_stamped e | XUpdate e \<Rightarrow> completion_stamped e | _ \<Rightarrow> True)"

text \<open>What a row keeps of an earlier version of itself.\<close>

definition exec_later :: "execution \<Rightarrow> execution \<Rightarrow> bool" where
  "exec_later e e' \<longleftrightarrow> ex_ID e' = ex_ID e \<and> ex_TaskID e' = ex_TaskID e \<and> ex_CreatedAt e' = ex_CreatedAt e \<and>
     ex_ParentExecutionID e' = ex_ParentExecutionID e \<and> ex_ForkedFromStepID e' = ex_ForkedFromStepID e \<and>
     ex_ForkedPromptOverride e' = ex_ForkedPromptOverride e \<and> (ex_StartedAt e \<noteq> None \<longrightarrow> ex_StartedAt e' \<noteq> None) \<and>
     (ex_WorkflowSnapshot e \<noteq> None \<longrightarrow> ex_WorkflowSnapshot e' \<noteq> None)"

lemma exec_later_refl [simp]: "exec_later e e"
  by (simp add: exec_later_def)

lemma exec_later_trans: "exec_later a b \<Longrightarrow> exec_later b c \<Longrightarrow> exec_later a c"
  by (simp add: exec_later_def)

lemma snd_exec_done [simp]: "snd (exec_done r) = snd r"
  by (cases r) (simp add: exec_done_def split: sum.split)

lemma exec_write_rows:
  "st_execs (snd (exec_write P f s)) = st_execs s \<or> st_execs (snd (exec_write P f s)) = sql_update P f (st_execs s)"
  by (simp add: exec_write_def Let_def)

lemma exec_write_ok: "execs_ok (st_execs s) \<Longrightarrow> execs_ok (st_execs (snd (exec_write P f s)))"
  by (simp add: exec_write_def Let_def)

lemma exec_write_all:
  assumes "list_all Q (st_execs s)" and "\<And>e. Q e \<Longrightarrow> P e \<Longrightarrow> Q (f e)"
  shows "list_all Q (st_execs (snd (exec_write P f s)))"
  using assms exec_write_rows [of P f s] by (auto simp: list_all_iff in_set_sql_update)

lemma exec_write_later:
  assumes "\<And>e. exec_later e (f e)" and "e \<in> set (st_execs s)"
  shows "\<exists>e' \<in> set (st_execs (snd (exec_write P f s))). exec_later e e'"
proof -
  have "\<exists>e' \<in> set (sql_update P f (st_execs s)). exec_later e e'"
    using assms(1) by (intro bexI [OF _ in_set_sql_update_if [OF assms(2)]]) simp
  with assms(2) exec_write_rows [of P f s] show ?thesis by (metis exec_later_refl)
qed

lemmas exec_write_ops = execUpdate_def execUpdateStatus_def execSaveStateSnapshot_def execSetWorkflowSnapshot_def
  execRecordCompletion_def execRecordFailure_def execSupersedeNonTerminalForTask_def execSupersedeOrphanPausedExecutions_def

lemma exec_step_ok: "execs_ok (st_execs s) \<Longrightarrow> execs_ok (st_execs (exec_step op s))"
  by (cases op) (simp_all add: exec_write_ops exec_write_ok execCreate_def Let_def)

lemmas exec_rows = updated_exec_def status_exec_def superseded_exec_def superseded_by_task_def superseded_orphan_def
  saved_exec_def completed_exec_def failed_exec_def

lemma exec_step_stamped:
  assumes "supplied_exec_ok op" and "list_all completion_stamped (st_execs s)"
  shows "list_all completion_stamped (st_execs (exec_step op s))"
  using assms
  by (cases op)
    (auto simp: exec_write_ops execCreate_def Let_def supplied_exec_ok_def insert_exec_def exec_defaults_def
      completion_stamped_def exec_rows exec_terminal_def
      split: option.split intro!: exec_write_all)

lemma exec_later_rows:
  "exec_later r (updated_exec e now r)" "exec_later r (status_exec st now r)" "exec_later r (superseded_by_task now r)"
  "exec_later r (superseded_orphan now r)" "exec_later r (saved_exec snap c cs now r)" "exec_later r (completed_exec res now r)"
  "exec_later r (failed_exec m code now r)"
  by (simp_all add: exec_later_def exec_rows split: option.split)

lemma exec_step_later:
  assumes "e \<in> set (st_execs s)"
  shows "\<exists>e' \<in> set (st_execs (exec_step op s)). exec_later e e'"
proof (cases op)
  case (XCreate x)
  with assms show ?thesis by (auto simp: execCreate_def Let_def intro: exec_later_refl)
next
  case (XSetWorkflow i w)
  with assms show ?thesis
    by (auto simp: execSetWorkflowSnapshot_def intro!: exec_write_later intro: exec_later_refl) (simp add: exec_later_def)
next
  case (XTasks d)
  with assms show ?thesis by (auto intro: exec_later_refl)
qed (use assms in \<open>simp_all add: exec_write_ops exec_write_later exec_later_rows\<close>)

text \<open>
  \<^bold>\<open>C16.\<close> The execution table after every interleaving of repository calls: ids stay distinct, statuses stay declared,
  every finished execution carries its completion time (when the rows given to \<open>Create\<close> and \<open>Update\<close> do), and
  no row is lost: each keeps its task, its creation time and its fork lineage, and once it has a start time or a
  pinned workflow it always has one.
\<close>

theorem execution_table_invariant:
  assumes "execs_ok (st_execs s)" and "list_all completion_stamped (st_execs s)" and "list_all supplied_exec_ok ops"
  shows "execs_ok (st_execs (exec_run ops s)) \<and> list_all completion_stamped (st_execs (exec_run ops s))
       \<and> (\<forall>e \<in> set (st_execs s). \<exists>e' \<in> set (st_execs (exec_run ops s)). exec_later e e')"
  using assms
proof (induction ops arbitrary: s)
  case Nil
  then show ?case by (auto simp: exec_run_def intro: exec_later_refl)
next
  case (Cons op ops)
  have run: "exec_run (op # ops) s = exec_run ops (exec_step op s)" by (simp add: exec_run_def)
  have "execs_ok (st_execs (exec_step op s))" "list_all completion_stamped (st_execs (exec_step op s))" "list_all supplied_exec_ok ops"
    using Cons.prems exec_step_ok exec_step_stamped by auto
  note IH = Cons.IH [OF this]
  have "\<exists>e'' \<in> set (st_execs (exec_run ops (exec_step op s))). exec_later e e''" if "e \<in> set (st_execs s)" for e
    using exec_step_later [OF that, of op] IH exec_later_trans by blast
  with IH show ?case by (simp add: run)
qed

section \<open>Orphans\<close>

text \<open>
  Superseding the executions of a finished task. The call closes exactly the live executions of that task as
  CANCELLED and reports how many there were; finished executions and those of other tasks keep their row;
  a second call finds nothing to do.
\<close>

theorem supersede_closes_orphans:
  assumes "execs_ok (st_execs s)" and "execSupersedeNonTerminalForTask t s = (r, s')"
  shows "r = Inr (length (filter (\<lambda>e. ex_TaskID e = t \<and> \<not> exec_terminal (ex_Status e)) (st_execs s)))
       \<and> (\<forall>e \<in> set (st_execs s'). ex_TaskID e = t \<longrightarrow> exec_terminal (ex_Status e))
       \<and> filter (\<lambda>e. ex_TaskID e \<noteq> t) (st_execs s') = filter (\<lambda>e. ex_TaskID e \<noteq> t) (st_execs s)
       \<and> (\<forall>e \<in> set (st_execs s). exec_terminal (ex_Status e) \<longrightarrow> e \<in> set (st_execs s'))
       \<and> execSupersedeNonTerminalForTask t s' = (Inr 0, s')"
proof -
  let ?P = "\<lambda>e. ex_TaskID e = t \<and> \<not> exec_terminal (ex_Status e)"
  let ?f = "superseded_by_task (st_now s)"
  have f: "ex_ID (?f e) = ex_ID e" "ex_TaskID (?f e) = ex_TaskID e" "ex_Status (?f e) = ExecutionStatusCancelled" for e
    by (simp_all add: exec_rows)
  have "map ex_ID (sql_update ?P ?f (st_execs s)) = map ex_ID (st_execs s)" using f by (intro map_sql_update) simp
  then have ok: "execs_ok (sql_update ?P ?f (st_execs s))"
    using assms(1) f by (auto simp: execs_ok_def list_all_iff in_set_sql_update declared_exec_status_def)
  then have r: "r = Inr (rows_affected ?P (st_execs s))" and s': "st_execs s' = sql_update ?P ?f (st_execs s)" "st_db s' = st_db s"
    using assms(2) by (auto simp: execSupersedeNonTerminalForTask_def exec_write_def Let_def)
  have closed: "exec_terminal (ex_Status e)" if "e \<in> set (st_execs s')" "ex_TaskID e = t" for e
    using that f unfolding s' by (auto simp: in_set_sql_update exec_terminal_def)
  have "filter (\<lambda>e. ex_TaskID e \<noteq> t) (sql_update ?P ?f es) = filter (\<lambda>e. ex_TaskID e \<noteq> t) es" for es
    using f by (induction es) auto
  moreover have "execSupersedeNonTerminalForTask t s' = (Inr 0, s')"
  proof -
    have none: "\<not> ?P e" if "e \<in> set (st_execs s')" for e using closed [OF that] by blast
    have "sql_update ?P (superseded_by_task (st_now s')) (st_execs s') = st_execs s'"
      "rows_affected ?P (st_execs s') = 0" using none by (simp_all add: sql_update_id rows_affected_0_iff)
    with ok s'(1) show ?thesis by (simp add: execSupersedeNonTerminalForTask_def exec_write_def Let_def)
  qed
  moreover have "e \<in> set (st_execs s')" if "e \<in> set (st_execs s)" "exec_terminal (ex_Status e)" for e
    using that unfolding s' in_set_sql_update by blast
  ultimately show ?thesis using closed unfolding r s' rows_affected_def by blast
qed

section \<open>Reading back\<close>

lemma execs_ok_get:
  assumes "execs_ok (st_execs s)" and "e \<in> set (st_execs s)"
  shows "execGet (ex_ID e) s = Inr (scanSqliteExecution e)"
  using filter_unique_key [of ex_ID "st_execs s" e] assms by (simp add: execGet_def scan_exec_def query_row_def execs_ok_def)

lemma exec_write_by_id:
  assumes "execs_ok (st_execs s)" and "e \<in> set (st_execs s)" and "\<And>r. ex_ID (f r) = ex_ID r"
    and "declared_exec_status (ex_Status (f e))"
  shows "exec_write (\<lambda>r. ex_ID r = ex_ID e) f s = (Inr 1, s\<lparr>st_execs := sql_update (\<lambda>r. ex_ID r = ex_ID e) f (st_execs s)\<rparr>)"
    and "execs_ok (sql_update (\<lambda>r. ex_ID r = ex_ID e) f (st_execs s))"
    and "f e \<in> set (sql_update (\<lambda>r. ex_ID r = ex_ID e) f (st_execs s))"
proof -
  let ?P = "\<lambda>r. ex_ID r = ex_ID e"
  have one: "filter ?P (st_execs s) = [e]" using filter_unique_key [of ex_ID "st_execs s" e] assms(1,2) by (simp add: execs_ok_def)
  have eq: "r = e" if "r \<in> set (st_execs s)" "?P r" for r
    using distinct_key_eq [of ex_ID "st_execs s"] that assms(1,2) by (simp add: execs_ok_def)
  have ids: "map ex_ID (sql_update ?P f (st_execs s)) = map ex_ID (st_execs s)" using assms(3) by (intro map_sql_update) simp
  have "declared_exec_status (ex_Status (f r))" if "r \<in> set (st_execs s)" "?P r" for r
    using eq [OF that] assms(4) by simp
  then show ok: "execs_ok (sql_update ?P f (st_execs s))"
    using assms(1) ids by (auto simp: execs_ok_def list_all_iff in_set_sql_update)
  then show "exec_write ?P f s = (Inr 1, s\<lparr>st_execs := sql_update ?P f (st_execs s)\<rparr>)"
    using one by (simp add: exec_write_def Let_def rows_affected_def)
  show "f e \<in> set (sql_update ?P f (st_execs s))" using assms(2) by (auto simp: in_set_sql_update)
qed

lemma loadExecutionState_saved:
  assumes "ex_StateSnapshot row = Some st" and "ex_CompletedSteps row = es_CompletedSteps st"
    and "ex_CurrentStepID row = (if es_CurrentStepID st = [] then None else Some (es_CurrentStepID st))"
  shows "loadExecutionState row = st"
  using assms by (cases "es_CurrentStepID st = []") (simp_all add: loadExecutionState_def Let_def)

text \<open>
  Saving a checkpoint and reading it back. Whatever state is saved for an execution, the row then read from the
  table decodes to exactly that state, the position and the completed steps included; rows of other executions
  read as before.
\<close>

theorem snapshot_round_trip:
  assumes "execs_ok (st_execs s)" and "e \<in> set (st_execs s)"
    and "execSaveStateSnapshot (ex_ID e) st (es_CurrentStepID st) (es_CompletedSteps st) s = (r, s')"
  shows "r = None \<and> (\<exists>row. execGet (ex_ID e) s' = Inr row \<and> loadExecutionState row = st \<and> ex_Status row = ex_Status e)
       \<and> (\<forall>i. i \<noteq> ex_ID e \<longrightarrow> execGet i s' = execGet i s)"
proof -
  let ?f = "saved_exec st (es_CurrentStepID st) (es_CompletedSteps st) (st_now s)"
  have decl: "declared_exec_status (ex_Status (?f e))"
    using assms(1,2) by (simp add: saved_exec_def execs_ok_def list_all_iff)
  have id: "ex_ID (?f x) = ex_ID x" for x by (simp add: saved_exec_def)
  note w = exec_write_by_id [OF assms(1,2), of ?f, OF id decl]
  from assms(3) w(1) have r: "r = None" and s': "s' = s\<lparr>st_execs := sql_update (\<lambda>x. ex_ID x = ex_ID e) ?f (st_execs s)\<rparr>"
    by (simp_all add: execSaveStateSnapshot_def exec_done_def)
  have get: "execGet (ex_ID e) s' = Inr (scanSqliteExecution (?f e))"
    using execs_ok_get [of s' "?f e"] w(2,3) id s' by simp
  have "loadExecutionState (scanSqliteExecution (?f e)) = st"
    by (rule loadExecutionState_saved) (simp_all add: scanSqliteExecution_def saved_exec_def)
  moreover have "ex_Status (scanSqliteExecution (?f e)) = ex_Status e" by (simp add: scanSqliteExecution_def saved_exec_def)
  moreover have "filter (\<lambda>x. ex_ID x = i) (sql_update (\<lambda>x. ex_ID x = ex_ID e) ?f es) = filter (\<lambda>x. ex_ID x = i) es" if "i \<noteq> ex_ID e" for i es
    using that by (induction es) (auto simp: id)
  ultimately have "loadExecutionState (scanSqliteExecution (?f e)) = st" "ex_Status (scanSqliteExecution (?f e)) = ex_Status e"
    "\<forall>i. i \<noteq> ex_ID e \<longrightarrow> execGet i s' = execGet i s" unfolding execGet_def s' by simp_all
  with r get show ?thesis by blast
qed

lemma fold_map_upd:
  "(\<And>e. e \<in> set xs \<Longrightarrow> k e = t \<Longrightarrow> v e = w) \<Longrightarrow>
   fold (\<lambda>e out. out(k e \<mapsto> v e)) xs m t = (if \<exists>e \<in> set xs. k e = t then Some w else m t)"
proof (induction xs arbitrary: m)
  case (Cons x xs)
  have IH: "fold (\<lambda>e out. out(k e \<mapsto> v e)) xs (m(k x \<mapsto> v x)) t = (if \<exists>e \<in> set xs. k e = t then Some w else (m(k x \<mapsto> v x)) t)"
    by (rule Cons.IH) (use Cons.prems in auto)
  show ?case unfolding fold_simps IH using Cons.prems [of x] by auto
qed simp

text \<open>
  The batch lookup of the latest executions agrees with the single one: for each requested task it returns the
  execution \<open>GetByTaskID\<close> returns, nothing for a task without executions, and nothing that was not asked for.
\<close>

theorem batch_lookup_agrees:
  "execGetByTaskIDs ids s t = (if t \<in> set ids then (case execGetByTaskID t s of Inr e \<Rightarrow> Some e | Inl _ \<Rightarrow> None) else None)"
proof -
  let ?es = "filter (\<lambda>e. ex_TaskID e \<in> set ids) (st_execs s)"
  let ?q = "query_row (select_desc (\<lambda>e. ex_TaskID e = t) exec_created (st_execs s))"
  have q: "query_row (select_desc (\<lambda>x. ex_TaskID x = t) exec_created ?es) = ?q" if "t \<in> set ids"
  proof -
    have "filter (\<lambda>x. ex_TaskID x = t) ?es = filter (\<lambda>x. ex_TaskID x = t) (st_execs s)"
      using that by (auto simp: filter_filter intro!: filter_cong)
    then show ?thesis by (simp add: select_desc_def)
  qed
  have ranked: "(\<exists>e \<in> set (ranked_first ?es). ex_TaskID e = t) \<longleftrightarrow> t \<in> set ids \<and> ?q \<noteq> None"
  proof
    assume "\<exists>e \<in> set (ranked_first ?es). ex_TaskID e = t"
    then obtain e where "e \<in> set ?es" "ex_TaskID e = t"
        "query_row (select_desc (\<lambda>x. ex_TaskID x = ex_TaskID e) exec_created ?es) = Some e"
      by (auto simp: ranked_first_def)
    then show "t \<in> set ids \<and> ?q \<noteq> None" using q by auto
  next
    assume a: "t \<in> set ids \<and> ?q \<noteq> None"
    then obtain e where e: "?q = Some e" by blast
    then have "e \<in> set (select_desc (\<lambda>e. ex_TaskID e = t) exec_created (st_execs s))" by (rule query_row_in_set)
    with a e q show "\<exists>e \<in> set (ranked_first ?es). ex_TaskID e = t" by (auto simp: ranked_first_def)
  qed
  show ?thesis
  proof (cases ?q)
    case None
    then have no: "\<not> (\<exists>e \<in> set (ranked_first ?es). ex_TaskID e = t)" using ranked by simp
    then have "fold (\<lambda>e out. out(ex_TaskID e \<mapsto> scanSqliteExecution e)) (ranked_first ?es) Map.empty t = None"
      by (subst fold_map_upd [where w = undefined]) auto
    moreover have "execGetByTaskID t s = Inl ErrNotFound" unfolding execGetByTaskID_def scan_exec_def None by simp
    ultimately show ?thesis by (simp add: execGetByTaskIDs_def)
  next
    case (Some e)
    have "e' = e" if "e' \<in> set (ranked_first ?es)" "ex_TaskID e' = t" for e'
      using that q Some by (auto simp: ranked_first_def)
    then have "fold (\<lambda>e out. out(ex_TaskID e \<mapsto> scanSqliteExecution e)) (ranked_first ?es) Map.empty t
        = (if \<exists>e \<in> set (ranked_first ?es). ex_TaskID e = t then Some (scanSqliteExecution e) else None)"
      by (subst fold_map_upd [where w = "scanSqliteExecution e"]) auto
    moreover have "execGetByTaskID t s = Inr (scanSqliteExecution e)" unfolding execGetByTaskID_def scan_exec_def Some by simp
    ultimately show ?thesis using ranked Some by (auto simp: execGetByTaskIDs_def)
  qed
qed

section \<open>A concrete table\<close>

definition sample_exec :: "string \<Rightarrow> string \<Rightarrow> execution_status \<Rightarrow> execution" where
  "sample_exec i t st = \<lparr>ex_ID = i, ex_TaskID = t, ex_ProjectID = ''p'', ex_WorkflowID = ''dev'', ex_WorkflowRevision = ''v1'',
     ex_WorkflowSnapshot = None, ex_Status = st, ex_CurrentStepID = Some ''build'', ex_CompletedSteps = [''plan''],
     ex_StateSnapshot = None, ex_Result = None, ex_ErrorMessage = None, ex_ErrorCode = None, ex_StartedAt = Some Minute,
     ex_CompletedAt = None, ex_CreatedAt = Minute, ex_UpdatedAt = Minute, ex_ParentExecutionID = None,
     ex_ForkedFromStepID = None, ex_ForkedPromptOverride = None\<rparr>"

definition sample_store :: store where
  "sample_store = \<lparr>st_db = \<lparr>db_tasks = [], db_messages = [], db_now = Hour, db_rand = []\<rparr>,
     st_execs = [sample_exec ''e1'' ''t1'' ExecutionStatusPaused, sample_exec ''e2'' ''t1'' ExecutionStatusRunning,
       sample_exec ''e3'' ''t2'' ExecutionStatusRunning]\<rparr>"

lemma sample_store_ok: "execs_ok (st_execs sample_store)" "list_all completion_stamped (st_execs sample_store)"
  by (simp_all add: sample_store_def sample_exec_def execs_ok_def declared_exec_status_def completion_stamped_def exec_terminal_def)

theorem execution_table_invariant_witness:
  "execs_ok (st_execs (exec_run [XComplete ''e1'' ''{}'', XCreate (sample_exec ''e2'' ''t3'' ExecutionStatusPending),
     XUpdateStatus ''e3'' ExecutionStatusFailed, XSupersede ''t1''] sample_store))"
proof -
  have "list_all supplied_exec_ok [XComplete ''e1'' ''{}'', XCreate (sample_exec ''e2'' ''t3'' ExecutionStatusPending),
     XUpdateStatus ''e3'' ExecutionStatusFailed, XSupersede ''t1'']"
    by (simp add: supplied_exec_ok_def completion_stamped_def sample_exec_def exec_terminal_def)
  from execution_table_invariant [OF sample_store_ok this] show ?thesis by blast
qed

theorem supersede_closes_orphans_witness:
  "fst (execSupersedeNonTerminalForTask ''t1'' sample_store) = Inr 2"
proof -
  have "length (filter (\<lambda>e. ex_TaskID e = ''t1'' \<and> \<not> exec_terminal (ex_Status e)) (st_execs sample_store)) = 2"
    by (simp add: sample_store_def sample_exec_def exec_terminal_def)
  with supersede_closes_orphans [OF sample_store_ok(1) prod.collapse [symmetric], of "''t1''"] show ?thesis by simp
qed

theorem snapshot_round_trip_witness:
  "\<exists>s' row. execSaveStateSnapshot ''e3'' zero_state [] [] sample_store = (None, s') \<and> execGet ''e3'' s' = Inr row
     \<and> loadExecutionState row = zero_state"
proof -
  let ?e = "sample_exec ''e3'' ''t2'' ExecutionStatusRunning"
  have e: "?e \<in> set (st_execs sample_store)" "ex_ID ?e = ''e3''" by (simp_all add: sample_store_def sample_exec_def)
  obtain r s' where w: "execSaveStateSnapshot ''e3'' zero_state [] [] sample_store = (r, s')" by (metis surj_pair)
  then have "execSaveStateSnapshot (ex_ID ?e) zero_state (es_CurrentStepID zero_state) (es_CompletedSteps zero_state) sample_store = (r, s')"
    by (simp add: e(2) zero_state_def)
  from snapshot_round_trip [OF sample_store_ok(1) e(1) this] w show ?thesis unfolding e(2) by blast
qed

end
