(* ===== verification/ExecutorDaemon.thy ===== *)
theory ExecutorDaemon
  imports ExecutorRun ExecutionStore
begin

text \<open>
  The executor as a long-lived object (\<^verbatim>\<open>src/internal/executor/executor.go\<close>: \<open>ExecuteWithContext\<close>,
  \<open>recoverExecution\<close>, \<open>ResumePaused\<close>, \<open>Recover\<close>, \<open>Cancel\<close>, \<open>cleanupExecution\<close>, \<open>Stop\<close>, \<open>Shutdown\<close>;
  \<^verbatim>\<open>state.go\<close>: \<open>pauseWithReason\<close>, \<open>Resume\<close>) over the SQLite store. Its own state is the map of active
  executions, the shutdown flag and the goroutines it has started, each with the task and the execution it was
  given. Calls run under the mutex, so each is one step; what a goroutine does in between is a step of its own.
  Worktree pruning, container stops and bounded waits touch neither the store nor this state.
\<close>

section \<open>State and environment\<close>

record handle =
  hd_projectID :: string
  hd_containerID :: string
  hd_recovered :: bool
  hd_cancelled :: bool

record daemon =
  dm_store :: store
  dm_active :: "string \<rightharpoonup> handle"
  dm_shuttingDown :: bool
  dm_runs :: "(task \<times> execution) list"

text \<open>
  \<open>dv_forkTarget\<close>: source execution, step and override of a well-formed fork envelope in the payload.
  \<open>dv_container\<close>: the container of a task, empty when there is none, or a failed probe; absent without a
  runtime. \<open>dv_workflowHash\<close>: the hash of a known workflow; absent without a registry.
\<close>

record daemon_env =
  dv_generateID :: "store \<Rightarrow> string \<times> store"
  dv_forkTarget :: "string option \<Rightarrow> (string \<times> string \<times> string) option"
  dv_container :: "(string \<Rightarrow> string option) option"
  dv_workflowHash :: "(string \<Rightarrow> string option) option"
  dv_quote :: "string \<Rightarrow> string"
  dv_engine :: "store engine"

definition on_tasks :: "(db \<Rightarrow> 'a \<times> db) \<Rightarrow> store \<Rightarrow> 'a \<times> store" where
  "on_tasks f s = (case f (st_db s) of (r, d) \<Rightarrow> (r, s\<lparr>st_db := d\<rparr>))"

definition store_repo :: "store task_repo" where
  "store_repo = (let R = sqlite_repo (<) in \<lparr>
     tr_Get = (\<lambda>i s. tr_Get R i (st_db s)), tr_List = (\<lambda>f s. tr_List R f (st_db s)),
     tr_TransitionConditional = (\<lambda>i frm to opts. on_tasks (tr_TransitionConditional R i frm to opts)),
     tr_LeaseTask = (\<lambda>opts. on_tasks (tr_LeaseTask R opts)), tr_RenewLease = (\<lambda>i l n. on_tasks (tr_RenewLease R i l n)),
     tr_ReleaseLease = (\<lambda>i l st opts. on_tasks (tr_ReleaseLease R i l st opts)),
     tr_FindExpiredLeases = (\<lambda>n s. tr_FindExpiredLeases R n (st_db s)),
     tr_GetChildren = (\<lambda>i s. tr_GetChildren R i (st_db s)), tr_UpdateStatus = (\<lambda>i st. on_tasks (tr_UpdateStatus R i st))\<rparr>)"

definition as_step_err :: "repo_error option \<Rightarrow> step_err option" where
  "as_step_err e = map_option (\<lambda>x. plain_err (err_text x)) e"

definition store_engine :: "store engine \<Rightarrow> store engine" where
  "store_engine E = E\<lparr>en_repo := store_repo,
     en_SaveStateSnapshot := (\<lambda>i st s. apfst as_step_err (execSaveStateSnapshot i st (es_CurrentStepID st) (es_CompletedSteps st) s)),
     en_execUpdateStatus := (\<lambda>i st s. apfst as_step_err (execUpdateStatus i st s))\<rparr>"

definition set_task_status :: "string \<Rightarrow> task_status \<Rightarrow> store \<Rightarrow> store" where
  "set_task_status i st s = snd (on_tasks (UpdateStatus i st) s)"

section \<open>Starting executions\<close>

definition start_run :: "bool \<Rightarrow> task \<Rightarrow> execution \<Rightarrow> daemon \<Rightarrow> daemon" where
  "start_run recovered task ex D = D\<lparr>dm_active := (dm_active D)(task_ID task \<mapsto>
       \<lparr>hd_projectID = task_ProjectID task, hd_containerID = [], hd_recovered = recovered, hd_cancelled = False\<rparr>),
     dm_runs := (task, ex) # dm_runs D\<rparr>"

definition taskWorkflowID :: "task \<Rightarrow> string" where
  "taskWorkflowID task = (case task_WorkflowID task of
       Some w \<Rightarrow> if w \<noteq> [] \<and> w \<noteq> ''-'' then w else ''default-workflow'' | None \<Rightarrow> ''default-workflow'')"

definition new_execution :: "daemon_env \<Rightarrow> string \<Rightarrow> task \<Rightarrow> execution" where
  "new_execution V executionID task =
     (let ex = \<lparr>ex_ID = executionID, ex_TaskID = task_ID task, ex_ProjectID = task_ProjectID task, ex_WorkflowID = taskWorkflowID task,
            ex_WorkflowRevision = ''v1'', ex_WorkflowSnapshot = None, ex_Status = ExecutionStatusPending, ex_CurrentStepID = None,
            ex_CompletedSteps = [], ex_StateSnapshot = None, ex_Result = None, ex_ErrorMessage = None, ex_ErrorCode = None,
            ex_StartedAt = None, ex_CompletedAt = None, ex_CreatedAt = 0, ex_UpdatedAt = 0, ex_ParentExecutionID = None,
            ex_ForkedFromStepID = None, ex_ForkedPromptOverride = None\<rparr>
      in case dv_forkTarget V (task_Payload task) of
           None \<Rightarrow> ex
         | Some (src, step, override) \<Rightarrow> ex\<lparr>ex_ParentExecutionID := Some src, ex_ForkedFromStepID := Some step,
             ex_ForkedPromptOverride := (if override \<noteq> [] then Some override else None), ex_CurrentStepID := Some step\<rparr>)"

definition ExecuteWithContext :: "daemon_env \<Rightarrow> string \<Rightarrow> daemon \<Rightarrow> string option \<times> daemon" where
  "ExecuteWithContext V taskID D =
     (if dm_shuttingDown D then (Some (''executor is shutting down; not starting new task '' @ taskID), D)
      else if dm_active D taskID \<noteq> None then (Some (''task '' @ taskID @ '' is already being executed''), D)
      else (case Get taskID (st_db (dm_store D)) of
          Inl e \<Rightarrow> (Some (''failed to get task '' @ taskID @ '': '' @ err_text e), D)
        | Inr task \<Rightarrow>
            (case dv_generateID V (dm_store D) of (executionID, s1) \<Rightarrow>
             case execCreate (Some (new_execution V executionID task)) s1 of
               (Inl e, s2) \<Rightarrow> (Some (''failed to create execution record: '' @ err_text e), D\<lparr>dm_store := s2\<rparr>)
             | (Inr ex, s2) \<Rightarrow> (None, start_run False task ex (D\<lparr>dm_store := s2\<rparr>)))))"

section \<open>Recovery\<close>

text \<open>The live workflow differs from the one the execution started with and none was pinned.\<close>

definition drifted :: "daemon_env \<Rightarrow> execution \<Rightarrow> store \<Rightarrow> string option" where
  "drifted V ex s =
     (if ex_WorkflowRevision ex = [] \<or> ex_WorkflowRevision ex = ''v1'' then None
      else (case dv_workflowHash V of
          None \<Rightarrow> None
        | Some hash \<Rightarrow>
            (case execGetWorkflowSnapshot (ex_ID ex) s of
               Inr (Some (c # cs)) \<Rightarrow> None
             | _ \<Rightarrow> (case hash (ex_WorkflowID ex) of
                  None \<Rightarrow> None
                | Some current \<Rightarrow> if current \<noteq> [] \<and> current \<noteq> ex_WorkflowRevision ex then Some current else None))))"

definition drift_message :: "daemon_env \<Rightarrow> execution \<Rightarrow> string \<Rightarrow> string" where
  "drift_message V ex current = ''workflow '' @ dv_quote V (ex_WorkflowID ex) @ '' changed since execution started (stored='' @
     ex_WorkflowRevision ex @ '' live='' @ current @ '') and no snapshot is available '' @ map char_of [226, 128, 148 :: nat] @
     '' manual intervention required''"

definition orphan_message :: "task_status \<Rightarrow> string" where
  "orphan_message st = ''orphaned execution: task already '' @ status_text st @ '', skipping recovery''"

definition TaskFailureClassWorkflowDrift :: string where "TaskFailureClassWorkflowDrift = ''WORKFLOW_DRIFT''"

definition recoverExecution :: "daemon_env \<Rightarrow> execution \<Rightarrow> daemon \<Rightarrow> string option \<times> daemon" where
  "recoverExecution V ex D =
     (if dm_active D (ex_TaskID ex) \<noteq> None then (None, D)
      else (case Get (ex_TaskID ex) (st_db (dm_store D)) of
          Inl e \<Rightarrow> (Some (''failed to load task '' @ ex_TaskID ex @ '' for execution recovery: '' @ err_text e), D)
        | Inr task \<Rightarrow>
            if task_Status task \<in> {TaskStatusFailed, TaskStatusCompleted, TaskStatusCancelled}
            then (None, D\<lparr>dm_store := snd (execRecordFailure (ex_ID ex) (orphan_message (task_Status task)) ''ORPHANED'' (dm_store D))\<rparr>)
            else (case drifted V ex (dm_store D) of
                Some current \<Rightarrow>
                  (let msg = drift_message V ex current;
                       s1 = snd (execRecordFailure (ex_ID ex) msg TaskFailureClassWorkflowDrift (dm_store D));
                       s2 = snd (on_tasks (Update (Some (task\<lparr>task_Status := TaskStatusFailed, task_LastError := Some msg,
                              task_LastErrorClass := Some TaskFailureClassWorkflowDrift\<rparr>))) s1)
                   in (None, D\<lparr>dm_store := s2\<rparr>))
              | None \<Rightarrow> (None, start_run True task ex D))))"

definition auto_resumable :: "execution \<Rightarrow> bool" where
  "auto_resumable ex \<longleftrightarrow> es_PausedReason (loadExecutionState ex) \<in> {PauseReasonShutdown, PauseReasonRetryFromStep}"

definition ResumePaused :: "daemon_env \<Rightarrow> string \<Rightarrow> daemon \<Rightarrow> string option \<times> daemon" where
  "ResumePaused V execID D =
     (if execID = [] then (Some ''execution ID required'', D)
      else (case execGet execID (dm_store D) of
          Inl e \<Rightarrow> (Some (''load execution '' @ execID @ '': '' @ err_text e), D)
        | Inr ex \<Rightarrow>
            if ex_Status ex \<noteq> ExecutionStatusPaused
            then (Some (''execution '' @ execID @ '' is '' @ execution_status_text (ex_Status ex) @ '', not paused''), D)
            else if \<not> auto_resumable ex
            then (Some (''execution '' @ execID @ '' pause reason '' @ dv_quote V (es_PausedReason (loadExecutionState ex)) @
                    '' is not auto-resumable''), D)
            else (case execUpdateStatus (ex_ID ex) ExecutionStatusRunning (dm_store D) of
                (Some e, s1) \<Rightarrow> (Some (''flip paused'' @ map char_of [226, 134, 146 :: nat] @ ''running: '' @ err_text e), D\<lparr>dm_store := s1\<rparr>)
              | (None, s1) \<Rightarrow> recoverExecution V (ex\<lparr>ex_Status := ExecutionStatusRunning\<rparr>) (D\<lparr>dm_store := s1\<rparr>))))"

definition boot_orphan_message :: string where
  "boot_orphan_message = ''container missing on daemon boot; the daemon was killed before pauseWithReason could write PAUSED. Marking ORPHANED so the scheduler can re-dispatch.''"

text \<open>A RUNNING row whose task has no container any more.\<close>

definition container_gone :: "daemon_env \<Rightarrow> execution \<Rightarrow> bool" where
  "container_gone V ex \<longleftrightarrow> (case dv_container V of None \<Rightarrow> False | Some probe \<Rightarrow> probe (ex_TaskID ex) = Some [])"

definition recover_row :: "daemon_env \<Rightarrow> execution_status \<Rightarrow> execution \<Rightarrow> daemon \<Rightarrow> daemon" where
  "recover_row V status ex D =
     (case (if status = ExecutionStatusRunning \<and> container_gone V ex
            then (case execRecordFailure (ex_ID ex) boot_orphan_message TaskFailureClassOrphaned (dm_store D) of
                    (err, s1) \<Rightarrow> (err = None, D\<lparr>dm_store := s1\<rparr>))
            else (False, D)) of
        (True, D1) \<Rightarrow> D1
      | (False, D1) \<Rightarrow>
          if status = ExecutionStatusPaused then
            (if \<not> auto_resumable ex then D1
             else (case execUpdateStatus (ex_ID ex) ExecutionStatusRunning (dm_store D1) of
                     (Some _, s1) \<Rightarrow> D1\<lparr>dm_store := s1\<rparr>
                   | (None, s1) \<Rightarrow> snd (recoverExecution V (ex\<lparr>ex_Status := ExecutionStatusRunning\<rparr>) (D1\<lparr>dm_store := s1\<rparr>))))
          else snd (recoverExecution V ex D1))"

definition recovery_filter :: "execution_status \<Rightarrow> execution_filter" where
  "recovery_filter status = \<lparr>xf_ProjectID = None, xf_TaskID = None, xf_Status = Some status, xf_PageSize = 1000, xf_Offset = 0\<rparr>"

fun recover_statuses :: "daemon_env \<Rightarrow> execution_status list \<Rightarrow> daemon \<Rightarrow> string option \<times> daemon" where
  "recover_statuses V [] D = (None, D)"
| "recover_statuses V (status # rest) D = (case execList (recovery_filter status) (dm_store D) of
       Inl e \<Rightarrow> (Some (''failed to list '' @ execution_status_text status @ '' executions: '' @ err_text e), D)
     | Inr exs \<Rightarrow> recover_statuses V rest (fold (recover_row V status) exs D))"

definition Recover :: "daemon_env \<Rightarrow> daemon \<Rightarrow> string option \<times> daemon" where
  "Recover V D =
     (case recover_statuses V [ExecutionStatusRunning, ExecutionStatusPending, ExecutionStatusPaused] D of
        (Some e, D1) \<Rightarrow> (Some e, D1)
      | (None, D1) \<Rightarrow> (None, D1\<lparr>dm_store := sweepStuckWaitingForChildren store_repo (dm_store D1)\<rparr>))"

section \<open>Pausing, resuming and cancelling\<close>

definition stamp_reason :: "execution \<Rightarrow> string \<Rightarrow> store \<Rightarrow> store" where
  "stamp_reason ex reason s =
     (let st = (loadExecutionState ex)\<lparr>es_PausedReason := reason\<rparr>
      in if marshals st then snd (execSaveStateSnapshot (ex_ID ex) st (es_CurrentStepID st) (es_CompletedSteps st) s) else s)"

definition cancel_handle :: "string \<Rightarrow> daemon \<Rightarrow> daemon" where
  "cancel_handle taskID D = D\<lparr>dm_active := (dm_active D)(taskID := map_option (\<lambda>h. h\<lparr>hd_cancelled := True\<rparr>) (dm_active D taskID))\<rparr>"

definition pauseWithReason :: "string \<Rightarrow> string \<Rightarrow> daemon \<Rightarrow> string option \<times> daemon" where
  "pauseWithReason taskID reason D =
     (if dm_active D taskID = None then (Some (''no active execution for task '' @ taskID), D)
      else (case execGetByTaskID taskID (dm_store D) of
          Inl e \<Rightarrow> (Some (''failed to get execution record: '' @ err_text e), D)
        | Inr ex \<Rightarrow>
            (case execUpdateStatus (ex_ID ex) ExecutionStatusPaused (stamp_reason ex reason (dm_store D)) of
               (Some e, s1) \<Rightarrow> (Some (''failed to update execution status: '' @ err_text e), D\<lparr>dm_store := s1\<rparr>)
             | (None, s1) \<Rightarrow> (None, cancel_handle taskID (D\<lparr>dm_store := set_task_status taskID TaskStatusPaused s1\<rparr>)))))"

definition Pause :: "string \<Rightarrow> daemon \<Rightarrow> string option \<times> daemon" where
  "Pause taskID D = pauseWithReason taskID PauseReasonOperator D"

definition resume_run :: "daemon_env \<Rightarrow> string \<Rightarrow> daemon \<Rightarrow> string option \<times> daemon" where
  "resume_run V taskID D =
     (case Resume (store_engine (dv_engine V)) (\<lambda>i. dm_active D i \<noteq> None)
             (\<lambda>i s. case execGetByTaskID i s of Inl e \<Rightarrow> Inl (plain_err (err_text e)) | Inr ex \<Rightarrow> Inr ex) taskID (dm_store D) of
        (Inl m, s1) \<Rightarrow> (Some m, D\<lparr>dm_store := s1\<rparr>)
      | (Inr ex, s1) \<Rightarrow>
          (case Get taskID (st_db (dm_store D)) of
             Inl e \<Rightarrow> (Some (err_text e), D)
           | Inr task \<Rightarrow> (None, start_run False task ex (D\<lparr>dm_store := s1\<rparr>))))"

definition Cancel :: "string \<Rightarrow> daemon \<Rightarrow> string option \<times> daemon" where
  "Cancel taskID D =
     (if dm_active D taskID = None then (Some (''no active execution for task '' @ taskID), D)
      else (let s1 = set_task_status taskID TaskStatusCancelled (dm_store D);
                s2 = (case execGetByTaskID taskID s1 of
                        Inr ex \<Rightarrow> snd (execUpdateStatus (ex_ID ex) ExecutionStatusCancelled s1) | Inl _ \<Rightarrow> s1);
                s3 = (if taskID = [] then s2 else snd (execSupersedeNonTerminalForTask taskID s2))
            in (None, cancel_handle taskID (D\<lparr>dm_store := s3\<rparr>))))"

section \<open>Ending\<close>

definition cleanupExecution :: "string \<Rightarrow> daemon \<Rightarrow> daemon" where
  "cleanupExecution taskID D =
     (let D1 = D\<lparr>dm_active := (dm_active D)(taskID := None)\<rparr>
      in case dm_active D taskID of
           None \<Rightarrow> D1
         | Some h \<Rightarrow> if hd_recovered h then D1\<lparr>dm_store := releaseRecoveredTask store_repo taskID (dm_store D1)\<rparr> else D1)"

definition Stop_executor :: "daemon \<Rightarrow> daemon" where
  "Stop_executor D = D\<lparr>dm_active := (\<lambda>i. map_option (\<lambda>h. h\<lparr>hd_cancelled := True\<rparr>) (dm_active D i)), dm_shuttingDown := False\<rparr>"

text \<open>\<open>taskIDs\<close>: the active tasks in the order the map is walked. Failed pauses are logged only.\<close>

definition Shutdown :: "string list \<Rightarrow> daemon \<Rightarrow> daemon" where
  "Shutdown taskIDs D =
     Stop_executor (fold (\<lambda>i D. snd (pauseWithReason i PauseReasonShutdown D)) taskIDs (D\<lparr>dm_shuttingDown := True\<rparr>))"

definition IsExecuting :: "string \<Rightarrow> daemon \<Rightarrow> bool" where
  "IsExecuting taskID D \<longleftrightarrow> dm_active D taskID \<noteq> None"

end
