(* ===== verification/DaemonProps.thy ===== *)
theory DaemonProps
  imports ExecutorDaemon WorkflowProps
begin

text \<open>
  Properties of the long-lived executor: one goroutine per task in every reachable state, what recovery after a
  restart starts again, and how pausing, cancelling and shutting down interact with it.
\<close>

section \<open>One goroutine per task\<close>

abbreviation run_ids :: "daemon \<Rightarrow> string list" where
  "run_ids D \<equiv> map (\<lambda>r. task_ID (fst r)) (dm_runs D)"

definition runs_ok :: "daemon \<Rightarrow> bool" where
  "runs_ok D \<longleftrightarrow> distinct (run_ids D) \<and> set (run_ids D) = dom (dm_active D)"

text \<open>
  A step of the daemon: one call, a goroutine that ends (its deferred cleanup included), or any change of the
  store by goroutines and other processes.
\<close>

inductive daemon_step :: "daemon_env \<Rightarrow> daemon \<Rightarrow> daemon \<Rightarrow> bool" for V where
  execute: "daemon_step V D (snd (ExecuteWithContext V i D))"
| recover: "daemon_step V D (snd (Recover V D))"
| resume_paused: "daemon_step V D (snd (ResumePaused V i D))"
| resume: "daemon_step V D (snd (resume_run V i D))"
| pause: "daemon_step V D (snd (pauseWithReason i reason D))"
| cancel: "daemon_step V D (snd (Cancel i D))"
| shutdown: "daemon_step V D (Shutdown ids D)"
| stop: "daemon_step V D (Stop_executor D)"
| finish: "(task, ex) \<in> set (dm_runs D) \<Longrightarrow>
    daemon_step V D (cleanupExecution (task_ID task) (D\<lparr>dm_runs := remove1 (task, ex) (dm_runs D)\<rparr>))"
| work: "daemon_step V D (D\<lparr>dm_store := s\<rparr>)"

lemma runs_ok_cong: "dm_runs D' = dm_runs D \<Longrightarrow> dom (dm_active D') = dom (dm_active D) \<Longrightarrow> runs_ok D' = runs_ok D"
  by (simp add: runs_ok_def)

lemma runs_ok_store [simp]: "runs_ok (D\<lparr>dm_store := s\<rparr>) = runs_ok D"
  by (rule runs_ok_cong) simp_all

lemma runs_ok_flag [simp]: "runs_ok (D\<lparr>dm_shuttingDown := b\<rparr>) = runs_ok D"
  by (rule runs_ok_cong) simp_all

lemma runs_ok_start: "runs_ok D \<Longrightarrow> dm_active D (task_ID task) = None \<Longrightarrow> runs_ok (start_run r task ex D)"
  by (auto simp: runs_ok_def start_run_def domIff)

lemma runs_ok_cancel_handle [simp]: "runs_ok (cancel_handle i D) = runs_ok D"
  by (rule runs_ok_cong) (auto simp: cancel_handle_def dom_def)

lemma Get_ID: "Get i d = Inr t \<Longrightarrow> task_ID t = i"
  by (auto simp: Get_def scan_one_def query_row_Some filter_eq_Cons_iff split: option.splits)

lemma execute_runs: "runs_ok D \<Longrightarrow> runs_ok (snd (ExecuteWithContext V i D))"
  by (auto simp: ExecuteWithContext_def runs_ok_start dest: Get_ID split: sum.split prod.split)

lemma recoverExecution_runs: "runs_ok D \<Longrightarrow> runs_ok (snd (recoverExecution V ex D))"
  by (auto simp: recoverExecution_def runs_ok_start Let_def dest: Get_ID split: sum.split option.split)

lemma ResumePaused_runs: "runs_ok D \<Longrightarrow> runs_ok (snd (ResumePaused V i D))"
  by (auto simp: ResumePaused_def recoverExecution_runs split: sum.split prod.split option.split)

lemma recover_row_runs: "runs_ok D \<Longrightarrow> runs_ok (recover_row V st ex D)"
  by (auto simp: recover_row_def recoverExecution_runs split: sum.split prod.split option.split bool.split)

lemma fold_runs: "(\<And>x D. runs_ok D \<Longrightarrow> runs_ok (f x D)) \<Longrightarrow> runs_ok D \<Longrightarrow> runs_ok (fold f xs D)"
  by (induction xs arbitrary: D) auto

lemma recover_statuses_runs: "runs_ok D \<Longrightarrow> runs_ok (snd (recover_statuses V sts D))"
  by (induction sts arbitrary: D) (auto simp: fold_runs recover_row_runs split: sum.split)

lemma Recover_runs: "runs_ok D \<Longrightarrow> runs_ok (snd (Recover V D))"
proof -
  assume "runs_ok D"
  let ?sts = "[ExecutionStatusRunning, ExecutionStatusPending, ExecutionStatusPaused]"
  obtain e D1 where r: "recover_statuses V ?sts D = (e, D1)" by (metis surj_pair)
  have "runs_ok D1" using recover_statuses_runs [OF \<open>runs_ok D\<close>, of V ?sts] unfolding r by simp
  then show ?thesis unfolding Recover_def r by (simp split: option.split)
qed

lemma pause_runs: "runs_ok D \<Longrightarrow> runs_ok (snd (pauseWithReason i reason D))"
  by (auto simp: pauseWithReason_def split: sum.split prod.split option.split)

lemma Resume_inactive: "Resume E active get i s = (Inr ex, s') \<Longrightarrow> \<not> active i"
  by (auto simp: Resume_def split: if_splits)

lemma resume_runs: "runs_ok D \<Longrightarrow> runs_ok (snd (resume_run V i D))"
  by (auto simp: resume_run_def runs_ok_start dest!: Resume_inactive dest: Get_ID split: sum.split prod.split)

lemma cancel_runs: "runs_ok D \<Longrightarrow> runs_ok (snd (Cancel i D))"
  by (auto simp: Cancel_def Let_def)

lemma stop_runs: "runs_ok D \<Longrightarrow> runs_ok (Stop_executor D)"
  by (subst runs_ok_cong) (auto simp: Stop_executor_def dom_def)

lemma cleanup_simps:
  "dm_active (cleanupExecution i D) = (dm_active D)(i := None)" "dm_runs (cleanupExecution i D) = dm_runs D"
  by (simp_all add: cleanupExecution_def Let_def split: option.split)

lemma remove1_keys:
  "distinct (map k xs) \<Longrightarrow> x \<in> set xs \<Longrightarrow> distinct (map k (remove1 x xs)) \<and> set (map k (remove1 x xs)) = set (map k xs) - {k x}"
proof (induction xs)
  case (Cons a xs)
  show ?case
  proof (cases "a = x")
    case False
    then have "x \<in> set xs" "k x \<noteq> k a" using Cons.prems by (auto simp: image_iff)
    moreover have "set (remove1 x xs) \<subseteq> set xs" by (rule set_remove1_subset)
    ultimately show ?thesis using False Cons by auto
  qed (use Cons.prems in auto)
qed simp

lemma finish_runs:
  assumes "runs_ok D" and "(task, ex) \<in> set (dm_runs D)"
  shows "runs_ok (cleanupExecution (task_ID task) (D\<lparr>dm_runs := remove1 (task, ex) (dm_runs D)\<rparr>))"
proof -
  have "distinct (run_ids D)" using assms(1) by (simp add: runs_ok_def)
  from remove1_keys [OF this assms(2)] assms(1) show ?thesis unfolding runs_ok_def by (simp add: cleanup_simps)
qed


section \<open>What recovery starts\<close>

text \<open>No live workflow differs from the one the execution started with.\<close>

definition unchanged_workflow :: "daemon_env \<Rightarrow> execution \<Rightarrow> bool" where
  "unchanged_workflow V ex \<longleftrightarrow> ex_WorkflowRevision ex \<in> {[], ''v1''} \<or> (case dv_workflowHash V of
     None \<Rightarrow> True | Some hash \<Rightarrow> hash (ex_WorkflowID ex) \<in> {None, Some [], Some (ex_WorkflowRevision ex)})"

definition live_task :: "string \<Rightarrow> store \<Rightarrow> bool" where
  "live_task i s \<longleftrightarrow> (case Get i (st_db s) of
     Inl _ \<Rightarrow> False | Inr t \<Rightarrow> task_Status t \<notin> {TaskStatusFailed, TaskStatusCompleted, TaskStatusCancelled})"

text \<open>The executions that should go on after a restart.\<close>

definition wants_recovery :: "daemon_env \<Rightarrow> store \<Rightarrow> execution \<Rightarrow> bool" where
  "wants_recovery V s ex \<longleftrightarrow> live_task (ex_TaskID ex) s \<and>
     (ex_Status ex = ExecutionStatusRunning \<and> \<not> container_gone V ex \<or> ex_Status ex = ExecutionStatusPending \<or>
      ex_Status ex = ExecutionStatusPaused \<and> auto_resumable ex)"

lemma scan_exec_simps [simp]:
  "ex_ID (scanSqliteExecution e) = ex_ID e" "ex_TaskID (scanSqliteExecution e) = ex_TaskID e"
  "ex_Status (scanSqliteExecution e) = ex_Status e" "ex_WorkflowRevision (scanSqliteExecution e) = ex_WorkflowRevision e"
  "ex_WorkflowID (scanSqliteExecution e) = ex_WorkflowID e" "ex_StateSnapshot (scanSqliteExecution e) = ex_StateSnapshot e"
  "ex_CurrentStepID (scanSqliteExecution e) = ex_CurrentStepID e" "ex_CompletedSteps (scanSqliteExecution e) = ex_CompletedSteps e"
  by (simp_all add: scanSqliteExecution_def)

lemma scan_exec_state [simp]: "loadExecutionState (scanSqliteExecution e) = loadExecutionState e"
  unfolding loadExecutionState_def scan_exec_simps ..

lemma scan_exec_predicates [simp]:
  "container_gone V (scanSqliteExecution e) = container_gone V e" "auto_resumable (scanSqliteExecution e) = auto_resumable e"
  "unchanged_workflow V (scanSqliteExecution e) = unchanged_workflow V e"
  by (simp_all only: container_gone_def auto_resumable_def unchanged_workflow_def scan_exec_simps scan_exec_state)

lemma unchanged_workflow_status [simp]: "unchanged_workflow V (e\<lparr>ex_Status := st\<rparr>) = unchanged_workflow V e"
  by (simp add: unchanged_workflow_def split: option.split)

lemma not_drifted: "unchanged_workflow V ex \<Longrightarrow> drifted V ex s = None"
  by (auto simp: unchanged_workflow_def drifted_def split: option.splits sum.splits list.splits)

text \<open>
  What the recovery of some rows leaves alone: the tasks, the rows not in \<open>K\<close>, and the statuses \<open>S\<close> that are
  still to be listed.
\<close>

definition frame :: "string set \<Rightarrow> execution_status set \<Rightarrow> store \<Rightarrow> store \<Rightarrow> bool" where
  "frame K S s s' \<longleftrightarrow> st_db s' = st_db s \<and> execs_ok (st_execs s') \<and>
     filter (\<lambda>e. ex_ID e \<notin> K) (st_execs s') = filter (\<lambda>e. ex_ID e \<notin> K) (st_execs s) \<and>
     (\<forall>e \<in> set (st_execs s'). ex_ID e \<in> K \<longrightarrow> ex_Status e \<notin> S)"

lemma filter_sql_update_other:
  assumes "\<And>r. k (f r) = k r"
  shows "filter (\<lambda>e. k e \<notin> insert i K) (sql_update (\<lambda>r. k r = i) f es) = filter (\<lambda>e. k e \<noteq> i) (filter (\<lambda>e. k e \<notin> K) es)"
  by (induction es) (auto simp: assms)

lemma filter_shrink: "filter (\<lambda>e. k e \<notin> insert i K) es = filter (\<lambda>e. k e \<noteq> i) (filter (\<lambda>e. k e \<notin> K) es)"
  by (induction es) auto

lemma frame_write:
  assumes "frame K S s s1" and "\<And>r. ex_ID (f r) = ex_ID r" and "\<And>r. declared_exec_status (ex_Status (f r))"
    and "\<And>r. ex_Status (f r) \<notin> S"
  shows "fst (exec_done (exec_write (\<lambda>r. ex_ID r = i) f s1)) = None"
    and "frame (insert i K) S s (snd (exec_write (\<lambda>r. ex_ID r = i) f s1))"
proof -
  let ?es = "sql_update (\<lambda>r. ex_ID r = i) f (st_execs s1)"
  have "map ex_ID ?es = map ex_ID (st_execs s1)" using assms(2) by (intro map_sql_update) simp
  moreover have "list_all (\<lambda>e. declared_exec_status (ex_Status e)) ?es"
    using assms(1,3) by (auto simp: frame_def execs_ok_def list_all_iff in_set_sql_update)
  ultimately have ok: "execs_ok ?es" using assms(1) by (simp add: frame_def execs_ok_def)
  then show "fst (exec_done (exec_write (\<lambda>r. ex_ID r = i) f s1)) = None" by (simp add: exec_write_def exec_done_def Let_def)
  have w: "snd (exec_write (\<lambda>r. ex_ID r = i) f s1) = s1\<lparr>st_execs := ?es\<rparr>" using ok by (simp add: exec_write_def Let_def)
  have "filter (\<lambda>e. ex_ID e \<notin> insert i K) ?es = filter (\<lambda>e. ex_ID e \<notin> insert i K) (st_execs s)"
    using assms(1) unfolding filter_sql_update_other [of ex_ID f, OF assms(2)] filter_shrink [of ex_ID i K "st_execs s"]
    by (simp add: frame_def)
  moreover have "ex_Status e \<notin> S" if "e \<in> set ?es" "ex_ID e \<in> insert i K" for e
    using that assms(1,2,4) unfolding in_set_sql_update frame_def by auto
  ultimately show "frame (insert i K) S s (snd (exec_write (\<lambda>r. ex_ID r = i) f s1))"
    using ok assms(1) unfolding w frame_def by simp
qed

lemma frame_keep:
  assumes "frame K S s s1" and "execs_ok (st_execs s)" and "r \<in> set (st_execs s)" and "ex_Status r \<notin> S"
  shows "frame (insert (ex_ID r) K) S s s1"
proof -
  have "ex_Status e \<notin> S" if "e \<in> set (st_execs s1)" "ex_ID e \<in> insert (ex_ID r) K" for e
  proof (cases "ex_ID e \<in> K")
    case True
    with that assms(1) show ?thesis by (simp add: frame_def)
  next
    case False
    then have "e \<in> set (filter (\<lambda>e. ex_ID e \<notin> K) (st_execs s1))" using that(1) by simp
    then have "e \<in> set (st_execs s)" using assms(1) unfolding frame_def by (metis filter_is_subset subsetD)
    then have "e = r" using that(2) False assms(2,3) distinct_key_eq [of ex_ID "st_execs s"] by (simp add: execs_ok_def)
    with assms(4) show ?thesis by simp
  qed
  then show ?thesis
    using assms(1) unfolding frame_def filter_shrink [of ex_ID "ex_ID r" K] by simp
qed

lemma recordFailure_frame:
  assumes "frame K S s s1" and "ExecutionStatusFailed \<notin> S"
  shows "fst (execRecordFailure i m c s1) = None" "frame (insert i K) S s (snd (execRecordFailure i m c s1))"
  using frame_write [OF assms(1), of "failed_exec m c (st_now s1)" i] assms(2)
  by (simp_all add: execRecordFailure_def failed_exec_def declared_exec_status_def)

lemma updateStatus_frame:
  assumes "frame K S s s1" and "st \<notin> S" and "declared_exec_status st"
  shows "fst (execUpdateStatus i st s1) = None" "frame (insert i K) S s (snd (execUpdateStatus i st s1))"
  using frame_write [OF assms(1), of "status_exec st (st_now s1)" i] assms(2,3)
  by (simp_all add: execUpdateStatus_def status_exec_def)

lemma start_run_simps [simp]:
  "dm_store (start_run b t ex D) = dm_store D" "dom (dm_active (start_run b t ex D)) = insert (task_ID t) (dom (dm_active D))"
  by (simp_all add: start_run_def)

lemma recoverExecution_effect:
  assumes "unchanged_workflow V ex" and "frame K S s (dm_store D)" and "ExecutionStatusFailed \<notin> S" and "ex_ID ex \<in> K"
    and "recoverExecution V ex D = (r, D')"
  shows "frame K S s (dm_store D')"
    and "dom (dm_active D') = dom (dm_active D) \<union> (if live_task (ex_TaskID ex) s then {ex_TaskID ex} else {})"
proof -
  have db: "st_db (dm_store D) = st_db s" using assms(2) by (simp add: frame_def)
  have rf: "frame K S s (snd (execRecordFailure (ex_ID ex) m c (dm_store D)))" for m c
    using recordFailure_frame(2) [OF assms(2,3), of "ex_ID ex" m c] assms(4) by (simp add: insert_absorb)
  show "frame K S s (dm_store D')"
    using assms(1,2,5) rf
    by (auto simp: recoverExecution_def not_drifted split: if_splits sum.splits)
  show "dom (dm_active D') = dom (dm_active D) \<union> (if live_task (ex_TaskID ex) s then {ex_TaskID ex} else {})"
  proof (cases "dm_active D (ex_TaskID ex) = None")
    case True
    then show ?thesis
    proof (cases "Get (ex_TaskID ex) (st_db s)")
      case (Inr t)
      then have "task_ID t = ex_TaskID ex" by (rule Get_ID)
      with True Inr assms(1,5) db show ?thesis
        by (auto simp: recoverExecution_def live_task_def not_drifted start_run_def split: if_splits)
    qed (use True assms(5) db in \<open>auto simp: recoverExecution_def live_task_def\<close>)
  next
    case False
    with assms(5) show ?thesis by (auto simp: recoverExecution_def)
  qed
qed

lemma recover_row_effect:
  assumes "frame K S s (dm_store D)" and "execs_ok (st_execs s)" and "r \<in> set (st_execs s)" and "unchanged_workflow V r"
    and "ex_Status r \<notin> S" and "ExecutionStatusFailed \<notin> S" and "ExecutionStatusRunning \<notin> S"
    and "ex_Status r \<in> {ExecutionStatusRunning, ExecutionStatusPending, ExecutionStatusPaused}"
  shows "frame (insert (ex_ID r) K) S s (dm_store (recover_row V (ex_Status r) (scanSqliteExecution r) D))"
    and "dom (dm_active (recover_row V (ex_Status r) (scanSqliteExecution r) D))
         = dom (dm_active D) \<union> (if wants_recovery V s r then {ex_TaskID r} else {})"
proof -
  let ?e = "scanSqliteExecution r" and ?K = "insert (ex_ID r) K"
  let ?D' = "recover_row V (ex_Status r) ?e D"
  have keep: "frame ?K S s (dm_store D)" by (rule frame_keep [OF assms(1-3,5)])
  have rec: "frame ?K S s (dm_store D1) \<Longrightarrow> ex_ID x = ex_ID r \<Longrightarrow> unchanged_workflow V x \<Longrightarrow>
      frame ?K S s (dm_store (snd (recoverExecution V x D1))) \<and>
      dom (dm_active (snd (recoverExecution V x D1))) = dom (dm_active D1) \<union> (if live_task (ex_TaskID x) s then {ex_TaskID x} else {})"
    for D1 x using recoverExecution_effect [of V x ?K S s D1] assms(6) by (metis insertI1 prod.collapse)
  have "frame ?K S s (dm_store ?D') \<and> dom (dm_active ?D') = dom (dm_active D) \<union> (if wants_recovery V s r then {ex_TaskID r} else {})"
  proof (cases "ex_Status r = ExecutionStatusPaused")
    case True
    show ?thesis
    proof (cases "auto_resumable r")
      case auto: True
      obtain s1 where u: "execUpdateStatus (ex_ID r) ExecutionStatusRunning (dm_store D) = (None, s1)" and f: "frame ?K S s s1"
        using updateStatus_frame [OF assms(1,7), of "ex_ID r"] by (cases "execUpdateStatus (ex_ID r) ExecutionStatusRunning (dm_store D)") (auto simp: declared_exec_status_def)
      have "unchanged_workflow V (?e\<lparr>ex_Status := ExecutionStatusRunning\<rparr>)" using assms(4) by simp
      with rec [of "D\<lparr>dm_store := s1\<rparr>" "?e\<lparr>ex_Status := ExecutionStatusRunning\<rparr>"] f True auto u show ?thesis
        by (simp add: recover_row_def wants_recovery_def)
    next
      case False
      with True keep show ?thesis by (simp add: recover_row_def wants_recovery_def)
    qed
  next
    case False
    show ?thesis
    proof (cases "ex_Status r = ExecutionStatusRunning \<and> container_gone V r")
      case True
      obtain s1 where u: "execRecordFailure (ex_ID r) boot_orphan_message TaskFailureClassOrphaned (dm_store D) = (None, s1)" and f: "frame ?K S s s1"
        using recordFailure_frame [OF assms(1,6), of "ex_ID r" boot_orphan_message TaskFailureClassOrphaned]
        by (cases "execRecordFailure (ex_ID r) boot_orphan_message TaskFailureClassOrphaned (dm_store D)") auto
      with True show ?thesis by (simp add: recover_row_def wants_recovery_def)
    next
      case live: False
      with rec [OF keep, of ?e] assms(4,8) False show ?thesis by (auto simp: recover_row_def wants_recovery_def)
    qed
  qed
  then show "frame ?K S s (dm_store ?D')" "dom (dm_active ?D') = dom (dm_active D) \<union> (if wants_recovery V s r then {ex_TaskID r} else {})" by blast+
qed

definition recovered_ids :: "daemon_env \<Rightarrow> store \<Rightarrow> execution set \<Rightarrow> string set" where
  "recovered_ids V s rs = ex_TaskID ` {r \<in> rs. wants_recovery V s r}"

lemma recovered_ids_insert:
  "recovered_ids V s (insert r rs) = recovered_ids V s rs \<union> (if wants_recovery V s r then {ex_TaskID r} else {})"
  by (auto simp: recovered_ids_def)

lemma recover_fold:
  assumes "frame K S s (dm_store D)" and "execs_ok (st_execs s)"
    and "\<And>r. r \<in> set rs \<Longrightarrow> r \<in> set (st_execs s) \<and> unchanged_workflow V r \<and> ex_Status r = st"
    and "st \<notin> S" and "ExecutionStatusFailed \<notin> S" and "ExecutionStatusRunning \<notin> S"
    and "st \<in> {ExecutionStatusRunning, ExecutionStatusPending, ExecutionStatusPaused}"
  shows "frame (ex_ID ` set rs \<union> K) S s (dm_store (fold (recover_row V st) (map scanSqliteExecution rs) D))
       \<and> dom (dm_active (fold (recover_row V st) (map scanSqliteExecution rs) D)) = dom (dm_active D) \<union> recovered_ids V s (set rs)"
  using assms(1,3)
proof (induction rs arbitrary: K D)
  case Nil
  then show ?case by (simp add: recovered_ids_def)
next
  case (Cons r rs)
  let ?D = "recover_row V st (scanSqliteExecution r) D"
  have r: "r \<in> set (st_execs s)" "unchanged_workflow V r" "ex_Status r = st" using Cons.prems(2) [of r] by simp_all
  have "frame (insert (ex_ID r) K) S s (dm_store ?D)"
    and dom: "dom (dm_active ?D) = dom (dm_active D) \<union> (if wants_recovery V s r then {ex_TaskID r} else {})"
    using recover_row_effect [OF Cons.prems(1) assms(2) r(1,2), unfolded r(3)] assms(4-7) by auto
  from Cons.IH [OF this(1)] Cons.prems(2)
  have "frame (ex_ID ` set rs \<union> insert (ex_ID r) K) S s (dm_store (fold (recover_row V st) (map scanSqliteExecution rs) ?D))
    \<and> dom (dm_active (fold (recover_row V st) (map scanSqliteExecution rs) ?D)) = dom (dm_active ?D) \<union> recovered_ids V s (set rs)"
    by simp
  then show ?case unfolding dom by (simp add: recovered_ids_insert Un_ac)
qed

abbreviation rows_with :: "execution_status \<Rightarrow> store \<Rightarrow> execution list" where
  "rows_with st s \<equiv> select_desc (\<lambda>e. ex_Status e = st) exec_created (st_execs s)"

lemma list_frame:
  assumes "frame K S s s1" and "st \<in> S" and "\<And>r. r \<in> set (st_execs s) \<Longrightarrow> ex_Status r = st \<Longrightarrow> ex_ID r \<notin> K"
    and "length (st_execs s) \<le> 1000"
  shows "execList (recovery_filter st) s1 = Inr (map scanSqliteExecution (rows_with st s))"
proof -
  have "filter (\<lambda>e. ex_Status e = st) (st_execs s1) = filter (\<lambda>e. ex_Status e = st) (filter (\<lambda>e. ex_ID e \<notin> K) (st_execs s1))"
    unfolding filter_filter by (rule filter_cong) (use assms(1,2) in \<open>auto simp: frame_def\<close>)
  also have "\<dots> = filter (\<lambda>e. ex_Status e = st) (filter (\<lambda>e. ex_ID e \<notin> K) (st_execs s))" using assms(1) by (simp add: frame_def)
  also have "\<dots> = filter (\<lambda>e. ex_Status e = st) (st_execs s)" unfolding filter_filter by (rule filter_cong) (use assms(3) in auto)
  finally have "rows_with st s1 = rows_with st s" by (simp add: select_desc_def)
  moreover have "length (rows_with st s) \<le> 1000"
    unfolding length_select_desc by (rule le_trans [OF length_filter_le assms(4)])
  moreover have "exec_filter (recovery_filter st) = (\<lambda>e. ex_Status e = st)" by (simp add: exec_filter_def recovery_filter_def fun_eq_iff)
  ultimately show ?thesis by (simp add: execList_def recovery_filter_def Let_def)
qed

lemma frame_weaken: "frame K S s s1 \<Longrightarrow> S' \<subseteq> S \<Longrightarrow> frame K S' s s1"
  by (auto simp: frame_def)

lemma other_status_id:
  assumes "execs_ok (st_execs s)" and "r \<in> set (st_execs s)" and "ex_Status r = st" and "st \<noteq> st'"
  shows "ex_ID r \<notin> ex_ID ` set (rows_with st' s)"
  using assms distinct_key_eq [of ex_ID "st_execs s" r] by (auto simp: execs_ok_def)

lemma recover_statuses_effect:
  assumes "execs_ok (st_execs s)" and "\<And>e. e \<in> set (st_execs s) \<Longrightarrow> unchanged_workflow V e" and "length (st_execs s) \<le> 1000"
    and "s = dm_store D"
  shows "\<exists>D'. recover_statuses V [ExecutionStatusRunning, ExecutionStatusPending, ExecutionStatusPaused] D = (None, D')
     \<and> st_db (dm_store D') = st_db s
     \<and> dom (dm_active D') = dom (dm_active D) \<union> recovered_ids V s (set (st_execs s))"
proof -
  let ?R = "ExecutionStatusRunning" and ?N = "ExecutionStatusPending" and ?P = "ExecutionStatusPaused"
  let ?ids = "\<lambda>st. ex_ID ` set (rows_with st s)"
  let ?go = "\<lambda>st. fold (recover_row V st) (map scanSqliteExecution (rows_with st s))"
  let ?D1 = "?go ?R D" let ?D2 = "?go ?N ?D1" let ?D3 = "?go ?P ?D2"
  have rs: "r \<in> set (rows_with st s) \<Longrightarrow> r \<in> set (st_execs s) \<and> unchanged_workflow V r \<and> ex_Status r = st" for r st
    using assms(2) by simp
  have f0: "frame {} S s (dm_store D)" for S using assms(1,4) by (simp add: frame_def)
  note p1 = recover_fold [OF f0 [of "{?N, ?P}"] assms(1) rs, of "rows_with ?R s" ?R, simplified]
  have f1: "frame (?ids ?R) {?N, ?P} s (dm_store ?D1)" using p1 by simp
  note p2 = recover_fold [OF frame_weaken [OF f1, of "{?P}"] assms(1) rs, of "rows_with ?N s" ?N, simplified]
  have f2: "frame (?ids ?N \<union> ?ids ?R) {?P} s (dm_store ?D2)" using p2 by simp
  note p3 = recover_fold [OF frame_weaken [OF f2, of "{}"] assms(1) rs, of "rows_with ?P s" ?P, simplified]
  have l1: "execList (recovery_filter ?R) (dm_store D) = Inr (map scanSqliteExecution (rows_with ?R s))"
    by (rule list_frame [OF f0 [of "{?R}"]]) (use assms(3) in auto)
  have l2: "execList (recovery_filter ?N) (dm_store ?D1) = Inr (map scanSqliteExecution (rows_with ?N s))"
    by (rule list_frame [OF f1]) (use assms(3) other_status_id [OF assms(1)] in auto)
  have l3: "execList (recovery_filter ?P) (dm_store ?D2) = Inr (map scanSqliteExecution (rows_with ?P s))"
    by (rule list_frame [OF f2]) (use assms(3) other_status_id [OF assms(1)] in auto)
  have "recover_statuses V [?R, ?N, ?P] D = (None, ?D3)" using l1 l2 l3 by simp
  moreover have "st_db (dm_store ?D3) = st_db s" using p3 by (simp add: frame_def)
  moreover have "dom (dm_active ?D3) = dom (dm_active D) \<union> recovered_ids V s (set (st_execs s))"
  proof -
    have "recovered_ids V s (set (rows_with ?R s)) \<union> recovered_ids V s (set (rows_with ?N s)) \<union> recovered_ids V s (set (rows_with ?P s))
        = recovered_ids V s (set (st_execs s))"
      by (auto simp: recovered_ids_def wants_recovery_def)
    moreover have "dom (dm_active ?D3) = dom (dm_active D) \<union> recovered_ids V s (set (rows_with ?R s))
        \<union> recovered_ids V s (set (rows_with ?N s)) \<union> recovered_ids V s (set (rows_with ?P s))" using p1 p2 p3 by simp
    ultimately show ?thesis by blast
  qed
  ultimately show ?thesis by blast
qed

lemma recover_exact:
  assumes "execs_ok (st_execs (dm_store D))" and "\<forall>e \<in> set (st_execs (dm_store D)). unchanged_workflow V e"
    and "length (st_execs (dm_store D)) \<le> 1000" and "Recover V D = (r, D')"
  shows "r = None \<and> (IsExecuting i D' \<longleftrightarrow> IsExecuting i D \<or>
           (\<exists>e \<in> set (st_execs (dm_store D)). ex_TaskID e = i \<and> wants_recovery V (dm_store D) e))"
proof -
  let ?s = "dm_store D"
  obtain D1 where rs: "recover_statuses V [ExecutionStatusRunning, ExecutionStatusPending, ExecutionStatusPaused] D = (None, D1)"
    and dom: "dom (dm_active D1) = dom (dm_active D) \<union> recovered_ids V ?s (set (st_execs ?s))"
    using recover_statuses_effect [OF assms(1) _ assms(3) refl] assms(2) by blast
  from assms(4) rs have "r = None" "dm_active D' = dm_active D1" by (auto simp: Recover_def)
  moreover have "IsExecuting i D1 \<longleftrightarrow> i \<in> dom (dm_active D1)" by (auto simp: IsExecuting_def)
  ultimately show ?thesis unfolding dom IsExecuting_def by (auto simp: recovered_ids_def)
qed


section \<open>Shutting down and starting again\<close>

abbreviation rows_of :: "string \<Rightarrow> store \<Rightarrow> execution list" where
  "rows_of i s \<equiv> filter (\<lambda>e. ex_TaskID e = i) (st_execs s)"

definition stored_task :: "string \<Rightarrow> store \<Rightarrow> bool" where
  "stored_task i s \<longleftrightarrow> i \<in> set (map task_ID (db_tasks (st_db s)))"

text \<open>An execution of the task is parked for the next start, in the given state.\<close>

definition parked :: "string \<Rightarrow> execution_state \<Rightarrow> store \<Rightarrow> bool" where
  "parked i st s \<longleftrightarrow> live_task i s \<and> (\<exists>e \<in> set (rows_of i s). ex_Status e = ExecutionStatusPaused \<and>
     loadExecutionState e = st\<lparr>es_PausedReason := PauseReasonShutdown\<rparr>)"

definition store_ok :: "store \<Rightarrow> bool" where
  "store_ok s \<longleftrightarrow> execs_ok (st_execs s) \<and> tasks_ok (db_tasks (st_db s))"

lemma latest_row:
  assumes "execGetByTaskID i s = Inr ex"
  obtains r where "r \<in> set (st_execs s)" "ex_TaskID r = i" "ex = scanSqliteExecution r"
proof -
  obtain r where "query_row (select_desc (\<lambda>e. ex_TaskID e = i) exec_created (st_execs s)) = Some r" "ex = scanSqliteExecution r"
    using assms by (auto simp: execGetByTaskID_def scan_exec_def split: option.splits)
  with query_row_in_set that show thesis by fastforce
qed

lemma latest_cong: "rows_of i s' = rows_of i s \<Longrightarrow> execGetByTaskID i s' = execGetByTaskID i s"
  by (simp add: execGetByTaskID_def select_desc_def)

lemma exec_write_other_task:
  assumes "\<And>r. ex_TaskID (f r) = ex_TaskID r" and "\<And>r. r \<in> set (st_execs s) \<Longrightarrow> P r \<Longrightarrow> ex_TaskID r \<noteq> j"
  shows "rows_of j (snd (exec_write P f s)) = rows_of j s"
proof -
  have "filter (\<lambda>e. ex_TaskID e = j) (sql_update P f es) = filter (\<lambda>e. ex_TaskID e = j) es"
    if "\<And>r. r \<in> set es \<Longrightarrow> P r \<Longrightarrow> ex_TaskID r \<noteq> j" for es
    using that by (induction es) (auto simp: assms(1))
  with assms(2) exec_write_rows [of P f s] show ?thesis by metis
qed

lemma set_task_status_simps [simp]: "st_execs (set_task_status i st s) = st_execs s"
  by (simp add: set_task_status_def on_tasks_def split: prod.split)

lemma set_task_status_db: "st_db (set_task_status i st s) = snd (UpdateStatus i st (st_db s))"
  by (simp add: set_task_status_def on_tasks_def split: prod.split)

lemma UpdateStatus_declared:
  assumes "declared_status st"
  shows "snd (UpdateStatus i st d) = d\<lparr>db_tasks := sql_update (\<lambda>t. task_ID t = i) (\<lambda>t. t\<lparr>task_Status := st, task_UpdatedAt := db_now d\<rparr>) (db_tasks d)\<rparr>"
  using assms by (simp add: snd_UpdateStatus update_status_where_def Let_def)

lemma set_task_status_effect:
  assumes "declared_status st"
  shows "tasks_ok (db_tasks (st_db s)) \<Longrightarrow> tasks_ok (db_tasks (st_db (set_task_status i st s)))"
    and "j \<noteq> i \<Longrightarrow> Get j (st_db (set_task_status i st s)) = Get j (st_db s)"
    and "stored_task j (set_task_status i st s) = stored_task j s"
    and "tasks_ok (db_tasks (st_db s)) \<Longrightarrow> stored_task i s \<Longrightarrow> \<exists>t. Get i (st_db (set_task_status i st s)) = Inr t \<and> task_Status t = st"
proof -
  let ?f = "\<lambda>t :: task. t\<lparr>task_Status := st, task_UpdatedAt := db_now (st_db s)\<rparr>"
  have db: "st_db (set_task_status i st s) = (st_db s)\<lparr>db_tasks := sql_update (\<lambda>t. task_ID t = i) ?f (db_tasks (st_db s))\<rparr>"
    using assms by (simp add: set_task_status_db UpdateStatus_declared)
  have kk: "keeps_keys ?f" by (simp add: keeps_keys_def)
  show ok: "tasks_ok (db_tasks (st_db (set_task_status i st s)))" if "tasks_ok (db_tasks (st_db s))"
    unfolding db using tasks_ok_sql_update [OF that kk] assms by simp
  have "filter (\<lambda>t. task_ID t = j) (sql_update (\<lambda>t. task_ID t = i) ?f ts) = filter (\<lambda>t. task_ID t = j) ts" if "j \<noteq> i" for ts :: "task list"
    using that by (induction ts) auto
  then show "Get j (st_db (set_task_status i st s)) = Get j (st_db s)" if "j \<noteq> i" using that unfolding db by (simp add: Get_def)
  show "stored_task j (set_task_status i st s) = stored_task j s"
    unfolding stored_task_def db by (simp add: map_ID_sql_update [OF kk] del: set_map)
  show "\<exists>t. Get i (st_db (set_task_status i st s)) = Inr t \<and> task_Status t = st" if a: "tasks_ok (db_tasks (st_db s))" "stored_task i s"
  proof -
    from a(2) obtain t where t: "t \<in> set (db_tasks (st_db s))" "task_ID t = i" by (auto simp: stored_task_def)
    then have "?f t \<in> set (db_tasks (st_db (set_task_status i st s)))" unfolding db by (auto simp: in_set_sql_update)
    from Get_row [OF ok [OF a(1)] this] t(2) show ?thesis by simp
  qed
qed

lemma execs_ok_rows: "execs_ok es \<Longrightarrow> r \<in> set es \<Longrightarrow> declared_exec_status (ex_Status r)"
  by (simp add: execs_ok_def list_all_iff)

lemma stamp_reason_simps [simp]: "st_db (stamp_reason ex reason s) = st_db s"
  by (simp add: stamp_reason_def Let_def execSaveStateSnapshot_def exec_write_def)

text \<open>The row a successful pause leaves.\<close>

definition paused_row :: "string \<Rightarrow> nanos \<Rightarrow> execution \<Rightarrow> execution" where
  "paused_row reason now r = status_exec ExecutionStatusPaused now (saved_exec ((loadExecutionState r)\<lparr>es_PausedReason := reason\<rparr>)
     (es_CurrentStepID (loadExecutionState r)) (es_CompletedSteps (loadExecutionState r)) now r)"

lemma paused_row_simps [simp]:
  "ex_ID (paused_row reason now r) = ex_ID r" "ex_TaskID (paused_row reason now r) = ex_TaskID r"
  "ex_Status (paused_row reason now r) = ExecutionStatusPaused"
  by (simp_all add: paused_row_def status_exec_def saved_exec_def)

lemma paused_row_state: "loadExecutionState (paused_row reason now r) = (loadExecutionState r)\<lparr>es_PausedReason := reason\<rparr>"
  by (rule loadExecutionState_saved) (simp_all add: paused_row_def status_exec_def saved_exec_def)

lemma marshals_reason [simp]: "marshals (st\<lparr>es_PausedReason := reason\<rparr>) = marshals st"
  by (simp add: marshals_def)

lemma pause_execs:
  assumes "execs_ok (st_execs s)" and "r \<in> set (st_execs s)" and "marshals (loadExecutionState r)"
  shows "execUpdateStatus (ex_ID r) ExecutionStatusPaused (stamp_reason (scanSqliteExecution r) reason s)
       = (None, s\<lparr>st_execs := sql_update (\<lambda>x. ex_ID x = ex_ID r) (\<lambda>x. paused_row reason (st_now s) r) (st_execs s)\<rparr>)"
proof -
  let ?P = "\<lambda>x. ex_ID x = ex_ID r"
  let ?st = "(loadExecutionState r)\<lparr>es_PausedReason := reason\<rparr>"
  let ?f = "saved_exec ?st (es_CurrentStepID ?st) (es_CompletedSteps ?st) (st_now s)"
  let ?g = "status_exec ExecutionStatusPaused (st_now s)"
  have id: "ex_ID (?f x) = ex_ID x" "ex_ID (?g x) = ex_ID x" for x by (simp_all add: saved_exec_def status_exec_def)
  have dec: "declared_exec_status (ex_Status (?f r))" "declared_exec_status (ex_Status (?g x))" for x
    using execs_ok_rows [OF assms(1,2)] by (simp_all add: saved_exec_def status_exec_def declared_exec_status_def)
  let ?s1 = "s\<lparr>st_execs := sql_update ?P ?f (st_execs s)\<rparr>"
  note w1 = exec_write_by_id [OF assms(1,2), of ?f, OF id(1) dec(1)]
  have s1: "stamp_reason (scanSqliteExecution r) reason s = ?s1"
    using w1(1) assms(3) by (simp add: stamp_reason_def Let_def execSaveStateSnapshot_def)
  have w2: "exec_write (\<lambda>x. ex_ID x = ex_ID (?f r)) ?g ?s1
      = (Inr 1, ?s1\<lparr>st_execs := sql_update (\<lambda>x. ex_ID x = ex_ID (?f r)) ?g (st_execs ?s1)\<rparr>)"
    by (rule exec_write_by_id(1)) (use w1(2,3) id(2) dec(2) in simp_all)
  have "sql_update ?P ?g (sql_update ?P ?f es) = sql_update ?P (\<lambda>x. ?g (?f x)) es" for es
    by (rule sql_update_twice) (simp only: id)
  moreover have "sql_update ?P (\<lambda>x. ?g (?f x)) (st_execs s) = sql_update ?P (\<lambda>x. paused_row reason (st_now s) r) (st_execs s)"
  proof (rule sql_update_cong)
    show "?g (?f x) = paused_row reason (st_now s) r" if "x \<in> set (st_execs s)" "?P x" for x
      using distinct_key_eq [of ex_ID "st_execs s" x r] that assms(1,2) by (simp add: execs_ok_def paused_row_def)
  qed
  ultimately show ?thesis using w2 id(1) by (simp add: execUpdateStatus_def exec_done_def s1)
qed

lemma pause_parks:
  assumes "store_ok (dm_store D)" and "execGetByTaskID i (dm_store D) = Inr ex" and "marshals (loadExecutionState ex)"
    and "stored_task i (dm_store D)" and "dm_active D i \<noteq> None" and "pauseWithReason i PauseReasonShutdown D = (r, D')"
  shows "r = None" "store_ok (dm_store D')" "dom (dm_active D') = dom (dm_active D)"
    "parked i (loadExecutionState ex) (dm_store D')"
    "j \<noteq> i \<Longrightarrow> rows_of j (dm_store D') = rows_of j (dm_store D)"
    "j \<noteq> i \<Longrightarrow> Get j (st_db (dm_store D')) = Get j (st_db (dm_store D))"
    "stored_task j (dm_store D') = stored_task j (dm_store D)"
    "length (st_execs (dm_store D')) = length (st_execs (dm_store D))"
proof -
  let ?s = "dm_store D"
  obtain x where x: "x \<in> set (st_execs ?s)" "ex_TaskID x = i" "ex = scanSqliteExecution x" using assms(2) by (rule latest_row)
  let ?f = "\<lambda>_. paused_row PauseReasonShutdown (st_now ?s) x" and ?P = "\<lambda>y. ex_ID y = ex_ID x"
  let ?s1 = "?s\<lparr>st_execs := sql_update ?P ?f (st_execs ?s)\<rparr>"
  have ok: "execs_ok (st_execs ?s)" "tasks_ok (db_tasks (st_db ?s))" using assms(1) by (simp_all add: store_ok_def)
  have "execUpdateStatus (ex_ID ex) ExecutionStatusPaused (stamp_reason ex PauseReasonShutdown ?s) = (None, ?s1)"
    using pause_execs [OF ok(1) x(1)] assms(3) x(3) by simp
  with assms(2,5,6) have D': "r = None" "D' = cancel_handle i (D\<lparr>dm_store := set_task_status i TaskStatusPaused ?s1\<rparr>)"
    by (auto simp: pauseWithReason_def)
  have st: "dm_store D' = set_task_status i TaskStatusPaused ?s1" using D'(2) by (simp add: cancel_handle_def)
  have decl: "declared_status TaskStatusPaused" by (simp add: declared_status_def)
  note ts = set_task_status_effect [OF decl, where i = i and s = ?s1]
  show "r = None" by (rule D'(1))
  show "dom (dm_active D') = dom (dm_active D)" using D'(2) by (auto simp: cancel_handle_def dom_def)
  have one: "y = x" if "y \<in> set (st_execs ?s)" "?P y" for y
    using distinct_key_eq [of ex_ID "st_execs ?s" y x] that x(1) ok(1) by (simp add: execs_ok_def)
  have "map ex_ID (sql_update ?P ?f (st_execs ?s)) = map ex_ID (st_execs ?s)"
    by (rule map_sql_update) simp
  then have "execs_ok (sql_update ?P ?f (st_execs ?s))"
    using ok(1) by (auto simp: execs_ok_def list_all_iff in_set_sql_update declared_exec_status_def)
  then show "store_ok (dm_store D')" using ts(1) ok(2) by (simp add: store_ok_def st)
  show "length (st_execs (dm_store D')) = length (st_execs ?s)" by (simp add: st)
  show "stored_task j (dm_store D') = stored_task j ?s" using ts(3) [of j] by (simp add: st stored_task_def)
  show "Get j (st_db (dm_store D')) = Get j (st_db ?s)" if "j \<noteq> i" using ts(2) [OF that] by (simp add: st)
  have "filter (\<lambda>e. ex_TaskID e = j) (sql_update ?P ?f es) = filter (\<lambda>e. ex_TaskID e = j) es"
    if "j \<noteq> i" "\<And>y. y \<in> set es \<Longrightarrow> ?P y \<Longrightarrow> y = x" for es
    using that x(2) by (induction es) auto
  then show "rows_of j (dm_store D') = rows_of j ?s" if "j \<noteq> i" using that one by (simp add: st)
  have "stored_task i ?s1" using assms(4) by (simp add: stored_task_def)
  then obtain t where "Get i (st_db (dm_store D')) = Inr t" "task_Status t = TaskStatusPaused"
    using ts(4) ok(2) by (auto simp: st)
  then have "live_task i (dm_store D')" by (simp add: live_task_def)
  moreover have "?f x \<in> set (rows_of i (dm_store D'))" using x(1,2) by (auto simp: st in_set_sql_update)
  ultimately show "parked i (loadExecutionState ex) (dm_store D')"
    unfolding parked_def using paused_row_state [of PauseReasonShutdown "st_now ?s" x] x(3)
    by (intro conjI bexI [of _ "?f x"]) simp_all
qed

lemma pause_only_row:
  assumes "store_ok (dm_store D)" and "rows_of i (dm_store D) = [x]" and "marshals (loadExecutionState x)"
    and "dm_active D i \<noteq> None" and "pauseWithReason i reason D = (r, D')"
  shows "\<forall>z \<in> set (st_execs (dm_store D')). ex_TaskID z = i \<longrightarrow> z = paused_row reason (st_now (dm_store D)) x"
proof -
  let ?s = "dm_store D"
  have "x \<in> set (rows_of i ?s)" by (simp add: assms(2))
  then have x: "x \<in> set (st_execs ?s)" "ex_TaskID x = i" by auto
  have "select_desc (\<lambda>e. ex_TaskID e = i) exec_created (st_execs ?s) = [x]" using assms(2) by (simp add: select_desc_def)
  then have ex: "execGetByTaskID i ?s = Inr (scanSqliteExecution x)" by (simp add: execGetByTaskID_def scan_exec_def query_row_def)
  have "execs_ok (st_execs ?s)" using assms(1) by (simp add: store_ok_def)
  from pause_execs [OF this x(1) assms(3), of reason] ex assms(4,5)
  have "st_execs (dm_store D') = sql_update (\<lambda>y. ex_ID y = ex_ID x) (\<lambda>_. paused_row reason (st_now ?s) x) (st_execs ?s)"
    by (auto simp: pauseWithReason_def cancel_handle_def)
  moreover have "z = x" if "z \<in> set (st_execs ?s)" "ex_TaskID z = i" for z
  proof -
    have "z \<in> set (rows_of i ?s)" using that by simp
    then show ?thesis by (simp add: assms(2))
  qed
  ultimately show ?thesis
  proof (intro ballI impI)
    fix z assume rows: "st_execs (dm_store D') = sql_update (\<lambda>y. ex_ID y = ex_ID x) (\<lambda>_. paused_row reason (st_now ?s) x) (st_execs ?s)"
      and only: "\<And>z. z \<in> set (st_execs ?s) \<Longrightarrow> ex_TaskID z = i \<Longrightarrow> z = x"
      and z: "z \<in> set (st_execs (dm_store D'))" "ex_TaskID z = i"
    from z(1) consider "z \<in> set (st_execs ?s)" "ex_ID z \<noteq> ex_ID x" | "z = paused_row reason (st_now ?s) x"
      unfolding rows in_set_sql_update by blast
    then show "z = paused_row reason (st_now ?s) x" using only [OF _ z(2)] by cases auto
  qed
qed

lemma parked_cong:
  "rows_of j s' = rows_of j s \<Longrightarrow> Get j (st_db s') = Get j (st_db s) \<Longrightarrow> parked j st s' = parked j st s"
  by (simp add: parked_def live_task_def)

text \<open>The tasks that a pause can park: active, with a latest execution whose state can be saved.\<close>

definition pausable :: "(string \<Rightarrow> execution) \<Rightarrow> string \<Rightarrow> daemon \<Rightarrow> bool" where
  "pausable latest i D \<longleftrightarrow> execGetByTaskID i (dm_store D) = Inr (latest i) \<and> marshals (loadExecutionState (latest i)) \<and>
     stored_task i (dm_store D) \<and> dm_active D i \<noteq> None"

lemma shutdown_fold:
  assumes "store_ok (dm_store D)" and "distinct ids" and "\<And>i. i \<in> set ids \<Longrightarrow> pausable latest i D"
    and "D' = fold (\<lambda>i D. snd (pauseWithReason i PauseReasonShutdown D)) ids D"
  shows "store_ok (dm_store D') \<and> length (st_execs (dm_store D')) = length (st_execs (dm_store D)) \<and>
     (\<forall>i \<in> set ids. parked i (loadExecutionState (latest i)) (dm_store D')) \<and>
     (\<forall>j. j \<notin> set ids \<longrightarrow> rows_of j (dm_store D') = rows_of j (dm_store D) \<and> Get j (st_db (dm_store D')) = Get j (st_db (dm_store D)))"
  using assms
proof (induction ids arbitrary: D)
  case (Cons i ids)
  obtain r D1 where p: "pauseWithReason i PauseReasonShutdown D = (r, D1)" by (metis surj_pair)
  have i: "execGetByTaskID i (dm_store D) = Inr (latest i)" "marshals (loadExecutionState (latest i))"
      "stored_task i (dm_store D)" "dm_active D i \<noteq> None"
    using Cons.prems(3) [of i] by (simp_all add: pausable_def)
  note q = pause_parks [OF Cons.prems(1) i p]
  have "pausable latest j D1" if "j \<in> set ids" for j
  proof -
    have "j \<noteq> i" using that Cons.prems(2) by auto
    moreover have "pausable latest j D" using that Cons.prems(3) by simp
    moreover have "j \<in> dom (dm_active D1)" using q(3) \<open>pausable latest j D\<close> by (auto simp: pausable_def)
    ultimately show ?thesis using latest_cong [OF q(5), of j] q(7) [of j] by (auto simp: pausable_def)
  qed
  then have IH: "store_ok (dm_store D') \<and> length (st_execs (dm_store D')) = length (st_execs (dm_store D1)) \<and>
     (\<forall>i \<in> set ids. parked i (loadExecutionState (latest i)) (dm_store D')) \<and>
     (\<forall>j. j \<notin> set ids \<longrightarrow> rows_of j (dm_store D') = rows_of j (dm_store D1) \<and> Get j (st_db (dm_store D')) = Get j (st_db (dm_store D1)))"
    using Cons.IH [of D1] q(2) Cons.prems(2,4) p by simp
  have "i \<notin> set ids" using Cons.prems(2) by simp
  then have "parked i (loadExecutionState (latest i)) (dm_store D')" using IH q(4) parked_cong by blast
  with IH q(5,6,8) show ?case by auto
qed simp


text \<open>
  The reason of a shutdown can be overwritten. Pausing stamps the reason into the saved state and only then
  cancels the goroutine; when a step finishes in between, its checkpoint is written from the goroutine's own
  copy of the state, which carries no reason. The execution stays PAUSED with its task, but recovery no longer
  recognises it: nothing starts it again, where without the checkpoint it would be started.
\<close>

theorem pause_reason_overwritten:
  assumes "store_ok (dm_store D)" and "rows_of i (dm_store D) = [x]" and "marshals (loadExecutionState x)"
    and "stored_task i (dm_store D)" and "dm_active D i \<noteq> None" and "pauseWithReason i PauseReasonShutdown D = (r, D1)"
    and "execSaveStateSnapshot (ex_ID x) st (es_CurrentStepID st) (es_CompletedSteps st) (dm_store D1) = (err, dm_store D2)"
    and "es_PausedReason st = []" and "dm_active D2 i = None" and "length (st_execs (dm_store D)) \<le> 1000"
    and "\<forall>e \<in> set (st_execs (dm_store D2)). unchanged_workflow V e"
  shows "r = None \<and> live_task i (dm_store D2) \<and> (\<forall>e \<in> set (rows_of i (dm_store D2)). ex_Status e = ExecutionStatusPaused) \<and>
     \<not> IsExecuting i (snd (Recover V D2))"
proof -
  let ?s1 = "dm_store D1" and ?s2 = "dm_store D2"
  have "x \<in> set (rows_of i (dm_store D))" by (simp add: assms(2))
  then have x: "x \<in> set (st_execs (dm_store D))" "ex_TaskID x = i" by auto
  have "select_desc (\<lambda>e. ex_TaskID e = i) exec_created (st_execs (dm_store D)) = [x]" using assms(2) by (simp add: select_desc_def)
  then have ex: "execGetByTaskID i (dm_store D) = Inr (scanSqliteExecution x)" by (simp add: execGetByTaskID_def scan_exec_def query_row_def)
  note q = pause_parks [OF assms(1) ex _ assms(4-6), unfolded scan_exec_state, OF assms(3)]
  have ok1: "execs_ok (st_execs ?s1)" using q(2) by (simp add: store_ok_def)
  obtain y where y: "y \<in> set (st_execs ?s1)" "ex_TaskID y = i" "ex_Status y = ExecutionStatusPaused" and live: "live_task i ?s1"
    using q(4) by (auto simp: parked_def)
  have only: "z = y \<and> ex_ID y = ex_ID x" if "z \<in> set (st_execs ?s1)" "ex_TaskID z = i" for z
    using pause_only_row [OF assms(1,2,3,5,6)] that y by (metis paused_row_simps(1))
  let ?f = "saved_exec st (es_CurrentStepID st) (es_CompletedSteps st) (st_now ?s1)"
  have f: "ex_ID (?f z) = ex_ID z" "ex_Status (?f z) = ex_Status z" for z by (simp_all add: saved_exec_def)
  have "declared_exec_status (ex_Status (?f y))" using y(3) f(2) by (simp add: declared_exec_status_def)
  note w = exec_write_by_id [OF ok1 y(1), of ?f, OF f(1) this]
  have "?s2 = snd (exec_write (\<lambda>z. ex_ID z = ex_ID x) ?f ?s1)"
    using assms(7) unfolding execSaveStateSnapshot_def by (metis snd_conv snd_exec_done)
  then have "?s2 = ?s1\<lparr>st_execs := sql_update (\<lambda>z. ex_ID z = ex_ID y) ?f (st_execs ?s1)\<rparr>"
    using w(1) only [OF y(1,2)] by simp
  with w(2) have s2: "st_execs ?s2 = sql_update (\<lambda>z. ex_ID z = ex_ID y) ?f (st_execs ?s1)" "st_db ?s2 = st_db ?s1" "execs_ok (st_execs ?s2)"
    by simp_all
  have rows: "e = ?f y" if "e \<in> set (rows_of i ?s2)" for e
  proof -
    have "e \<in> set (st_execs ?s2)" "ex_TaskID e = i" using that by simp_all
    moreover have "ex_TaskID (?f z) = ex_TaskID z" for z by (simp add: saved_exec_def)
    ultimately show ?thesis unfolding s2(1) in_set_sql_update using only by metis
  qed
  have "loadExecutionState (?f y) = st" by (rule loadExecutionState_saved) (simp_all add: saved_exec_def)
  then have "\<not> auto_resumable (?f y)" using assms(8) by (simp add: auto_resumable_def PauseReasonShutdown_def PauseReasonRetryFromStep_def)
  moreover have paused: "ex_Status (?f y) = ExecutionStatusPaused" using y(3) by (simp add: saved_exec_def)
  ultimately have "\<not> wants_recovery V ?s2 e" if "e \<in> set (st_execs ?s2)" "ex_TaskID e = i" for e
    using rows [of e] that by (auto simp: wants_recovery_def)
  moreover have "length (st_execs ?s2) \<le> 1000" using assms(10) q(8) by (simp add: s2(1))
  ultimately have "\<not> IsExecuting i (snd (Recover V D2))"
    using recover_exact [OF s2(3) assms(11), of "fst (Recover V D2)" "snd (Recover V D2)" i] assms(9) by (auto simp: IsExecuting_def)
  moreover have "live_task i ?s2" using live s2(2) by (simp add: live_task_def)
  ultimately show ?thesis using q(1) rows paused by auto
qed

section \<open>A concrete daemon\<close>

definition demo_daemon_env :: daemon_env where
  "demo_daemon_env = \<lparr>dv_generateID = (\<lambda>s. (''exec_1'', s)), dv_forkTarget = (\<lambda>_. None), dv_container = Some (\<lambda>_. None),
     dv_workflowHash = None, dv_quote = quote_ascii, dv_engine = base_engine store_repo (\<lambda>_. Inr ''{}'')\<rparr>"

text \<open>One running task, its execution and a daemon that has it active.\<close>

definition demo_task_row :: task where
  "demo_task_row = wake_parent\<lparr>task_Status := TaskStatusRunning\<rparr>"

definition demo_store :: "execution_status \<Rightarrow> store" where
  "demo_store st = \<lparr>st_db = wake_db\<lparr>db_tasks := [demo_task_row]\<rparr>, st_execs = [(demo_exec ''build'' 0)\<lparr>ex_Status := st\<rparr>]\<rparr>"

definition idle_daemon :: "store \<Rightarrow> daemon" where
  "idle_daemon s = \<lparr>dm_store = s, dm_active = Map.empty, dm_shuttingDown = False, dm_runs = []\<rparr>"

definition busy_daemon :: daemon where
  "busy_daemon = start_run False demo_task_row (demo_exec ''build'' 0) (idle_daemon (demo_store ExecutionStatusRunning))"

lemmas demo_daemon_defs = demo_daemon_env_def demo_task_row_def demo_store_def idle_daemon_def busy_daemon_def start_run_def
  demo_exec_def wake_db_def wake_parent_def

lemma demo_store_ok: "store_ok (demo_store ExecutionStatusRunning)"
  by (simp add: store_ok_def demo_store_def demo_task_row_def demo_exec_def wake_parent_def wake_db_def execs_ok_def declared_exec_status_def
      tasks_ok_def zero_task_def idem_keys_def row_check_def declared_status_def creation_source_check_def delegation_mode_check_def)



lemma busy_daemon_facts:
  "store_ok (dm_store busy_daemon)" "pausable (\<lambda>_. scanSqliteExecution (demo_exec ''build'' 0)) ''parent'' busy_daemon"
  "rows_of ''parent'' (dm_store busy_daemon) = [demo_exec ''build'' 0]" "dm_active busy_daemon ''parent'' \<noteq> None"
  "length (st_execs (dm_store busy_daemon)) \<le> 1000" "stored_task ''parent'' (dm_store busy_daemon)"
proof -
  have e: "(demo_exec ''build'' 0)\<lparr>ex_Status := ExecutionStatusRunning\<rparr> = demo_exec ''build'' 0" by (simp add: demo_exec_def)
  have st: "dm_store busy_daemon = demo_store ExecutionStatusRunning" by (simp add: busy_daemon_def idle_daemon_def)
  show "store_ok (dm_store busy_daemon)" using demo_store_ok by (simp add: st)
  show r: "rows_of ''parent'' (dm_store busy_daemon) = [demo_exec ''build'' 0]" unfolding st demo_store_def e by (simp add: demo_exec_def)
  show a: "dm_active busy_daemon ''parent'' \<noteq> None" by (simp add: busy_daemon_def start_run_def demo_task_row_def wake_parent_def)
  show "length (st_execs (dm_store busy_daemon)) \<le> 1000" by (simp add: st demo_store_def)
  show t: "stored_task ''parent'' (dm_store busy_daemon)"
    by (simp add: stored_task_def st demo_store_def demo_task_row_def wake_parent_def)
  have "marshals (loadExecutionState (demo_exec ''build'' 0))" by code_simp
  with r a t show "pausable (\<lambda>_. scanSqliteExecution (demo_exec ''build'' 0)) ''parent'' busy_daemon"
    by (simp add: pausable_def execGetByTaskID_def select_desc_def scan_exec_def query_row_def)
qed


theorem pause_reason_overwritten_witness:
  "\<exists>r D1 err s2. pauseWithReason ''parent'' PauseReasonShutdown busy_daemon = (r, D1) \<and>
     execSaveStateSnapshot ''e'' zero_state [] [] (dm_store D1) = (err, s2) \<and>
     \<not> IsExecuting ''parent'' (snd (Recover demo_daemon_env (idle_daemon s2)))"
proof -
  let ?x = "demo_exec ''build'' 0"
  obtain r D1 where p: "pauseWithReason ''parent'' PauseReasonShutdown busy_daemon = (r, D1)" by (metis surj_pair)
  obtain err s2 where w: "execSaveStateSnapshot ''e'' zero_state [] [] (dm_store D1) = (err, s2)" by (metis surj_pair)
  have m: "marshals (loadExecutionState ?x)" using busy_daemon_facts(2) by (simp add: pausable_def)
  have w': "execSaveStateSnapshot (ex_ID ?x) zero_state (es_CurrentStepID zero_state) (es_CompletedSteps zero_state) (dm_store D1)
      = (err, dm_store (idle_daemon s2))" using w by (simp add: zero_state_def idle_daemon_def demo_exec_def)
  have z: "es_PausedReason zero_state = []" "dm_active (idle_daemon s2) ''parent'' = None" by (simp_all add: zero_state_def idle_daemon_def)
  have "\<forall>e \<in> set (st_execs (dm_store (idle_daemon s2))). unchanged_workflow demo_daemon_env e"
    by (simp add: unchanged_workflow_def demo_daemon_env_def)
  from pause_reason_overwritten [OF busy_daemon_facts(1,3) m busy_daemon_facts(6,4) p w' z busy_daemon_facts(5) this] p w
  show ?thesis by blast
qed

end
