(* ===== verification/ExecutorProps.thy ===== *)
theory ExecutorProps
  imports ExecutorRun
begin

text \<open>
  Properties of one execution: how many workflow attempts it makes, what its finalisers write over, and how a
  recovered execution is released.
\<close>

section \<open>A concrete environment\<close>

text \<open>
  Executions over the SQLite task table: \<open>isdone\<close> tells whether the context is done; side effects on other
  parts of the system do nothing.
\<close>

definition demo_env :: "(db \<Rightarrow> bool) \<Rightarrow> db agent \<Rightarrow> db run_env" where
  "demo_env isdone agent = \<lparr>
     rn_engine = (demo_engine (\<lambda>_. Inr ''{}''))\<lparr>en_agent := agent,
       en_repo := ctx_repo isdone (ErrOther ''context deadline exceeded'') (sqlite_repo (<))\<rparr>,
     rn_bg = sqlite_repo (<), rn_Update = (\<lambda>t d. if isdone d then d else snd (Update (Some t) d)),
     rn_Create = (\<lambda>t d. if isdone d then (Some (ErrOther ''context deadline exceeded''), d)
        else (case Create (Some t) d of (Inl e, d') \<Rightarrow> (Some e, d') | (Inr _, d') \<Rightarrow> (None, d'))),
     rn_isShuttingDown = (\<lambda>_. False), rn_sweepPendingOutcomes = (\<lambda>_ _ d. d), rn_RecordCompletion = (\<lambda>_ _ d. d),
     rn_RecordFailure = (\<lambda>_ _ _ d. d), rn_execUpdate = (\<lambda>_ d. d), rn_SupersedeNonTerminal = (\<lambda>_ d. d),
     rn_settleBudgetReservation = (\<lambda>_ d. d), rn_resolveCrossProjectCall = (\<lambda>_ _ d. d), rn_ingest = (\<lambda>_ _ _ d. d),
     rn_circuitBreaker = None, rn_notify = (\<lambda>_ _ _ d. d), rn_judge = (\<lambda>_ d. d), rn_resultMessage = (\<lambda>_. []),
     rn_resolveExecutionPlan = (\<lambda>_ ex d. (Inr (demo_plan, ex), d)), rn_setupWorkspace = (\<lambda>d. d),
     rn_mergeWorktree = (\<lambda>d. (None, d)), rn_discardWorkspace = (\<lambda>d. d), rn_resetWorkspace = (\<lambda>_ d. d),
     rn_freshWorkspace = (\<lambda>d. d), rn_worktreeDir = (\<lambda>_. ''wt''), rn_retryDelay = (\<lambda>d. (None, d)),
     rn_handoffFinalization = (\<lambda>_ _ _ _ d. d), rn_generateID = (\<lambda>d. (''task_1'', d)), rn_now = db_now,
     rn_extractPrompt = (\<lambda>_. []), rn_continuationPayload = (\<lambda>p. p), rn_WithTimeout = (\<lambda>_ d. d), rn_MaxRetries = 2,
     rn_DefaultTimeout = Minute\<rparr>"

definition run_task :: task where
  "run_task = wake_parent\<lparr>task_Status := TaskStatusLeased, task_Attempt := 1\<rparr>"

definition run_db :: db where
  "run_db = wake_db\<lparr>db_tasks := [run_task\<lparr>task_Status := TaskStatusRunning\<rparr>, wake_child]\<rparr>"

text \<open>An agent that always fails, retryably or for good.\<close>

definition failing_agent :: "bool \<Rightarrow> wrapped list \<Rightarrow> db agent" where
  "failing_agent again chain = (\<lambda>_ d. (([], [], Some \<lparr>se_msg = ''container exited'', se_retryable = again, se_chain = chain\<rparr>), d))"

text \<open>An agent that is still running when the deadline passes.\<close>

definition slow_agent :: "db agent" where
  "slow_agent = (\<lambda>_ d. (([], [], Some \<lparr>se_msg = ''context deadline exceeded'', se_retryable = False, se_chain = [WrapsDeadline]\<rparr>), d\<lparr>db_now := 2 * Hour\<rparr>))"

section \<open>The attempt budget\<close>

lemma reset_counters_pair: obtains ex1 s1 where "reset_counters L a ex s = (ex1, s1)"
  by (metis surj_pair)

lemma retry_loop_stuck: "\<not> a < m \<Longrightarrow> retry_loop L plan task m le a ex s = (EndFailed le, a, [], ex, s)"
  by (subst retry_loop.simps) simp

text \<open>One turn of the loop: it ends with this attempt, or goes on after a retryable error with budget left.\<close>

lemma retry_loop_turn:
  assumes "retry_loop L plan task m le a ex s = (how, a', lgs, ex', s')" and "a < m"
  obtains (ended) lg where "a' = a + 1" "lgs = [lg]" "how = EndCancelled \<longrightarrow> isTaskCancelled L (task_ID task) s'"
  | (again) e lg lgs' ex2 s3 where "a + 1 < m" "lgs = lg # lgs'" "se_retryable e"
      "retry_loop L plan task m (Some e) (a + 1) ex2 s3 = (how, a', lgs', ex', s')"
proof -
  obtain ex1 s1 where r: "reset_counters L (a + 1) ex s = (ex1, s1)" by (rule reset_counters_pair)
  obtain cid result completed err ex2 lg s2 where at:
    "executeWorkflowAttempt (rn_engine L) plan task ex1 (rn_DefaultTimeout L) s1 = ((cid, result, completed, err), ex2, lg, s2)"
    by (metis surj_pair)
  note run = assms(1) [unfolded retry_loop.simps [of L plan task m le a ex s], simplified assms(2) r at if_True prod.case not_True_eq_False if_False]
  show thesis
  proof (cases err)
    case None
    with run show thesis by (intro ended [of lg]) (auto split: prod.splits option.splits)
  next
    case (Some e)
    show thesis
    proof (cases "WrapsPaused \<in> set (se_chain e) \<or> IsLeadHandoff e \<or> rn_isShuttingDown L s2 \<or>
        WrapsCanceled \<in> set (se_chain e) \<and> isTaskCancelled L (task_ID task) s2 \<or> \<not> shouldRetry (Some e) \<or> m \<le> a + 1")
      case True
      with Some run show thesis by (intro ended [of lg]) (auto split: if_splits)
    next
      case False
      obtain ce s3 where d: "rn_retryDelay L (rn_freshWorkspace L s2) = (ce, s3)" by (metis surj_pair)
      obtain r where rec: "retry_loop L plan task m (Some e) (a + 1) ex2 s3 = r" by blast
      obtain how0 a0 lgs0 ex0 s0 where r: "r = (how0, a0, lgs0, ex0, s0)" by (metis surj_pair)
      have ret: "se_retryable e" using False by (auto simp: shouldRetry_def split: if_splits)
      show thesis
      proof (cases ce)
        case None
        then have "how = how0" "a' = a0" "lgs = lg # lgs0" "ex' = ex0" "s' = s0"
          using run Some False d rec r by auto
        with rec r ret False show thesis by (intro again [of lg lgs0 e ex2 s3]) auto
      next
        case (Some x)
        then show thesis using run \<open>err = Some e\<close> False d by (intro ended [of lg]) auto
      qed
    qed
  qed
qed

lemma retry_loop_count:
  assumes "retry_loop L plan task m le a ex s = (how, a', lgs, ex', s')" and "a < m"
  shows "a' = a + int (length lgs) \<and> a' \<le> m \<and> lgs \<noteq> []"
  using assms
proof (induction lgs arbitrary: le a ex s)
  case Nil
  from Nil.prems show ?case by (cases rule: retry_loop_turn) auto
next
  case (Cons lg lgs)
  from Cons.prems show ?case
  proof (cases rule: retry_loop_turn)
    case (again e lg0 lgs' ex2 s3)
    with Cons.IH [of "Some e" "a + 1" ex2 s3] show ?thesis by auto
  qed (use Cons.prems in auto)
qed

lemma handleFailure_fst:
  "fst (handleFailure L task ex err s) = (if paused_by_operator L task s then task else failed_task task err)"
  unfolding handleFailure_def Let_def by simp

lemma failed_task_simps [simp]:
  "task_ID (failed_task t err) = task_ID t" "task_Attempt (failed_task t err) = task_Attempt t"
  "task_MaxAttempts (failed_task t err) = task_MaxAttempts t" "task_LeaseID (failed_task t err) = task_LeaseID t"
  "task_LeasedAt (failed_task t err) = task_LeasedAt t" "task_LeasedBy (failed_task t err) = task_LeasedBy t"
  "task_LeaseExpiresAt (failed_task t err) = task_LeaseExpiresAt t"
  "task_ParentTaskID (failed_task t err) = task_ParentTaskID t" "taskWillRetry (failed_task t err) = taskWillRetry t"
  "task_ProjectID (failed_task t err) = task_ProjectID t" "task_IdempotencyKey (failed_task t err) = task_IdempotencyKey t"
  "task_CreationSource (failed_task t err) = task_CreationSource t" "task_DelegationMode (failed_task t err) = task_DelegationMode t"
  by (simp_all add: failed_task_def taskWillRetry_def Let_def)

lemma failed_task_status: "task_Status (failed_task t err) = (if taskWillRetry t then task_Status t else TaskStatusFailed)"
  by (simp add: failed_task_def taskWillRetry_def Let_def)

lemma count_attempts_simps [simp]:
  "task_Attempt (count_attempts t a) = max (task_Attempt t) a" "task_MaxAttempts (count_attempts t a) = task_MaxAttempts t"
  "task_Status (count_attempts t a) = task_Status t" "task_ID (count_attempts t a) = task_ID t"
  "task_ParentTaskID (count_attempts t a) = task_ParentTaskID t"
  by (simp_all add: count_attempts_def)

lemma paused_count [simp]: "paused_by_operator L (count_attempts t a) s = paused_by_operator L t s"
  by (simp add: paused_by_operator_def)

lemma finish_failed_elim:
  assumes "finish_failed L task a e ex s = (t', s')" and "\<not> paused_by_operator L task (snd (salvage L e s))"
  obtains keep s1 s2 where "salvage L e s = (keep, s1)" "t' = failed_task (count_attempts task a) e"
    "s' = (if keep then snd (scheduleCheckpointFollowUp L t' (case ex_CurrentStepID ex of Some c \<Rightarrow> c | None \<Rightarrow> []) s2) else s2)"
proof -
  obtain keep s1 where k: "salvage L e s = (keep, s1)" by (metis surj_pair)
  obtain t s2 where h: "handleFailure L (count_attempts task a) ex e s1 = (t, s2)" by (metis surj_pair)
  have "t = failed_task (count_attempts task a) e"
    using handleFailure_fst [of L "count_attempts task a" ex e s1] h k assms(2) by simp
  with k h assms(1) show thesis by (intro that [of keep s1 s2]) (auto simp: finish_failed_def)
qed



section \<open>Retrying after a failure terminal\<close>

lemma reset_counters_position:
  assumes "reset_counters L a ex s = (ex1, s1)" and "ex_CurrentStepID ex = Some c"
    and "es_CurrentStepID (loadExecutionState ex) = c" and "c \<noteq> []"
  shows "ex_CurrentStepID ex1 = Some c"
  using assms by (auto simp: reset_counters_def saveExecutionState_def Let_def split: if_splits prod.splits)

lemma attempt_at_failure_terminal:
  assumes "ex_CurrentStepID ex = Some c" and "c \<noteq> []" and "wf_Terminals (pl_workflow plan) c = Some terminal"
    and "wt_Status terminal = ''FAILED''"
  shows "\<exists>s'. executeWorkflowAttempt E plan task ex timeout s
      = (([], [], ex_CompletedSteps ex, Some (plain_err (failure_detail terminal (ex_CompletedSteps ex) []))), ex, [], s')"
  using assms
  by (simp add: executeWorkflowAttempt_def Let_def start_position_def attempt_loop.simps resolveTerminalOutcome_def)

text \<open>
  What a retry does after a run reached a failure terminal. The terminal's name is saved as the execution's
  position before it is reached, and the retry keeps the position. However many attempts are left, and however
  transient the error was, the next attempt starts at the terminal: it dispatches no step, fails without the
  original error, is not retryable, and ends the loop with one attempt of the budget spent on nothing.
\<close>

theorem retry_after_failure_terminal:
  assumes "dispatch_step (rn_engine L) plan task step t l s = (Move l', s')" and "plan_follows (rn_engine L)"
    and "\<not> (ws_Type step = ''agent'' \<and> isStrictRouteStep (pl_workflow plan) (ls_current l))"
    and "ls_current l' \<noteq> []" and "wf_Terminals (pl_workflow plan) (ls_current l') = Some terminal"
    and "wt_Status terminal = ''FAILED''" and "\<forall>s. \<not> rn_isShuttingDown L s" and "a < m"
  shows "\<exists>e ex' s''. retry_loop L plan task m le a (ls_exec l') s1 = (EndFailed (Some e), a + 1, [[]], ex', s'') \<and> \<not> se_retryable e"
proof -
  let ?c = "ls_current l'"
  have "good_move step l'" by (rule dispatch_step_Move(2) [OF assms(1,2,3)])
  then have pos: "ex_CurrentStepID (ls_exec l') = Some ?c" "es_CurrentStepID (loadExecutionState (ls_exec l')) = ?c"
    using assms(4) by (simp_all add: good_move_def saved_at_def loadExecutionState_def Let_def)
  obtain ex1 s2 where r: "reset_counters L (a + 1) (ls_exec l') s1 = (ex1, s2)" by (rule reset_counters_pair)
  from reset_counters_position [OF r pos assms(4)] have "ex_CurrentStepID ex1 = Some ?c" .
  from attempt_at_failure_terminal [OF this assms(4-6), of "rn_engine L" task "rn_DefaultTimeout L" s2] obtain s3 where
    "executeWorkflowAttempt (rn_engine L) plan task ex1 (rn_DefaultTimeout L) s2
      = (([], [], ex_CompletedSteps ex1, Some (plain_err (failure_detail terminal (ex_CompletedSteps ex1) []))), ex1, [], s3)" ..
  with r assms(7,8) show ?thesis
    by (subst retry_loop.simps) (simp add: IsLeadHandoff_def shouldRetry_def)
qed

theorem retry_after_failure_terminal_witness:
  "\<exists>ex e ex' d. retry_loop (demo_env (\<lambda>_. False) (failing_agent True [])) demo_plan run_task 3 None 1 ex run_db
     = (EndFailed (Some e), 2, [[]], ex', d)"
proof -
  let ?L = "demo_env (\<lambda>_. False) (failing_agent True [])" and ?step = "plain_step ''agent'' ''done'' ''failed''"
  have "case dispatch_step (rn_engine ?L) demo_plan run_task ?step Minute demo_position run_db of
      (Move l', _) \<Rightarrow> ls_current l' = ''failed'' | (Stop _ _, _) \<Rightarrow> False" by code_simp
  then obtain l' s' where d: "dispatch_step (rn_engine ?L) demo_plan run_task ?step Minute demo_position run_db = (Move l', s')"
    and c: "ls_current l' = ''failed''" by (auto split: prod.splits step_outcome.splits)
  have f: "plan_follows (rn_engine ?L)" by (simp add: plan_follows_def demo_env_def base_engine_def)
  have n: "\<not> (ws_Type ?step = ''agent'' \<and> isStrictRouteStep (pl_workflow demo_plan) (ls_current demo_position))"
    by (simp add: isStrictRouteStep_def demo_plan_def demo_workflow_def)
  have t: "wf_Terminals (pl_workflow demo_plan) (ls_current l') = Some \<lparr>wt_Status = ''FAILED'', wt_Message = [], wt_Recovery = False\<rparr>"
    using c by (simp add: demo_plan_def demo_workflow_def)
  have "\<forall>d. \<not> rn_isShuttingDown ?L d" by (simp add: demo_env_def)
  with retry_after_failure_terminal [OF d f n _ t, of 1 3 None run_db] c show ?thesis by auto
qed

section \<open>Continuations\<close>

text \<open>
  A run that hit the tool-iteration limit schedules its continuation even when the task itself will be run again:
  the code calls it after the task ``is marked FAILED'', but with attempts left it is not, and the scheduler
  queues it once more beside the continuation.
\<close>

theorem continuation_beside_retry:
  assumes "ClassifyExecutionFailure e [] = TaskFailureClassToolIterationLimit"
    and "rn_mergeWorktree L s = (None, s1)" and "task_Attempt task \<le> a" and "a < task_MaxAttempts task"
    and "\<not> paused_by_operator L task (snd (salvage L e s))"
    and "finish_failed L task a e ex s = (t', s')" and "0 < task_MaxAttempts task"
  shows "taskWillRetry t' \<and> task_Status t' = task_Status task
       \<and> (\<exists>c s2. s' = snd (scheduleCheckpointFollowUp L t' c s2))"
proof -
  from assms(6,5) obtain keep s1' s2 where k: "salvage L e s = (keep, s1')" "t' = failed_task (count_attempts task a) e"
    "s' = (if keep then snd (scheduleCheckpointFollowUp L t' (case ex_CurrentStepID ex of Some c \<Rightarrow> c | None \<Rightarrow> []) s2) else s2)"
    by (elim finish_failed_elim) auto
  have "keep" using k(1) assms(1,2) by (auto simp: salvage_def)
  moreover have "taskWillRetry t'" using k(2) assms(3,4,7) by (simp add: taskWillRetry_def)
  ultimately show ?thesis using k by (auto simp: failed_task_status)
qed


theorem continuation_beside_retry_witness:
  "\<exists>e t' d' c d2. finish_failed (demo_env (\<lambda>_. False) (failing_agent False [])) run_task 1 e (demo_exec ''build'' 0) run_db = (t', d')
     \<and> taskWillRetry t' \<and> d' = snd (scheduleCheckpointFollowUp (demo_env (\<lambda>_. False) (failing_agent False [])) t' c d2)"
proof -
  let ?L = "demo_env (\<lambda>_. False) (failing_agent False [])"
  let ?e = "Some \<lparr>se_msg = [], se_retryable = False, se_chain = [WrapsClass TaskFailureClassToolIterationLimit]\<rparr>"
  have c: "ClassifyExecutionFailure ?e [] = TaskFailureClassToolIterationLimit" by code_simp
  have m: "rn_mergeWorktree ?L run_db = (None, run_db)" by (simp add: demo_env_def)
  have p: "\<not> paused_by_operator ?L run_task (snd (salvage ?L ?e run_db))" by code_simp
  have t: "task_Attempt run_task \<le> 1" "1 < task_MaxAttempts run_task" "0 < task_MaxAttempts run_task"
    by (simp_all add: run_task_def wake_parent_def)
  obtain t' d' where f: "finish_failed ?L run_task 1 ?e (demo_exec ''build'' 0) run_db = (t', d')" by (metis surj_pair)
  from continuation_beside_retry [OF c m t(1,2) p f t(3)] f show ?thesis by blast
qed

text \<open>\<open>t\<close> is the \<open>k\<close>-th continuation of a task that is none itself.\<close>

fun continuation_of :: "'s task_repo \<Rightarrow> 's \<Rightarrow> nat \<Rightarrow> task \<Rightarrow> bool" where
  "continuation_of R s 0 t \<longleftrightarrow> task_CreationSource t \<noteq> TaskCreationSourceCheckpoint"
| "continuation_of R s (Suc k) t \<longleftrightarrow> task_CreationSource t = TaskCreationSourceCheckpoint \<and>
     (case task_ParentTaskID t of
        None \<Rightarrow> False
      | Some p \<Rightarrow> (case tr_Get R p s of Inl _ \<Rightarrow> False | Inr parent \<Rightarrow> continuation_of R s k parent))"

lemma count_checkpoints_chain:
  "continuation_of R s (Suc k) t \<Longrightarrow> count_checkpoints R g d t s = Inr (d + min k g)"
proof (induction g arbitrary: k d t)
  case (Suc g)
  then obtain p parent where p: "task_ParentTaskID t = Some p" "tr_Get R p s = Inr parent" "continuation_of R s k parent"
    by (auto split: option.splits sum.splits)
  show ?case
  proof (cases k)
    case 0
    with p show ?thesis by simp
  next
    case (Suc j)
    with p Suc.IH [of j parent "d + 1"] show ?thesis by simp
  qed
qed simp

text \<open>
  How long a chain of continuations gets. The \<open>k\<close>-th continuation of a task that again runs out of tool
  iterations is continued exactly when \<open>k\<close> is at most three, so a task can get four continuations, one more
  than the cap of three speaks of: the depth counts the continuations above the failing task, not the failing
  task itself. From the fourth on, nothing is created.
\<close>

theorem continuation_chain_length:
  assumes "continuation_of (en_repo (rn_engine L)) s k t" and "1 \<le> k"
    and "rn_generateID L s = (i, s1)" and "rn_Create L (continuation_task L t step i (rn_now L s1)) s1 = (None, s2)"
  shows "scheduleCheckpointFollowUp L t step s = (if k \<le> 3 then (Inr i, s2)
           else (Inl (''checkpoint depth '' @ show_nat (min (k - 1) 7) @ '' reached cap 3 '' @
                   map char_of [226, 128, 148 :: nat] @ '' refusing further continuation''), s))"
proof -
  obtain j where j: "k = Suc j" using assms(2) by (cases k) auto
  have "countCheckpointDepth (en_repo (rn_engine L)) t s = Inr (min j 7)"
    using count_checkpoints_chain [of "en_repo (rn_engine L)" s j t] assms(1) j
    by (simp add: countCheckpointDepth_def maxCheckpointDepth_def)
  moreover have "show_nat 3 = ''3''" by code_simp
  ultimately show ?thesis using assms(3,4) j
    by (auto simp: scheduleCheckpointFollowUp_def Let_def maxCheckpointDepth_def)
qed

text \<open>A store whose schema admits continuations, holding a task and its first three.\<close>

definition chain_task :: "string \<Rightarrow> task" where
  "chain_task i = zero_task\<lparr>task_ID := i, task_ProjectID := ''p'', task_ParentTaskID := (if i = ''u'' then None else Some (tl i)),
     task_CreationSource := (if i = ''u'' then TaskCreationSourceUser else TaskCreationSourceCheckpoint)\<rparr>"

definition chain_db :: db where
  "chain_db = wake_db\<lparr>db_tasks := map chain_task [''u'', ''cu'', ''ccu'', ''cccu'']\<rparr>"

definition chain_env :: "db run_env" where
  "chain_env = (demo_env (\<lambda>_. False) (failing_agent False []))\<lparr>rn_Create := (\<lambda>t d. (None, d\<lparr>db_tasks := db_tasks d @ [t]\<rparr>))\<rparr>"

theorem continuation_chain_length_witness:
  "fst (scheduleCheckpointFollowUp chain_env (chain_task ''cccu'') ''build'' chain_db) = Inr ''task_1''"
proof -
  have "continuation_of (en_repo (rn_engine chain_env)) chain_db 3 (chain_task ''cccu'')" by code_simp
  moreover have "rn_generateID chain_env chain_db = (''task_1'', chain_db)" by (simp add: chain_env_def demo_env_def)
  moreover have "rn_Create chain_env t chain_db = (None, chain_db\<lparr>db_tasks := db_tasks chain_db @ [t]\<rparr>)" for t
    by (simp add: chain_env_def)
  ultimately show ?thesis using continuation_chain_length [of chain_env chain_db 3 "chain_task ''cccu''" "''task_1''" chain_db] by simp
qed

text \<open>
  On the SQLite store no continuation is ever created: the table's check on the creation source lists no
  CHECKPOINT, so the insert fails and the partial work is merged with nothing to go on from it.
\<close>

theorem sqlite_has_no_continuations:
  assumes "\<forall>t d. rn_Create L t d = (case Create (Some t) d of (Inl e, d') \<Rightarrow> (Some e, d') | (Inr _, d') \<Rightarrow> (None, d'))"
    and "\<forall>d. db_tasks (snd (rn_generateID L d)) = db_tasks d"
    and "scheduleCheckpointFollowUp L t step d = (r, d')"
  shows "isl r \<and> db_tasks d' = db_tasks d"
proof -
  obtain i d1 where g: "rn_generateID L d = (i, d1)" by (metis surj_pair)
  have "task_CreationSource (continuation_task L t step i (rn_now L d1)) = TaskCreationSourceCheckpoint"
    by (simp add: continuation_task_def Let_def)
  then have "rn_Create L (continuation_task L t step i (rn_now L d1)) d1 = (Some (ErrConstraint ''tasks''), d1)"
    using assms(1) by (simp add: create_refuses_checkpoint_and_fork)
  moreover have "db_tasks d1 = db_tasks d" using assms(2) g by (metis snd_conv)
  ultimately show ?thesis using assms(3) g
    by (auto simp: scheduleCheckpointFollowUp_def Let_def split: if_splits)
qed

theorem sqlite_has_no_continuations_witness:
  "isl (fst (scheduleCheckpointFollowUp (demo_env (\<lambda>_. False) (failing_agent False [])) run_task ''build'' run_db))"
proof -
  let ?L = "demo_env (\<lambda>_. False) (failing_agent False [])"
  have "\<forall>t d. rn_Create ?L t d = (case Create (Some t) d of (Inl e, d') \<Rightarrow> (Some e, d') | (Inr _, d') \<Rightarrow> (None, d'))"
    "\<forall>d. db_tasks (snd (rn_generateID ?L d)) = db_tasks d" by (simp_all add: demo_env_def)
  from sqlite_has_no_continuations [OF this prod.collapse [symmetric]] show ?thesis by blast
qed

section \<open>A context that is done\<close>

text \<open>The effects of an execution that leave a part of the state (\<open>view\<close>) as it is.\<close>

definition spares_view :: "('s \<Rightarrow> 'v) \<Rightarrow> 's run_env \<Rightarrow> bool" where
  "spares_view view L \<longleftrightarrow>
     (\<forall>i r s. view (rn_sweepPendingOutcomes L i r s) = view s) \<and> (\<forall>i r s. view (rn_RecordCompletion L i r s) = view s) \<and>
     (\<forall>i m c s. view (rn_RecordFailure L i m c s) = view s) \<and> (\<forall>i s. view (rn_SupersedeNonTerminal L i s) = view s) \<and>
     (\<forall>i s. view (rn_settleBudgetReservation L i s) = view s) \<and> (\<forall>t b s. view (rn_resolveCrossProjectCall L t b s) = view s) \<and>
     (\<forall>t x r s. view (rn_ingest L t x r s) = view s) \<and>
     (\<forall>trip t c s. rn_circuitBreaker L = Some trip \<longrightarrow> view (trip t c s) = view s) \<and>
     (\<forall>t b m s. view (rn_notify L t b m s) = view s) \<and> (\<forall>t s. view (rn_judge L t s) = view s) \<and>
     (\<forall>s. view (snd (rn_mergeWorktree L s)) = view s) \<and> (\<forall>s. view (rn_discardWorkspace L s) = view s) \<and>
     (\<forall>b s. view (rn_resetWorkspace L b s) = view s) \<and>
     (\<forall>t x c r s. view (rn_handoffFinalization L t x c r s) = view s) \<and> (\<forall>s. view (snd (rn_generateID L s)) = view s) \<and>
     (\<forall>i st s. view (snd (en_execUpdateStatus (rn_engine L) i st s)) = view s)"

text \<open>What is written to the tasks through the context is dropped once the context is done.\<close>

definition writes_through_context :: "('s \<Rightarrow> bool) \<Rightarrow> repo_error \<Rightarrow> 's task_repo \<Rightarrow> 's run_env \<Rightarrow> bool" where
  "writes_through_context isdone e R L \<longleftrightarrow> en_repo (rn_engine L) = ctx_repo isdone e R \<and>
     (\<forall>t s. isdone s \<longrightarrow> rn_Update L t s = s) \<and> (\<forall>t s. isdone s \<longrightarrow> snd (rn_Create L t s) = s)"

lemma ctx_repo_done:
  assumes "isdone s"
  shows "checkParentUnblock (ctx_repo isdone e R) p s = s" "snd (tr_UpdateStatus (ctx_repo isdone e R) i st s) = s"
    "tr_Get (ctx_repo isdone e R) i s = Inl e"
  using assms
  by (simp_all add: ctx_repo_def checkParentUnblock_def unblockParentIfChildrenDone_def unblock_read_def split: option.split)


lemma spares_view_simps:
  assumes "spares_view view L"
  shows "view (rn_sweepPendingOutcomes L i r s) = view s" "view (rn_RecordCompletion L i r s) = view s"
    "view (rn_RecordFailure L i m c s) = view s" "view (rn_SupersedeNonTerminal L i s) = view s"
    "view (rn_settleBudgetReservation L i s) = view s" "view (rn_resolveCrossProjectCall L t b s) = view s"
    "view (rn_ingest L t x r s) = view s" "rn_circuitBreaker L = Some trip \<Longrightarrow> view (trip t c s) = view s"
    "view (rn_notify L t b m s) = view s" "view (rn_judge L t s) = view s"
    "view (snd (rn_mergeWorktree L s)) = view s" "view (rn_discardWorkspace L s) = view s"
    "view (rn_resetWorkspace L b s) = view s" "view (rn_handoffFinalization L t x i r s) = view s"
    "view (snd (rn_generateID L s)) = view s" "view (snd (en_execUpdateStatus (rn_engine L) i st s)) = view s"
    "view (cascadeOrphanExecutions L i s) = view s"
  using assms by (simp_all only: spares_view_def cascadeOrphanExecutions_def if_distrib [of view] if_cancel)

lemma done_effects:
  assumes "writes_through_context isdone e R L" and "isdone s"
  shows "checkParentUnblock (en_repo (rn_engine L)) p s = s" "snd (tr_UpdateStatus (en_repo (rn_engine L)) i st s) = s"
    "rn_Update L t s = s" "snd (rn_Create L t s) = s" "tr_Get (en_repo (rn_engine L)) i s = Inl e"
  using assms by (auto simp: writes_through_context_def ctx_repo_done)


lemma handleFailure_done:
  assumes "writes_through_context isdone e R L" "spares_view tasks L" "spares_view isdone L" "isdone s"
  shows "tasks (snd (handleFailure L task ex err s)) = tasks s" "isdone (snd (handleFailure L task ex err s))"
  unfolding handleFailure_def Let_def
  by (simp_all add: spares_view_simps [OF assms(2)] spares_view_simps [OF assms(3)] done_effects [OF assms(1)] assms(4) split: option.split)

lemma handleSuccess_done:
  assumes "writes_through_context isdone e R L" "spares_view tasks L" "spares_view isdone L" "isdone s"
  shows "tasks (snd (handleSuccess L task ex res s)) = tasks s"
  unfolding handleSuccess_def Let_def
  by (simp add: spares_view_simps [OF assms(2)] spares_view_simps [OF assms(3)] done_effects [OF assms(1)] assms(4))


lemma handleCancelled_done:
  assumes "writes_through_context isdone e R L" "spares_view tasks L" "spares_view isdone L" "isdone s"
  shows "tasks (snd (handleCancelled L task ex s)) = tasks s"
  unfolding handleCancelled_def Let_def
  by (simp add: spares_view_simps [OF assms(2)] spares_view_simps [OF assms(3)] done_effects [OF assms(1)] assms(4))

lemma scheduleCheckpointFollowUp_done:
  assumes "writes_through_context isdone e R L" "spares_view tasks L" "spares_view isdone L" "isdone s"
  shows "tasks (snd (scheduleCheckpointFollowUp L task step s)) = tasks s"
proof -
  obtain i s1 where g: "rn_generateID L s = (i, s1)" by (metis surj_pair)
  have v: "tasks s1 = tasks s" "isdone s1"
    using spares_view_simps(15) [OF assms(2), of s] spares_view_simps(15) [OF assms(3), of s] g assms(4) by auto
  obtain r s2 where c: "rn_Create L (continuation_task L task step i (rn_now L s1)) s1 = (r, s2)" by (metis surj_pair)
  have "s2 = s1" using done_effects(4) [OF assms(1) v(2)] c by (metis snd_conv)
  with g c v show ?thesis by (cases r) (auto simp: scheduleCheckpointFollowUp_def Let_def)
qed

lemma salvage_done:
  assumes "spares_view view L" and "salvage L err s = (keep, s1)"
  shows "view s1 = view s"
proof -
  obtain m s2 where m: "rn_mergeWorktree L s = (m, s2)" by (metis surj_pair)
  have "view s2 = view s" using spares_view_simps(11) [OF assms(1), of s] m by simp
  with m assms(2) show ?thesis
    by (cases m) (auto simp: salvage_def spares_view_simps [OF assms(1)] split: if_splits)
qed

lemma finish_failed_done:
  assumes "writes_through_context isdone e R L" "spares_view tasks L" "spares_view isdone L" "isdone s"
  shows "tasks (snd (finish_failed L task a err ex s)) = tasks s"
proof -
  obtain keep s1 where k: "salvage L err s = (keep, s1)" by (metis surj_pair)
  obtain t s2 where h: "handleFailure L (count_attempts task a) ex err s1 = (t, s2)" by (metis surj_pair)
  have s1: "tasks s1 = tasks s" "isdone s1" using salvage_done [OF _ k] assms by auto
  have "tasks s2 = tasks s" "isdone s2"
    using handleFailure_done [OF assms(1-3) s1(2), of "count_attempts task a" ex err] h s1(1) by simp_all
  then show ?thesis using k h scheduleCheckpointFollowUp_done [OF assms(1-3)] by (simp add: finish_failed_def)
qed

lemma finish_run_done:
  assumes "writes_through_context isdone e R L" "spares_view tasks L" "spares_view isdone L" "isdone s"
  shows "tasks (snd (finish_run L task how a ex s)) = tasks s"
  using handleFailure_done(1) [OF assms] handleSuccess_done [OF assms] finish_failed_done [OF assms]
    handleCancelled_done [OF assms(1-3)] assms(4)
  by (cases how) (simp_all add: finish_run_def Let_def spares_view_simps [OF assms(2)] spares_view_simps [OF assms(3)])

lemma retry_loop_cancelled:
  assumes "retry_loop L plan task m le a ex s = (EndCancelled, a', lgs, ex', s')"
  shows "isTaskCancelled L (task_ID task) s'"
  using assms
proof (induction lgs arbitrary: le a ex s)
  case Nil
  then have "\<not> a < m" by (auto dest: retry_loop_count)
  with Nil show ?case by (simp add: retry_loop_stuck)
next
  case (Cons lg lgs)
  then have "a < m" by (cases "a < m") (simp_all add: retry_loop_stuck)
  with Cons.prems show ?case
    by (cases rule: retry_loop_turn) (use Cons.IH in auto)
qed



lemma demo_env_spares: "(\<And>d. view (d :: db) = view d) \<Longrightarrow> spares_view view (demo_env isdone agent)"
  by (simp add: spares_view_def demo_env_def base_engine_def)

lemma demo_env_context:
  "writes_through_context isdone (ErrOther ''context deadline exceeded'') (sqlite_repo (<)) (demo_env isdone agent)"
  by (simp add: writes_through_context_def demo_env_def)


section \<open>Writing back a snapshot\<close>

text \<open>A row that agrees with the snapshot on what the schema constrains can be overwritten with it.\<close>

definition same_keys :: "task \<Rightarrow> task \<Rightarrow> bool" where
  "same_keys t r \<longleftrightarrow> task_ID t = task_ID r \<and> task_ProjectID t = task_ProjectID r \<and>
     task_IdempotencyKey t = task_IdempotencyKey r \<and> task_CreationSource t = task_CreationSource r \<and>
     task_DelegationMode t = task_DelegationMode r"

lemma tasks_ok_updated_row:
  assumes "tasks_ok ts" and "r \<in> set ts" and "same_keys t r" and "declared_status (task_Status t)"
  shows "tasks_ok (sql_update (\<lambda>x. task_ID x = task_ID t) (updated_row t now) ts)"
proof -
  let ?f = "\<lambda>x. if x = r then updated_row t now x else x"
  have one: "x = r" if "x \<in> set ts" "task_ID x = task_ID t" for x
    using that assms(1-3) tasks_ok_unique by (auto simp: same_keys_def)
  have "sql_update (\<lambda>x. task_ID x = task_ID t) (updated_row t now) ts = sql_update (\<lambda>x. task_ID x = task_ID t) ?f ts"
    using one by (intro sql_update_cong) auto
  moreover have "keeps_keys ?f" using assms(3) by (simp add: keeps_keys_def same_keys_def updated_row_def)
  moreover have "declared_status (task_Status (?f x))" if "x \<in> set ts" "task_ID x = task_ID t" for x
    using one [OF that] assms(4) by (simp add: updated_row_def)
  ultimately show ?thesis by (simp only: tasks_ok_sql_update [OF assms(1)])
qed

lemma same_keys_failed [simp]: "same_keys (failed_task t err) r = same_keys t r"
  by (simp add: same_keys_def)

lemma handleFailure_tasks:
  assumes "\<forall>t d. rn_Update L t d = snd (Update (Some t) d)" and "spares_view db_tasks L"
    and "task_ParentTaskID t = None" and "\<not> paused_by_operator L t d"
    and "tasks_ok (db_tasks d)" and "r \<in> set (db_tasks d)" and "same_keys t r" and "declared_status (task_Status t)"
  shows "\<exists>now. db_tasks (snd (handleFailure L t ex err d))
     = sql_update (\<lambda>x. task_ID x = task_ID t) (updated_row (failed_task t err) now) (db_tasks d)"
proof -
  let ?t = "failed_task t err"
  have st: "declared_status (task_Status ?t)" using assms(8) by (simp add: failed_task_status declared_status_def)
  have upd: "db_tasks (snd (Update (Some ?t) d'))
      = sql_update (\<lambda>x. task_ID x = task_ID t) (updated_row ?t (db_now d')) (db_tasks d)" if "db_tasks d' = db_tasks d" for d'
    using tasks_ok_updated_row [OF assms(5,6) _ st] assms(7) that by (simp add: Update_def Let_def)
  have "db_tasks (snd (handleFailure L t ex err d)) = db_tasks (snd (Update (Some ?t) (rn_RecordFailure L (ex_ID ex)
      (failure_text err) (if failure_class err = [] then ''EXECUTION_ERROR'' else failure_class err)
      (rn_sweepPendingOutcomes L (ex_ID ex) ''ok'' d))))"
    unfolding handleFailure_def Let_def using assms(3,4)
    by (simp add: spares_view_simps [OF assms(2)] assms(1) checkParentUnblock_def split: option.split)
  then show ?thesis using upd spares_view_simps(1,3) [OF assms(2)] by metis
qed

text \<open>
  \<^bold>\<open>C39.\<close> A failing run writes its whole task row back as it read it when it was dispatched. When the lease has expired
  meanwhile and another worker holds the task under a new lease, the row gets the old lease again: the new
  worker's next renewal finds no lease of its own, and the task counts as leased to a worker that has stopped.
\<close>

theorem stale_failure_retakes_lease:
  assumes "\<forall>t d. rn_Update L t d = snd (Update (Some t) d)" and "spares_view db_tasks L"
    and "task_ParentTaskID t = None" and "\<not> paused_by_operator L t d"
    and "tasks_ok (db_tasks d)" and "r \<in> set (db_tasks d)" and "same_keys t r" and "declared_status (task_Status t)"
    and "task_LeaseID t = Some old" and "task_LeaseID r = Some new" and "old \<noteq> new"
    and "handleFailure L t ex err d = (t', d')"
  shows "\<exists>r'. row_of (task_ID r) d' = Some r' \<and> task_LeaseID r' = Some old \<and> task_LeasedBy r' = task_LeasedBy t
       \<and> task_LeaseExpiresAt r' = task_LeaseExpiresAt t
       \<and> fst (RenewLease (task_ID r) new n d') = Some ErrLeaseNotFound"
proof -
  obtain now where ts: "db_tasks d' = sql_update (\<lambda>x. task_ID x = task_ID t) (updated_row (failed_task t err) now) (db_tasks d)"
    using handleFailure_tasks [OF assms(1-8), of ex err] assms(12) by auto
  let ?r = "updated_row (failed_task t err) now r"
  have id: "task_ID t = task_ID r" using assms(7) by (simp add: same_keys_def)
  have "row_of (task_ID r) (d\<lparr>db_tasks := db_tasks d'\<rparr>) = Some ?r"
    unfolding ts using row_of_unique [OF assms(5,6)] id by (intro row_of_update) (auto simp: updated_row_def)
  then have row: "row_of (task_ID r) d' = Some ?r" by (simp add: row_of_def)
  have ok: "tasks_ok (db_tasks d')"
    unfolding ts using tasks_ok_updated_row [OF assms(5,6), of "failed_task t err" now] assms(7,8)
    by (simp add: failed_task_status declared_status_def)
  have "\<not> lease_held (task_ID r) new x" if "x \<in> set (db_tasks d')" for x
    using that assms(9,11) id unfolding ts
    by (auto simp: in_set_sql_update lease_held_def updated_row_def)
  then have "fst (RenewLease (task_ID r) new n d') = Some ErrLeaseNotFound"
    using sqlite_renew_rows [OF ok, of "task_ID r" new n] by (metis prod.collapse)
  with row assms(9) show ?thesis by (intro exI [of _ ?r]) (simp add: updated_row_def)
qed


theorem stale_failure_retakes_lease_witness:
  "\<exists>t' d'. handleFailure (demo_env (\<lambda>_. False) (failing_agent False [])) run_task (demo_exec ''build'' 0) None
       (run_db\<lparr>db_tasks := [run_task\<lparr>task_Status := TaskStatusRunning, task_LeaseID := Some ''lease2''\<rparr>, wake_child]\<rparr>) = (t', d')
     \<and> row_of ''parent'' d' \<noteq> None \<and> fst (RenewLease ''parent'' ''lease2'' 60 d') = Some ErrLeaseNotFound"
proof -
  let ?L = "demo_env (\<lambda>_. False) (failing_agent False [])"
  let ?r = "run_task\<lparr>task_Status := TaskStatusRunning, task_LeaseID := Some ''lease2''\<rparr>"
  let ?d = "run_db\<lparr>db_tasks := [?r, wake_child]\<rparr>"
  have u: "\<forall>t d. rn_Update ?L t d = snd (Update (Some t) d)" by (simp add: demo_env_def)
  have v: "spares_view db_tasks ?L" by (rule demo_env_spares) simp
  have t: "task_ParentTaskID run_task = None" "\<not> paused_by_operator ?L run_task ?d" "tasks_ok (db_tasks ?d)"
    "?r \<in> set (db_tasks ?d)" "same_keys run_task ?r" "declared_status (task_Status run_task)"
    "task_LeaseID run_task = Some ''lease''" "task_LeaseID ?r = Some ''lease2''" "''lease'' \<noteq> ''lease2''"
    by code_simp+
  obtain t' d' where h: "handleFailure ?L run_task (demo_exec ''build'' 0) None ?d = (t', d')" by (metis surj_pair)
  from stale_failure_retakes_lease [OF u v t h, of 60] have "row_of ''parent'' d' \<noteq> None \<and> fst (RenewLease ''parent'' ''lease2'' 60 d') = Some ErrLeaseNotFound"
    by (auto simp: run_task_def wake_parent_def)
  with h show ?thesis by blast
qed

section \<open>Releasing a recovered execution\<close>

lemma row_of_release:
  assumes "tasks_ok (db_tasks d)" and "r \<in> set (db_tasks d)" and "task_LeaseID r = Some l" and "l \<noteq> []"
    and "declared_status st"
  shows "row_of (task_ID r) (snd (tr_ReleaseLease (sqlite_repo lt) (task_ID r) l st opts d)) = Some (released_row st opts (db_now d) r)"
proof -
  obtain e d' where rel: "tr_ReleaseLease (sqlite_repo lt) (task_ID r) l st opts d = (e, d')" by (metis surj_pair)
  have "db_tasks d' = sql_update (\<lambda>t. task_ID t = task_ID r \<and> task_LeaseID t = Some l) (released_row st opts (db_now d)) (db_tasks d)"
    using sqlite.release [OF assms(1,4,5) rel] by blast
  moreover have "row_of (task_ID r) (d\<lparr>db_tasks := sql_update (\<lambda>t. task_ID t = task_ID r \<and> task_LeaseID t = Some l)
      (released_row st opts (db_now d)) (db_tasks d)\<rparr>) = Some (released_row st opts (db_now d) r)"
    using row_of_unique [OF assms(1,2)] assms(3) by (intro row_of_update) auto
  ultimately show ?thesis using rel by (simp add: row_of_def)
qed



end
