(* ===== verification/SchedulerProps.thy ===== *)
theory SchedulerProps
  imports Scheduler
begin

text \<open>
  Properties of the scheduler: slot accounting under every interleaving of its goroutines, a
  scheduling pass that ends and leaves no usable slot empty, retries bounded by \<open>MaxAttempts\<close>, the
  renewal watch and the recovery sweep. What concerns the store is proved once over the
  \<open>task_repository\<close> contract and holds for the SQLite repository.
\<close>

section \<open>Slot accounting\<close>

lemma decrementRunning_count [simp]:
  "sd_runningCount (decrementRunning sd) = (if sd_runningCount sd > 0 then sd_runningCount sd - 1 else sd_runningCount sd)"
  "sd_config (decrementRunning sd) = sd_config sd"
  by (simp_all add: decrementRunning_def)

lemma TaskCompleted_sched: "fst (snd (TaskCompleted R i l b m sd s)) = decrementRunning sd"
  by (simp add: TaskCompleted_def Let_def split: sum.split prod.split)

lemma releaseExecutorLease_sched:
  "fst (snd (releaseExecutorLease R ev task outcome m sd s)) = decrementRunning sd"
  by (simp add: releaseExecutorLease_def Let_def TaskCompleted_sched
      split: dispatchOutcome.split sum.split prod.split)

lemma completeTask_sched: "fst (snd (completeTask R task b m sd s)) = decrementRunning sd"
  by (simp add: completeTask_def Let_def split: prod.split)

lemma recover_one_count:
  "sd_runningCount (fst (recover_one R ex now g t (sd, s))) = sd_runningCount sd \<and>
   sd_config (fst (recover_one R ex now g t (sd, s))) = sd_config sd"
  by (auto simp: recover_one_def recover_release_step_def clearRecoveryIdleSince_def
      recordRecoveryIdleSince_def Let_def split: option.split prod.split)

lemma recover_fold_count:
  "sd_runningCount (fst (fold (recover_one R ex now g) ts (sd, s))) = sd_runningCount sd \<and>
   sd_config (fst (fold (recover_one R ex now g) ts (sd, s))) = sd_config sd"
proof (induction ts arbitrary: sd s)
  case (Cons t ts)
  show ?case
    using Cons [of "fst (recover_one R ex now g t (sd, s))" "snd (recover_one R ex now g t (sd, s))"]
      recover_one_count [of R ex now g t sd s] by simp
qed simp

lemma recoverExpiredLeases_count:
  "sd_runningCount (fst (recoverExpiredLeases R ex now sd s)) = sd_runningCount sd \<and>
   sd_config (fst (recoverExpiredLeases R ex now sd s)) = sd_config sd"
  by (simp add: recoverExpiredLeases_def recover_fold_count split: sum.split)

text \<open>
  The daemon's goroutines over the shared scheduler state. Beside that state the system counts the
  \<open>schedule\<close> calls that hold a reservation and wait for the repository, and the dispatch goroutines
  that have not yet released their slot. Each rule is one critical section (or one repository
  answer); any number of \<open>schedule\<close> calls may be in flight at once.
\<close>

record 's slots =
  sl_sched :: sched
  sl_store :: 's
  sl_reserved :: nat
  sl_active :: nat

inductive slot_step :: "'s task_repo \<Rightarrow> 's slots \<Rightarrow> 's slots \<Rightarrow> bool" for R where
  reserve: "schedule_reserve sd = Some sd' \<Longrightarrow>
    slot_step R \<lparr>sl_sched = sd, sl_store = s, sl_reserved = r, sl_active = a\<rparr>
                \<lparr>sl_sched = sd', sl_store = s, sl_reserved = Suc r, sl_active = a\<rparr>"
| leased: "leaseTaskWithContext R reg sd s = (Inr t, s') \<Longrightarrow>
    slot_step R \<lparr>sl_sched = sd, sl_store = s, sl_reserved = Suc r, sl_active = a\<rparr>
                \<lparr>sl_sched = sd, sl_store = s', sl_reserved = r, sl_active = Suc a\<rparr>"
| lease_failed: "leaseTaskWithContext R reg sd s = (Inl e, s') \<Longrightarrow>
    slot_step R \<lparr>sl_sched = sd, sl_store = s, sl_reserved = Suc r, sl_active = a\<rparr>
                \<lparr>sl_sched = schedule_rollback sd, sl_store = s', sl_reserved = r, sl_active = a\<rparr>"
| finished: "releaseExecutorLease R ev task outcome msg sd s = (err, sd', s') \<Longrightarrow>
    slot_step R \<lparr>sl_sched = sd, sl_store = s, sl_reserved = r, sl_active = Suc a\<rparr>
                \<lparr>sl_sched = sd', sl_store = s', sl_reserved = r, sl_active = a\<rparr>"
| finished_directly: "completeTask R task ok msg sd s = (err, sd', s') \<Longrightarrow>
    slot_step R \<lparr>sl_sched = sd, sl_store = s, sl_reserved = r, sl_active = Suc a\<rparr>
                \<lparr>sl_sched = sd', sl_store = s', sl_reserved = r, sl_active = a\<rparr>"
| recovery: "recoverExpiredLeases R ex now sd s = (sd', s') \<Longrightarrow>
    slot_step R \<lparr>sl_sched = sd, sl_store = s, sl_reserved = r, sl_active = a\<rparr>
                \<lparr>sl_sched = sd', sl_store = s', sl_reserved = r, sl_active = a\<rparr>"
| woken: "slot_step R \<lparr>sl_sched = sd, sl_store = s, sl_reserved = r, sl_active = a\<rparr>
                \<lparr>sl_sched = Wake sd, sl_store = s, sl_reserved = r, sl_active = a\<rparr>"
| elsewhere: "slot_step R x (x\<lparr>sl_store := s'\<rparr>)"

inductive slot_reachable :: "'s task_repo \<Rightarrow> sched_config option \<Rightarrow> 's slots \<Rightarrow> bool" for R cfg where
  start: "slot_reachable R cfg
    \<lparr>sl_sched = NewWithOptions cfg h, sl_store = s, sl_reserved = 0, sl_active = 0\<rparr>"
| step: "slot_reachable R cfg x \<Longrightarrow> slot_step R x y \<Longrightarrow> slot_reachable R cfg y"

definition slots_ok :: "'s slots \<Rightarrow> bool" where
  "slots_ok x \<longleftrightarrow> sd_runningCount (sl_sched x) = int (sl_reserved x) + int (sl_active x) \<and>
     (cfg_MaxConcurrency (sd_config (sl_sched x)) > 0 \<longrightarrow>
        sd_runningCount (sl_sched x) \<le> cfg_MaxConcurrency (sd_config (sl_sched x)))"

lemma slots_ok_step:
  assumes "slot_step R x y" and "slots_ok x"
  shows "slots_ok y"
  using assms
proof (cases rule: slot_step.cases)
  case (reserve sd sd' s r a)
  with assms(2) show ?thesis
    by (auto simp: slots_ok_def schedule_reserve_def Let_def split: if_splits)
next
  case (lease_failed reg sd s e s' r a)
  with assms(2) show ?thesis by (auto simp: slots_ok_def schedule_rollback_def)
next
  case (finished ev task outcome msg sd s err sd' s' r a)
  with releaseExecutorLease_sched [of R ev task outcome msg sd s] assms(2) show ?thesis
    by (auto simp: slots_ok_def)
next
  case (finished_directly task ok msg sd s err sd' s' r a)
  with completeTask_sched [of R task ok msg sd s] assms(2) show ?thesis by (auto simp: slots_ok_def)
next
  case (recovery ex now sd s sd' s' r a)
  with recoverExpiredLeases_count [of R ex now sd s] assms(2) show ?thesis by (auto simp: slots_ok_def)
qed (auto simp: slots_ok_def Wake_def)

text \<open>
  \<^bold>\<open>C21.\<close> The concurrency limit holds under every interleaving. From a new scheduler, whatever its
  goroutines do (concurrent scheduling passes, failed leases, dispatches that end in any outcome over
  a repository that may fail arbitrarily, recovery sweeps, wake-ups), \<open>runningCount\<close> is always exactly
  the number of reservations in flight plus the number of live dispatches, and never exceeds a
  positive \<open>MaxConcurrency\<close>. In particular every dispatch gives its slot back exactly once.
\<close>

theorem running_count_exact_and_bounded:
  assumes "slot_reachable R cfg x"
  shows "sd_runningCount (sl_sched x) = int (sl_reserved x) + int (sl_active x) \<and>
    (cfg_MaxConcurrency (sd_config (sl_sched x)) > 0 \<longrightarrow>
       int (sl_reserved x) + int (sl_active x) \<le> cfg_MaxConcurrency (sd_config (sl_sched x)))"
proof -
  have "slots_ok x" using assms
  proof (induction rule: slot_reachable.induct)
    case (start h s)
    then show ?case by (simp add: slots_ok_def NewWithOptions_def)
  next
    case (step x y)
    then show ?case by (blast intro: slots_ok_step)
  qed
  then show ?thesis by (auto simp: slots_ok_def)
qed

theorem running_count_exact_and_bounded_witness:
  "\<exists>x. slot_reachable (sqlite_repo (<)) None x \<and> sl_active x = 1 \<and> sd_runningCount (sl_sched x) = 1"
proof -
  let ?R = "sqlite_repo (<)" and ?sd = "NewWithOptions None ''h''"
  have "slot_reachable ?R None \<lparr>sl_sched = ?sd, sl_store = demo_db, sl_reserved = 0, sl_active = 0\<rparr>"
    by (rule slot_reachable.start)
  moreover obtain sd' where sd': "schedule_reserve ?sd = Some sd'"
    by (simp add: schedule_reserve_def NewWithOptions_def normalize_config_def DefaultConfig_def)
  ultimately have r: "slot_reachable ?R None
      \<lparr>sl_sched = sd', sl_store = demo_db, sl_reserved = Suc 0, sl_active = 0\<rparr>"
    by (rule slot_reachable.step [OF _ slot_step.reserve])
  have "\<exists>c \<in> set (db_tasks demo_db). lease_candidate (lease_request None sd') (db_tasks demo_db) c"
    using sd' by (auto simp: schedule_reserve_def NewWithOptions_def normalize_config_def DefaultConfig_def
        demo_db_def demo_task_def zero_task_def lease_candidate_def computeOverCapProjects_def
        active_row_def dependencies_done_def lease_request_def Let_def split: if_splits)
  then obtain t s' where "leaseTaskWithContext ?R None sd' demo_db = (Inr t, s')"
    using lease_progress [OF demo_db_ok, of "lease_request None sd'"]
    by (auto simp: leaseTaskWithContext_def sqlite_repo_def demo_db_def)
  from slot_reachable.step [OF r slot_step.leased [OF this]]
  have "slot_reachable ?R None \<lparr>sl_sched = sd', sl_store = s', sl_reserved = 0, sl_active = Suc 0\<rparr>" .
  from this running_count_exact_and_bounded [OF this] show ?thesis by fastforce
qed

section \<open>A scheduling pass\<close>

lemma lease_request_cong [simp]:
  "lease_request reg (sd\<lparr>sd_runningCount := n\<rparr>) = lease_request reg sd"
  by (simp add: lease_request_def Let_def split: option.split)

lemma schedule_reserve_Some:
  "schedule_reserve sd = Some sd1 \<longleftrightarrow>
   (cfg_MaxConcurrency (sd_config sd) \<le> 0 \<or> sd_runningCount sd < cfg_MaxConcurrency (sd_config sd)) \<and>
   sd1 = sd\<lparr>sd_runningCount := sd_runningCount sd + 1\<rparr>"
  by (auto simp: schedule_reserve_def Let_def)

lemma schedule_reserve_None:
  "schedule_reserve sd = None \<longleftrightarrow> cfg_MaxConcurrency (sd_config sd) > 0 \<and>
     sd_runningCount sd \<ge> cfg_MaxConcurrency (sd_config sd)"
  by (simp add: schedule_reserve_def Let_def)

context task_repository
begin

definition leasable_ids :: "'s \<Rightarrow> string set" where
  "leasable_ids s = task_ID ` set (filter leasable_shape (tasks s))"

lemma lease_grants_id:
  assumes "invar s" and "tr_LeaseTask R opts s = (Inr t, s')"
  shows "invar s' \<and> task_ID t \<in> leasable_ids s \<and> leasable_ids s' \<subseteq> leasable_ids s - {task_ID t}"
proof -
  from lease_grants [OF assms] obtain c :: task and l where c: "c \<in> set (tasks s)" "leasable_shape c"
    and inv: "invar s'"
    and upd: "tasks s' = sql_update (\<lambda>r. task_ID r = task_ID c) (leased_row l opts (now s)) (tasks s)"
    and t: "same_view (leased_row l opts (now s) c) t"
    by blast
  from t have id: "task_ID t = task_ID c" by (simp add: same_view_def)
  have "leasable_ids s' \<subseteq> leasable_ids s - {task_ID c}"
    by (auto simp: leasable_ids_def upd in_set_sql_update)
  with c inv id show ?thesis by (auto simp: leasable_ids_def)
qed

text \<open>
  What one pass does: it ends within as many iterations as there are leasable rows plus one, every
  task it dispatches was leasable, no task is dispatched twice, each takes one slot, and it stops
  because capacity is full, the repository has nothing to lease, or the pass is limited to one task.
\<close>

definition pass_result ::
  "project_registry option \<Rightarrow> sched \<Rightarrow> 's \<Rightarrow> task list \<Rightarrow> sched \<Rightarrow> 's \<Rightarrow> bool" where
  "pass_result reg sd s ts sd' s' \<longleftrightarrow> invar s' \<and>
     sd' = sd\<lparr>sd_runningCount := sd_runningCount sd + int (length ts)\<rparr> \<and>
     distinct (map task_ID ts) \<and> task_ID ` set ts \<subseteq> leasable_ids s \<and>
     (cfg_MaxConcurrency (sd_config sd) > 0 \<and> sd_runningCount sd' \<ge> cfg_MaxConcurrency (sd_config sd) \<or>
      cfg_MaxConcurrency (sd_config sd) = 0 \<and> length ts = 1 \<or>
      (\<exists>s0 e. invar s0 \<and> tr_LeaseTask R (lease_request reg sd) s0 = (Inl e, s'))) \<and>
     (cfg_MaxConcurrency (sd_config sd) > 0 \<and> sd_runningCount sd \<le> cfg_MaxConcurrency (sd_config sd) \<longrightarrow>
      sd_runningCount sd' \<le> cfg_MaxConcurrency (sd_config sd))"

lemma pass_result_Cons:
  assumes "pass_result reg (sd\<lparr>sd_runningCount := sd_runningCount sd + 1\<rparr>) s1 ts sd' s'"
    and "task_ID t \<in> leasable_ids s" and "leasable_ids s1 \<subseteq> leasable_ids s - {task_ID t}"
    and "cfg_MaxConcurrency (sd_config sd) \<noteq> 0"
    and "cfg_MaxConcurrency (sd_config sd) \<le> 0 \<or>
      sd_runningCount sd + 1 \<le> cfg_MaxConcurrency (sd_config sd)"
  shows "pass_result reg sd s (t # ts) sd' s'"
proof -
  have "task_ID t \<notin> task_ID ` set ts" "task_ID ` set ts \<subseteq> leasable_ids s"
    using assms(1,3) by (auto simp: pass_result_def)
  with assms show ?thesis by (auto simp: pass_result_def)
qed

lemma schedule_pass:
  "invar s \<Longrightarrow> card (leasable_ids s) < fuel \<Longrightarrow>
   \<exists>ts sd' s'. schedule fuel R reg sd s = Some (ts, sd', s') \<and> pass_result reg sd s ts sd' s'"
proof (induction fuel arbitrary: sd s)
  case 0
  then show ?case by simp
next
  case (Suc fuel)
  show ?case
  proof (cases "schedule_reserve sd")
    case None
    then have "schedule (Suc fuel) R reg sd s = Some ([], sd, s)" by simp
    moreover have "pass_result reg sd s [] sd s"
      using None Suc.prems by (simp add: pass_result_def schedule_reserve_None)
    ultimately show ?thesis by blast
  next
    case (Some sd1)
    then have sd1: "sd1 = sd\<lparr>sd_runningCount := sd_runningCount sd + 1\<rparr>"
      and room: "cfg_MaxConcurrency (sd_config sd) \<le> 0 \<or>
        sd_runningCount sd + 1 \<le> cfg_MaxConcurrency (sd_config sd)"
      by (auto simp: schedule_reserve_Some)
    obtain r s1 where lease: "tr_LeaseTask R (lease_request reg sd) s = (r, s1)" by fastforce
    show ?thesis
    proof (cases r)
      case (Inl e)
      with lease Some sd1 have "schedule (Suc fuel) R reg sd s = Some ([], sd, s1)"
        by (simp add: leaseTaskWithContext_def schedule_rollback_def)
      moreover have "pass_result reg sd s [] sd s1"
        using lease Inl lease_fails [OF Suc.prems(1)] Suc.prems(1) by (auto simp: pass_result_def)
      ultimately show ?thesis by blast
    next
      case (Inr t)
      note grant = lease_grants_id [OF Suc.prems(1) lease [unfolded Inr]]
      show ?thesis
      proof (cases "cfg_MaxConcurrency (sd_config sd) = 0")
        case True
        with lease Inr Some sd1 have "schedule (Suc fuel) R reg sd s = Some ([t], sd1, s1)"
          by (simp add: leaseTaskWithContext_def)
        moreover have "pass_result reg sd s [t] sd1 s1" using True grant by (simp add: pass_result_def sd1)
        ultimately show ?thesis by blast
      next
        case False
        have "leasable_ids s1 \<subset> leasable_ids s" using grant by blast
        moreover have "finite (leasable_ids s)" by (simp add: leasable_ids_def)
        ultimately have "card (leasable_ids s1) < card (leasable_ids s)" by (rule psubset_card_mono [rotated])
        with Suc.prems(2) have "card (leasable_ids s1) < fuel" by simp
        from Suc.IH [OF conjunct1 [OF grant] this, of sd1] obtain ts sd2 s2 where
          rec: "schedule fuel R reg sd1 s1 = Some (ts, sd2, s2)" "pass_result reg sd1 s1 ts sd2 s2" by blast
        have "schedule (Suc fuel) R reg sd s = Some (t # ts, sd2, s2)"
          using lease Inr Some sd1 rec(1) False by (simp add: leaseTaskWithContext_def)
        moreover have "pass_result reg sd s (t # ts) sd2 s2"
          using pass_result_Cons [OF rec(2) [unfolded sd1]] grant False room by blast
        ultimately show ?thesis by blast
      qed
    qed
  qed
qed

end

text \<open>
  \<^bold>\<open>C22.\<close> A scheduling pass over the SQLite repository terminates, never dispatches a task twice or
  one that was not QUEUED and unleased, never exceeds \<open>MaxConcurrency\<close>, and leaves no usable slot
  empty: it stops only when the slots are full, when no leasable task is left (or the random source
  for lease ids failed), or, with \<open>MaxConcurrency = 0\<close>, after one task.
\<close>

theorem schedule_pass_complete:
  assumes "tasks_ok (db_tasks d)" and "length (db_tasks d) < fuel"
    and "sd_runningCount sd \<le> cfg_MaxConcurrency (sd_config sd) \<or> cfg_MaxConcurrency (sd_config sd) = 0"
  shows "\<exists>ts sd' d'. schedule fuel (sqlite_repo lt) reg sd d = Some (ts, sd', d') \<and>
    distinct (map task_ID ts) \<and>
    task_ID ` set ts \<subseteq> {task_ID t | t. t \<in> set (db_tasks d) \<and> task_Status t = TaskStatusQueued \<and>
       task_LeaseID t = None} \<and>
    sd_runningCount sd' = sd_runningCount sd + int (length ts) \<and>
    (if cfg_MaxConcurrency (sd_config sd) = 0 then length ts \<le> 1
     else sd_runningCount sd' \<le> cfg_MaxConcurrency (sd_config sd) \<or> cfg_MaxConcurrency (sd_config sd) < 0) \<and>
    (sd_runningCount sd' = cfg_MaxConcurrency (sd_config sd) \<or>
     cfg_MaxConcurrency (sd_config sd) = 0 \<and> length ts = 1 \<or> db_rand d' = [] \<or>
     {c \<in> set (db_tasks d'). lease_candidate (lease_request reg sd) (db_tasks d') c} = {})"
proof -
  have "sqlite.leasable_ids d \<subseteq> task_ID ` set (db_tasks d)" by (auto simp: sqlite.leasable_ids_def)
  then have "card (sqlite.leasable_ids d) \<le> length (db_tasks d)"
    by (meson List.finite_set card_image_le card_length card_mono finite_imageI le_trans)
  with assms(2) have "card (sqlite.leasable_ids d) < fuel" by simp
  from sqlite.schedule_pass [OF assms(1) this, of lt reg sd] obtain ts sd' d' where
    pass: "schedule fuel (sqlite_repo lt) reg sd d = Some (ts, sd', d')"
    and res: "sqlite.pass_result lt reg sd d ts sd' d'" by blast
  note res = res [unfolded sqlite.pass_result_def]
  have none_left: "db_rand d' = [] \<or> {c \<in> set (db_tasks d'). lease_candidate o' (db_tasks d') c} = {}"
    if "tasks_ok (db_tasks s0)" "LeaseTask o' s0 = (Inl e, d')" for s0 o' e
    using that by (cases rule: LeaseTask_cases) auto
  have one: "length ts \<le> 1" if "cfg_MaxConcurrency (sd_config sd) = 0"
    using pass that by (cases fuel) (auto split: option.splits prod.splits sum.splits
        simp: schedule_reserve_Some)
  have ids: "sqlite.leasable_ids d = {task_ID t | t. t \<in> set (db_tasks d) \<and>
      task_Status t = TaskStatusQueued \<and> task_LeaseID t = None}"
    by (auto simp: sqlite.leasable_ids_def leasable_shape_def)
  have stop: "sd_runningCount sd' = cfg_MaxConcurrency (sd_config sd) \<or>
     cfg_MaxConcurrency (sd_config sd) = 0 \<and> length ts = 1 \<or> db_rand d' = [] \<or>
     {c \<in> set (db_tasks d'). lease_candidate (lease_request reg sd) (db_tasks d') c} = {}"
    using res assms(3) none_left by (simp add: sqlite_repo_def) fastforce
  have bound: "if cfg_MaxConcurrency (sd_config sd) = 0 then length ts \<le> 1
     else sd_runningCount sd' \<le> cfg_MaxConcurrency (sd_config sd) \<or> cfg_MaxConcurrency (sd_config sd) < 0"
    using res assms(3) one by (auto simp: linorder_neq_iff)
  from res pass ids stop bound show ?thesis by (intro exI conjI) auto
qed

theorem schedule_pass_complete_witness:
  "\<exists>ts sd' d'. schedule 3 (sqlite_repo (<)) None (NewWithOptions None ''h'') demo_db = Some (ts, sd', d') \<and>
     sd_runningCount sd' = int (length ts)"
proof -
  have "sd_runningCount (NewWithOptions None ''h'') \<le>
      cfg_MaxConcurrency (sd_config (NewWithOptions None ''h'')) \<or>
      cfg_MaxConcurrency (sd_config (NewWithOptions None ''h'')) = 0"
    by (simp add: NewWithOptions_def normalize_config_def DefaultConfig_def)
  moreover have "length (db_tasks demo_db) < 3" by (simp add: demo_db_def)
  ultimately show ?thesis
    using schedule_pass_complete [OF demo_db_ok, of 3 "NewWithOptions None ''h''" "(<)" None]
    by (auto simp: NewWithOptions_def)
qed

section \<open>Retries\<close>

text \<open>The attempt counters as the code normalises them.\<close>

definition norm_attempt :: "task \<Rightarrow> int" where
  "norm_attempt t = (if task_Attempt t \<le> 0 then 1 else task_Attempt t)"

definition norm_max :: "task \<Rightarrow> int" where
  "norm_max t = (if task_MaxAttempts t \<le> 0 then 1 else task_MaxAttempts t)"

text \<open>The row a failed dispatch leaves behind.\<close>

definition failed_row :: "string \<Rightarrow> nanos \<Rightarrow> task \<Rightarrow> task" where
  "failed_row msg now t =
     (if norm_attempt t < norm_max t
      then released_row TaskStatusQueued (no_release_options\<lparr>ro_Attempt := norm_attempt t + 1,
             ro_MaxAttempts := norm_max t, ro_Error := msg\<rparr>) now t
      else released_row TaskStatusFailed (no_release_options\<lparr>ro_Error := msg\<rparr>) now t)"

lemma failed_row_columns:
  "task_ID (failed_row msg n t) = task_ID t" "task_LeaseID (failed_row msg n t) = None"
  "norm_attempt t < norm_max t \<Longrightarrow> task_Status (failed_row msg n t) = TaskStatusQueued \<and>
     task_Attempt (failed_row msg n t) = norm_attempt t + 1 \<and>
     task_MaxAttempts (failed_row msg n t) = norm_max t"
  "\<not> norm_attempt t < norm_max t \<Longrightarrow> task_Status (failed_row msg n t) = TaskStatusFailed"
  by (auto simp: failed_row_def released_row_def clear_lease_def no_release_options_def norm_attempt_def
      norm_max_def)

context task_repository
begin

text \<open>A failed dispatch of the task held under its lease: one row changes, as \<open>failed_row\<close> says.\<close>

lemma task_completed_failure:
  assumes "invar s" and "r \<in> set (tasks s)" and "task_LeaseID r = Some l" and "l \<noteq> []"
    and "TaskCompleted R (task_ID r) l False msg sd s = (e, sd', s')"
  shows "e = None \<and> invar s' \<and>
    tasks s' = sql_update (\<lambda>t. task_ID t = task_ID r) (failed_row msg (now s)) (tasks s)"
proof -
  from get_row [OF assms(1,2)] obtain u where u: "tr_Get R (task_ID r) s = Inr u" "same_view r u" by blast
  have only: "t = r" if "t \<in> set (tasks s)" "task_ID t = task_ID r" for t
    using row_unique [OF assms(1) that(1) assms(2)] that(2) by simp
  have upd: "sql_update (\<lambda>t. task_ID t = task_ID r \<and> task_LeaseID t = Some l) f (tasks s) =
      sql_update (\<lambda>t. task_ID t = task_ID r) g (tasks s)" if "f r = g r" for f g
    using that only assms(3) by (auto simp: sql_update_def)
  show ?thesis
  proof (cases "norm_attempt r < norm_max r")
    case True
    with u assms(5) have "tr_ReleaseLease R (task_ID r) l TaskStatusQueued
        (no_release_options\<lparr>ro_Attempt := norm_attempt r + 1, ro_MaxAttempts := norm_max r, ro_Error := msg\<rparr>) s
        = (e, s')"
      by (auto simp: TaskCompleted_def Let_def same_view_def norm_attempt_def norm_max_def
          split: prod.splits if_splits)
    from release [OF assms(1,4) _ this] True show ?thesis
      by (auto intro!: upd simp: failed_row_def)
  next
    case False
    with u assms(5) have "tr_ReleaseLease R (task_ID r) l TaskStatusFailed
        (no_release_options\<lparr>ro_Error := msg\<rparr>) s = (e, s')"
      by (auto simp: TaskCompleted_def Let_def same_view_def norm_attempt_def norm_max_def
          split: prod.splits if_splits)
    from release [OF assms(1,4) _ this] False show ?thesis
      by (auto intro!: upd simp: failed_row_def)
  qed
qed

end

text \<open>
  Rounds in which every dispatch fails: lease the next task, then finish it unsuccessfully. The run
  stops when the repository has nothing to lease; it returns the ids dispatched, in order.
\<close>

fun fail_rounds ::
  "'s task_repo \<Rightarrow> project_registry option \<Rightarrow> string \<Rightarrow> sched \<Rightarrow> nat \<Rightarrow> 's \<Rightarrow> string list \<times> 's" where
  "fail_rounds R reg msg sd 0 s = ([], s)"
| "fail_rounds R reg msg sd (Suc n) s = (case leaseTaskWithContext R reg sd s of
       (Inl _, s1) \<Rightarrow> ([], s1)
     | (Inr t, s1) \<Rightarrow>
         (case TaskCompleted R (task_ID t) (taskLeaseID t) False msg sd s1 of (_, _, s2) \<Rightarrow>
            (case fail_rounds R reg msg sd n s2 of (is, s3) \<Rightarrow> (task_ID t # is, s3))))"

text \<open>How many more dispatches a row can get when all of them fail.\<close>

definition retry_budget :: "task \<Rightarrow> nat" where
  "retry_budget t = (if leasable_shape t then nat (max 0 (norm_max t - norm_attempt t)) + 1 else 0)"

lemma retry_budget_failed_row:
  assumes "leasable_shape c"
  shows "Suc (retry_budget (failed_row msg n (leased_row l opts m c))) = retry_budget c"
    and "retry_budget (failed_row msg n (leased_row l opts m c)) = 0 \<longrightarrow>
      task_Status (failed_row msg n (leased_row l opts m c)) = TaskStatusFailed"
proof -
  have same: "norm_attempt (leased_row l opts m c) = norm_attempt c" "norm_max (leased_row l opts m c) = norm_max c"
    by (simp_all add: norm_attempt_def norm_max_def leased_row_def)
  let ?f = "failed_row msg n (leased_row l opts m c)"
  have "Suc (retry_budget ?f) = retry_budget c \<and> (retry_budget ?f = 0 \<longrightarrow> task_Status ?f = TaskStatusFailed)"
  proof (cases "norm_attempt c < norm_max c")
    case True
    then have cols: "task_Status ?f = TaskStatusQueued" "task_LeaseID ?f = None"
      "task_Attempt ?f = norm_attempt c + 1" "task_MaxAttempts ?f = norm_max c"
      using failed_row_columns(2,3) [where t = "leased_row l opts m c" and msg = msg and n = n] same by auto
    have "norm_attempt c \<ge> 1" "norm_max c \<ge> 1" by (auto simp: norm_attempt_def norm_max_def)
    with cols have "leasable_shape ?f" "norm_attempt ?f = norm_attempt c + 1" "norm_max ?f = norm_max c"
      by (simp_all add: leasable_shape_def norm_attempt_def norm_max_def)
    with True assms show ?thesis by (simp add: retry_budget_def)
  next
    case False
    then have "task_Status ?f = TaskStatusFailed"
      using failed_row_columns(4) [where t = "leased_row l opts m c"] same by simp
    with False assms show ?thesis by (simp add: retry_budget_def leasable_shape_def)
  qed
  then show "Suc (retry_budget ?f) = retry_budget c"
    and "retry_budget ?f = 0 \<longrightarrow> task_Status ?f = TaskStatusFailed" by blast+
qed

context task_repository
begin

text \<open>One failing round spends one unit of exactly one row's budget.\<close>

lemma fail_round:
  assumes "invar s" and "leaseTaskWithContext R reg sd s = (Inr t, s1)"
    and "TaskCompleted R (task_ID t) (taskLeaseID t) False msg sd s1 = (e, sd', s2)"
  obtains c g where "invar s2" "c \<in> set (tasks s)" "task_ID t = task_ID c"
    "tasks s2 = map (\<lambda>r. if r = c then g else r) (tasks s)" "task_ID g = task_ID c"
    "Suc (retry_budget g) = retry_budget c" "retry_budget g = 0 \<longrightarrow> task_Status g = TaskStatusFailed"
proof -
  let ?o = "lease_request reg sd"
  from lease_grants [OF assms(1) assms(2) [unfolded leaseTaskWithContext_def]] obtain c :: task and l where
    c: "c \<in> set (tasks s)" "leasable_shape c" "l \<noteq> []" and inv1: "invar s1"
    and upd: "tasks s1 = sql_update (\<lambda>r. task_ID r = task_ID c) (leased_row l ?o (now s)) (tasks s)"
    and t: "same_view (leased_row l ?o (now s) c) t" by blast
  let ?r = "leased_row l ?o (now s) c"
  from t have t': "task_ID t = task_ID ?r" "taskLeaseID t = l"
    by (simp_all add: same_view_def taskLeaseID_def)
  have "?r \<in> set (tasks s1)" using c(1) by (auto simp: upd in_set_sql_update)
  from task_completed_failure [OF inv1 this _ c(3)] assms(3) t'
  have inv2: "invar s2" and upd2:
    "tasks s2 = sql_update (\<lambda>t. task_ID t = task_ID c) (failed_row msg (now s1)) (tasks s1)" by auto
  let ?g = "failed_row msg (now s1) ?r"
  have "tasks s2 = map (\<lambda>r. if r = c then ?g else r) (tasks s)"
    using row_unique [OF assms(1) _ c(1)] by (auto simp: upd2 upd sql_update_def)
  from that [OF inv2 c(1) _ this _ retry_budget_failed_row [OF c(2)]] t' show ?thesis
    by (simp add: failed_row_columns(1))
qed

lemma fail_rounds_budget:
  assumes "invar s" and "r \<in> set (tasks s)" and "retry_budget r = 0 \<longrightarrow> task_Status r = TaskStatusFailed"
    and "fail_rounds R reg msg sd n s = (is, s')"
  shows "invar s' \<and> (\<exists>r' \<in> set (tasks s'). task_ID r' = task_ID r \<and>
    count_list is (task_ID r) + retry_budget r' = retry_budget r \<and>
    (retry_budget r' = 0 \<longrightarrow> task_Status r' = TaskStatusFailed))"
  using assms
proof (induction n arbitrary: s r "is")
  case 0
  then show ?case by (intro conjI bexI [of _ r]) auto
next
  case (Suc n)
  obtain x s1 where lease: "leaseTaskWithContext R reg sd s = (x, s1)" by fastforce
  show ?case
  proof (cases x)
    case (Inl err)
    with lease have "invar s1 \<and> tasks s1 = tasks s"
      using lease_fails Suc.prems(1) by (simp add: leaseTaskWithContext_def)
    moreover have "is = []" "s' = s1" using Suc.prems(4) lease Inl by auto
    ultimately show ?thesis using Suc.prems(2,3) by (intro conjI bexI [of _ r]) auto
  next
    case (Inr t)
    obtain e sd' s2 where tc: "TaskCompleted R (task_ID t) (taskLeaseID t) False msg sd s1 = (e, sd', s2)"
      by (cases "TaskCompleted R (task_ID t) (taskLeaseID t) False msg sd s1") auto
    obtain js where rec: "fail_rounds R reg msg sd n s2 = (js, s')" "is = task_ID t # js"
      using Suc.prems(4) lease Inr tc by (auto split: prod.splits)
    obtain c g where step: "invar s2" "c \<in> set (tasks s)" "task_ID t = task_ID c"
      "tasks s2 = map (\<lambda>r. if r = c then g else r) (tasks s)" "task_ID g = task_ID c"
      "Suc (retry_budget g) = retry_budget c" "retry_budget g = 0 \<longrightarrow> task_Status g = TaskStatusFailed"
      by (rule fail_round [OF Suc.prems(1) lease [unfolded Inr] tc]) (rule that)
    show ?thesis
    proof (cases "r = c")
      case True
      with step(2,4) have "g \<in> set (tasks s2)" by auto
      from Suc.IH [OF step(1) this step(7) rec(1)] True step rec(2) show ?thesis by auto
    next
      case False
      with step(2,4) Suc.prems(2) have "r \<in> set (tasks s2)" by auto
      from Suc.IH [OF step(1) this Suc.prems(3) rec(1)] show ?thesis
        using False rec(2) step(3) row_unique [OF Suc.prems(1,2) step(2)] by auto
    qed
  qed
qed

end

text \<open>
  \<^bold>\<open>C23.\<close> Retries are bounded and always accounted for. In any run of the scheduler over the SQLite
  repository in which every dispatch fails, a queued task is dispatched exactly as often as its
  remaining attempts went down: it can be dispatched at most \<open>MaxAttempts - Attempt + 1\<close> more times
  (with the counters read as at least 1), never more, whatever other tasks share the queue; and once
  its attempts are used up it is FAILED.
\<close>

theorem retries_bounded:
  assumes "tasks_ok (db_tasks d)" and "r \<in> set (db_tasks d)" and "task_Status r = TaskStatusQueued"
    and "task_LeaseID r = None" and "fail_rounds (sqlite_repo lt) reg msg sd n d = (is, d')"
  shows "count_list is (task_ID r) \<le> nat (max 0 (norm_max r - norm_attempt r)) + 1 \<and>
    (\<exists>r' \<in> set (db_tasks d'). task_ID r' = task_ID r \<and>
      count_list is (task_ID r) + retry_budget r' = nat (max 0 (norm_max r - norm_attempt r)) + 1 \<and>
      (if retry_budget r' = 0 then task_Status r' = TaskStatusFailed else task_Status r' = TaskStatusQueued))"
proof -
  have leas: "leasable_shape r" using assms(3,4) by (simp add: leasable_shape_def)
  then have b: "retry_budget r = nat (max 0 (norm_max r - norm_attempt r)) + 1" by (simp add: retry_budget_def)
  then have nz: "retry_budget r = 0 \<longrightarrow> task_Status r = TaskStatusFailed" by simp
  from conjunct2 [OF sqlite.fail_rounds_budget [OF assms(1,2) nz assms(5)]] obtain r' where
    r': "r' \<in> set (db_tasks d')" "task_ID r' = task_ID r"
    "count_list is (task_ID r) + retry_budget r' = retry_budget r"
    "retry_budget r' = 0 \<longrightarrow> task_Status r' = TaskStatusFailed" by (elim bexE conjE)
  have q: "task_Status r' = TaskStatusQueued" if "retry_budget r' \<noteq> 0"
    using that by (auto simp: retry_budget_def leasable_shape_def split: if_splits)
  have "count_list is (task_ID r) \<le> retry_budget r" using r'(3) by linarith
  then show ?thesis
    unfolding b [symmetric] by (intro conjI bexI [OF _ r'(1)] r'(2,3)) (simp_all add: r'(4) q)
qed

theorem retries_bounded_witness:
  "count_list (fst (fail_rounds (sqlite_repo (<)) None ''boom'' (NewWithOptions None ''h'') 5 demo_db)) ''t2'' \<le> 3"
proof -
  let ?r = "(demo_task ''t2'' TaskStatusQueued)\<lparr>task_Dependencies := [''t1'']\<rparr>"
  obtain ids d' where run: "fail_rounds (sqlite_repo (<)) None ''boom'' (NewWithOptions None ''h'') 5 demo_db = (ids, d')"
    by fastforce
  have "?r \<in> set (db_tasks demo_db)" "task_Status ?r = TaskStatusQueued" "task_LeaseID ?r = None"
    by (simp_all add: demo_db_def demo_task_def zero_task_def)
  from conjunct1 [OF retries_bounded [OF demo_db_ok this run]] have "count_list ids ''t2'' \<le> 3"
    by (simp add: norm_max_def norm_attempt_def demo_task_def)
  then show ?thesis by (simp only: run fst_conv)
qed

section \<open>The recovery sweep\<close>

text \<open>The row recovery leaves: one attempt spent, requeued or failed, no lease, classified.\<close>

definition recovered :: "task \<Rightarrow> task \<Rightarrow> bool" where
  "recovered r r' \<longleftrightarrow> task_ID r' = task_ID r \<and> lease_free r' \<and>
     task_LastErrorClass r' = Some TaskFailureClassLeaseExpired \<and>
     (if task_Attempt r + 1 > norm_max r
      then task_Status r' = TaskStatusFailed \<and> task_Attempt r' = norm_max r
      else task_Status r' = TaskStatusQueued \<and>
        task_Attempt r' = (if task_Attempt r + 1 = 0 then task_Attempt r else task_Attempt r + 1))"

lemma recovered_released_row:
  assumes "recovery_release t = (st, opts)" and "task_Attempt t = task_Attempt r"
    and "task_MaxAttempts t = task_MaxAttempts r"
  shows "recovered r (released_row st opts n r)" "declared_status st"
  using assms by (auto simp: recovered_def recovery_release_def Let_def released_row_def clear_lease_def
      lease_free_def norm_max_def TaskFailureClassLeaseExpired_def split: if_splits)

text \<open>When a sweep must leave a task alone.\<close>

definition spared :: "(string \<Rightarrow> bool) \<Rightarrow> nanos \<Rightarrow> nanos \<Rightarrow> (string \<rightharpoonup> nanos) \<Rightarrow> task \<Rightarrow> bool" where
  "spared ex now grace idle r \<longleftrightarrow>
     (if ex (task_ID r) then renewable_status (task_Status r) \<and> task_LeaseID r \<notin> {None, Some []}
      else (case idle (task_ID r) of None \<Rightarrow> 0 < grace | Some first \<Rightarrow> now - first < grace))"

lemma same_but_times_fields:
  "same_but_times r r1 \<Longrightarrow> task_ID r1 = task_ID r \<and> task_Status r1 = task_Status r \<and>
   task_LeaseID r1 = task_LeaseID r \<and> task_Attempt r1 = task_Attempt r \<and>
   task_MaxAttempts r1 = task_MaxAttempts r"
  by (cases r, cases r1) (simp add: same_but_times_def)

lemma same_but_times_recovered: "same_but_times r r1 \<Longrightarrow> recovered r1 r' = recovered r r'"
  by (drule same_but_times_fields) (simp add: recovered_def norm_max_def)

context task_repository
begin

lemma recover_release_row:
  assumes "invar s" and "r \<in> set (tasks s)" and "same_view r t"
    and "recover_release_step R t (sd, s) = (sd', s')"
  shows "invar s' \<and> (\<forall>q \<in> set (tasks s). \<exists>q' \<in> set (tasks s'). q' = q \<or> q = r \<and> recovered r q')"
proof -
  obtain st opts where rel: "recovery_release t = (st, opts)" by fastforce
  obtain e s1 where run: "tr_ReleaseLease R (task_ID t) (taskLeaseID t) st opts s = (e, s1)" by fastforce
  have s': "s' = s1" using assms(4) rel run by (auto simp: recover_release_step_def split: option.splits)
  show ?thesis
  proof (cases "taskLeaseID t = []")
    case True
    with run release_without_lease have "s1 = s" by metis
    with s' assms(1) show ?thesis by auto
  next
    case False
    have fields: "task_Attempt t = task_Attempt r" "task_MaxAttempts t = task_MaxAttempts r" "task_ID t = task_ID r"
      using assms(3) by (simp_all add: same_view_def)
    note rec = recovered_released_row [OF rel fields(1,2)]
    let ?P = "\<lambda>q. task_ID q = task_ID t \<and> task_LeaseID q = Some (taskLeaseID t)"
    have "invar s1" and upd: "tasks s1 = sql_update ?P (released_row st opts (now s)) (tasks s)"
      using release [OF assms(1) False rec(2) run] by auto
    moreover have "\<exists>q' \<in> set (tasks s1). q' = q \<or> q = r \<and> recovered r q'" if q: "q \<in> set (tasks s)" for q
    proof (cases "?P q")
      case True
      with row_unique [OF assms(1) q assms(2)] fields(3) have "q = r" by simp
      with in_set_sql_update_if [OF q, of ?P "released_row st opts (now s)"] True rec(1) show ?thesis
        by (auto simp: upd)
    next
      case False
      with q show ?thesis by (auto simp: upd intro: in_set_sql_update_keep)
    qed
    ultimately show ?thesis using s' by blast
  qed
qed

lemma recover_one_row:
  assumes "invar s" and "r \<in> set (tasks s)" and "same_view r t"
    and run: "recover_one R (Some ex) rnow g t (sd, s) = (sd', s')"
  shows "invar s'"
    and "\<forall>q \<in> set (tasks s). \<exists>q' \<in> set (tasks s'). q' = q \<or> q = r \<and> (same_but_times r q' \<or>
      \<not> spared ex rnow g (sd_recoveryIdleSince sd) r \<and> recovered r q')"
    and "j \<noteq> task_ID t \<Longrightarrow> sd_recoveryIdleSince sd' j = sd_recoveryIdleSince sd j"
proof -
  have id: "task_ID t = task_ID r" using assms(3) by (simp add: same_view_def)
  have idle: "sd_recoveryIdleSince (fst (recover_release_step R t (sd0, s0))) j = sd_recoveryIdleSince sd0 j"
    if "j \<noteq> task_ID t" for sd0 s0 j
    using that by (simp add: recover_release_step_def clearRecoveryIdleSince_def split: prod.split option.split)
  let ?spared = "spared ex rnow g (sd_recoveryIdleSince sd) r"
  have rows: "invar s1 \<and> (\<forall>q \<in> set (tasks s). \<exists>q' \<in> set (tasks s1). q' = q \<or> q = r \<and> (same_but_times r q' \<or>
      \<not> ?spared \<and> recovered r q'))"
    if "recover_release_step R t (sd0, s) = (sd1, s1)" "\<not> ?spared" for sd0 sd1 s1
    using recover_release_row [OF assms(1-3) that(1)] that(2) by meson
  have "invar s' \<and> (\<forall>q \<in> set (tasks s). \<exists>q' \<in> set (tasks s'). q' = q \<or> q = r \<and> (same_but_times r q' \<or>
      \<not> ?spared \<and> recovered r q')) \<and>
      (\<forall>j. j \<noteq> task_ID t \<longrightarrow> sd_recoveryIdleSince sd' j = sd_recoveryIdleSince sd j)"
  proof (cases "ex (task_ID t)")
    case False
    obtain first sd1 where rec: "recordRecoveryIdleSince (task_ID t) rnow sd = (first, sd1)" by fastforce
    have same: "sd_recoveryIdleSince sd1 j = sd_recoveryIdleSince sd j" if "j \<noteq> task_ID t" for j
      using rec that by (auto simp: recordRecoveryIdleSince_def split: option.splits)
    have sp: "?spared \<longleftrightarrow> rnow - first < g"
      using rec False id by (auto simp: spared_def recordRecoveryIdleSince_def split: option.splits)
    show ?thesis
    proof (cases "rnow - first < g")
      case True
      with run False rec have "sd' = sd1" "s' = s" by (auto simp: recover_one_def)
      with same assms(1) show ?thesis by auto
    next
      case g: False
      with run False rec have "recover_release_step R t (sd1, s) = (sd', s')" by (simp add: recover_one_def)
      with rows [of sd1 sd' s'] idle [of _ sd1 s] same g sp show ?thesis by auto
    qed
  next
    case True
    let ?sd1 = "clearRecoveryIdleSince (task_ID t) sd" and ?l = "taskLeaseID t"
    have same: "sd_recoveryIdleSince ?sd1 j = sd_recoveryIdleSince sd j" if "j \<noteq> task_ID t" for j
      using that by (simp add: clearRecoveryIdleSince_def)
    show ?thesis
    proof (cases "?l = []")
      case nil: True
      then have "\<not> ?spared" using True assms(3) id
        by (auto simp: spared_def taskLeaseID_def same_view_def split: option.splits)
      moreover have "recover_release_step R t (?sd1, s) = (sd', s')"
        using run True nil by (simp add: recover_one_def Let_def)
      ultimately show ?thesis using rows [of ?sd1 sd' s'] idle [of _ ?sd1 s] same by auto
    next
      case l: False
      obtain e s1 where ren: "tr_RenewLease R (task_ID t) ?l (cfg_LeaseDurationSeconds (sd_config ?sd1)) s = (e, s1)"
        by fastforce
      show ?thesis
      proof (cases "\<exists>q \<in> set (tasks s). lease_held (task_ID t) ?l q")
        case held: True
        with renew [OF assms(1) ren] have e: "e = None" "invar s1"
          "\<forall>q \<in> set (tasks s). \<exists>q' \<in> set (tasks s1). q' = q \<or> task_ID q = task_ID t \<and> same_but_times q q'"
          by auto
        with run True l ren have "sd' = ?sd1" "s' = s1" by (auto simp: recover_one_def Let_def)
        moreover have "\<forall>q \<in> set (tasks s). \<exists>q' \<in> set (tasks s1). q' = q \<or> q = r \<and> same_but_times r q'"
          using e(3) row_unique [OF assms(1) _ assms(2)] id by metis
        ultimately show ?thesis using e(2) same by blast
      next
        case lost: False
        with renew [OF assms(1) ren] have e: "e \<noteq> None" "s1 = s" by auto
        have "\<not> ?spared" using lost True assms(2,3) id l
          by (auto simp: spared_def lease_held_def taskLeaseID_def same_view_def split: option.splits)
        moreover have "recover_release_step R t (?sd1, s) = (sd', s')"
          using run True l ren e by (auto simp: recover_one_def Let_def)
        ultimately show ?thesis using rows [of ?sd1 sd' s'] idle [of _ ?sd1 s] same by auto
      qed
    qed
  qed
  then show "invar s'"
    and "\<forall>q \<in> set (tasks s). \<exists>q' \<in> set (tasks s'). q' = q \<or> q = r \<and> (same_but_times r q' \<or>
      \<not> ?spared \<and> recovered r q')"
    and "j \<noteq> task_ID t \<Longrightarrow> sd_recoveryIdleSince sd' j = sd_recoveryIdleSince sd j" by blast+
qed

lemma recover_fold_rows:
  assumes "invar s" and "distinct (map task_ID ts)" and "\<forall>t \<in> set ts. \<exists>r \<in> set (tasks s). same_view r t"
    and "fold (recover_one R (Some ex) rnow g) ts (sd, s) = (sd', s')"
  shows "\<forall>q \<in> set (tasks s). \<exists>q' \<in> set (tasks s'). q' = q \<or> task_ID q \<in> task_ID ` set ts \<and>
    (same_but_times q q' \<or> \<not> spared ex rnow g (sd_recoveryIdleSince sd) q \<and> recovered q q')"
  using assms
proof (induction ts arbitrary: sd s)
  case Nil
  then show ?case by auto
next
  case (Cons t ts)
  obtain sd1 s1 where one: "recover_one R (Some ex) rnow g t (sd, s) = (sd1, s1)" by fastforce
  with Cons.prems(4) have rest: "fold (recover_one R (Some ex) rnow g) ts (sd1, s1) = (sd', s')" by simp
  from Cons.prems(3) obtain r where r: "r \<in> set (tasks s)" "same_view r t" by auto
  then have id: "task_ID t = task_ID r" by (simp add: same_view_def)
  note step = recover_one_row [OF Cons.prems(1) r one]
  have keep: "q \<in> set (tasks s1)" if "q \<in> set (tasks s)" "q \<noteq> r" for q
    using step(2) that by blast
  have views: "\<exists>r1 \<in> set (tasks s1). same_view r1 u" if u: "u \<in> set ts" for u
  proof -
    from u Cons.prems(3) obtain q where q: "q \<in> set (tasks s)" "same_view q u" by auto
    have "task_ID u \<noteq> task_ID t" using u Cons.prems(2) by (auto simp: image_iff)
    with q(2) id have "q \<noteq> r" by (auto simp: same_view_def)
    with keep q show ?thesis by blast
  qed
  note IH = Cons.IH [OF step(1) _ _ rest]
  have IH': "\<forall>q \<in> set (tasks s1). \<exists>q' \<in> set (tasks s'). q' = q \<or> task_ID q \<in> task_ID ` set ts \<and>
    (same_but_times q q' \<or> \<not> spared ex rnow g (sd_recoveryIdleSince sd1) q \<and> recovered q q')"
    by (rule IH) (use Cons.prems(2) views in auto)
  have last: "q1 \<in> set (tasks s')" if "q1 \<in> set (tasks s1)" "task_ID q1 = task_ID t" for q1
  proof -
    have "task_ID q1 \<notin> task_ID ` set ts" using that(2) Cons.prems(2) by simp
    with IH' that(1) show ?thesis by blast
  qed
  show ?case
  proof
    fix q assume q: "q \<in> set (tasks s)"
    show "\<exists>q' \<in> set (tasks s'). q' = q \<or> task_ID q \<in> task_ID ` set (t # ts) \<and>
      (same_but_times q q' \<or> \<not> spared ex rnow g (sd_recoveryIdleSince sd) q \<and> recovered q q')"
    proof (cases "q = r")
      case True
      from step(2) r(1) obtain q1 where q1: "q1 \<in> set (tasks s1)" "q1 = r \<or> same_but_times r q1 \<or>
          \<not> spared ex rnow g (sd_recoveryIdleSince sd) r \<and> recovered r q1" by blast
      then have "task_ID q1 = task_ID t" using same_but_times_fields id by (auto simp: recovered_def)
      from last [OF q1(1) this] q1(2) True id show ?thesis by auto
    next
      case False
      with row_unique [OF Cons.prems(1) q r(1)] id have "task_ID q \<noteq> task_ID t" by auto
      from step(3) [OF this] have "spared ex rnow g (sd_recoveryIdleSince sd1) q =
          spared ex rnow g (sd_recoveryIdleSince sd) q" by (simp add: spared_def)
      with IH' keep [OF q False] show ?thesis by fastforce
    qed
  qed
qed

end



lemma recover_one_other_idle:
  "task_ID t \<noteq> i \<Longrightarrow>
   sd_recoveryIdleSince (fst (recover_one R ex now g t (sd, s))) i = sd_recoveryIdleSince sd i"
  by (auto simp: recover_one_def recover_release_step_def clearRecoveryIdleSince_def
      recordRecoveryIdleSince_def Let_def split: option.split prod.split)

lemma recover_fold_other_idle:
  "i \<notin> task_ID ` set ts \<Longrightarrow>
   sd_recoveryIdleSince (fst (fold (recover_one R ex now g) ts (sd, s))) i = sd_recoveryIdleSince sd i"
proof (induction ts arbitrary: sd s)
  case (Cons t ts)
  then show ?case
    using Cons.IH [of "fst (recover_one R ex now g t (sd, s))" "snd (recover_one R ex now g t (sd, s))"]
      recover_one_other_idle [of t i R ex now g sd s] by auto
qed simp

text \<open>
  An idle observation goes stale. The grace period is meant to require that the executor
  reports a task idle continuously; but an observation is only dropped by a sweep that finds the
  task's lease expired again. A sweep in which the task runs with a renewed lease (so that it is not
  in the expired batch) keeps the old observation, and the next single idle report, at any time a
  grace period after the first one, recovers the task at once.
\<close>

theorem idle_observation_goes_stale:
  assumes "tr_FindExpiredLeases R (cfg_RecoveryBatchSize (sd_config sd)) s = Inr ts"
    and "i \<notin> task_ID ` set ts" and "ex i" and "sd_recoveryIdleSince sd i = Some first"
    and "recoverExpiredLeases R (Some ex) now sd s = (sd', s')"
    and "\<not> ex' i" and "task_ID t = i" and "g \<le> later - first"
  shows "sd_recoveryIdleSince sd' i = Some first \<and>
    recover_one R (Some ex') later g t (sd', s2) = recover_release_step R t (sd', s2)"
proof -
  have "sd' = fst (fold (recover_one R (Some ex) now (dynamicRecoveryGrace sd)) ts (sd, s))"
    using assms(1,5) by (simp add: recoverExpiredLeases_def)
  then have "sd_recoveryIdleSince sd' i = Some first"
    using recover_fold_other_idle [OF assms(2), of R "Some ex" now "dynamicRecoveryGrace sd" sd s] assms(4)
    by simp
  with assms(6-8) show ?thesis by (simp add: recover_one_def recordRecoveryIdleSince_def)
qed

definition stale_sched :: sched where
  "stale_sched = (NewWithOptions None ''h'')\<lparr>sd_recoveryIdleSince := [''t1'' \<mapsto> 100]\<rparr>"

definition fresh_db :: db where
  "fresh_db = held_db\<lparr>db_tasks := [held_row\<lparr>task_LeaseExpiresAt := Some 90000000000\<rparr>]\<rparr>"

theorem idle_observation_goes_stale_witness:
  "\<exists>sd' d'. recoverExpiredLeases (sqlite_repo (<)) (Some (\<lambda>_. True)) 50 stale_sched fresh_db = (sd', d') \<and>
     recover_one (sqlite_repo (<)) (Some (\<lambda>_. False)) 90000000100 90000000000 held_row (sd', d') =
     recover_release_step (sqlite_repo (<)) held_row (sd', d')"
proof -
  obtain sd' d' where run: "recoverExpiredLeases (sqlite_repo (<)) (Some (\<lambda>_. True)) 50 stale_sched fresh_db = (sd', d')"
    by fastforce
  have "sqliteTime 7 < sqliteTime 90000000000" by (rule sqliteTime_gap_less) (simp add: Second_def)
  then have "\<not> sqliteTime 90000000000 < sqliteTime 7" by (rule order_less_not_sym)
  then have empty: "tr_FindExpiredLeases (sqlite_repo (<)) (cfg_RecoveryBatchSize (sd_config stale_sched)) fresh_db = Inr []"
    by (simp add: sqlite_repo_def FindExpiredLeases_def select_asc_def lease_expired_row_def fresh_db_def
        held_db_def demo_db_def sql_limit_def)
  have "task_ID held_row = ''t1''" by (simp add: held_row_def demo_task_def)
  with idle_observation_goes_stale [OF empty _ _ _ run, of "''t1''" 100 "\<lambda>_. False" held_row 90000000000 90000000100 d']
    run show ?thesis by (simp add: stale_sched_def)
qed

end
