(* ===== verification/SchedulerWatch.thy ===== *)
theory SchedulerWatch
  imports SchedulerProps
begin

text \<open>
  Properties of the dispatch goroutine's renewal watch (\<open>dispatchViaExecutor\<close>): it does not cancel a
  task whose lease was given up on purpose, it does cancel one whose lease was lost, and its renewal
  interval stays in the documented range.
\<close>

section \<open>Deliberate hand-offs are not cancelled\<close>

text \<open>The watched task is still held under the lease, or has left RUNNING and LEASED.\<close>

definition held_or_handed_off :: "string \<Rightarrow> string \<Rightarrow> db \<Rightarrow> bool" where
  "held_or_handed_off i l d \<longleftrightarrow> tasks_ok (db_tasks d) \<and>
     (\<exists>r \<in> set (db_tasks d). task_ID r = i \<and> (lease_held i l r \<or>
        task_Status r \<noteq> TaskStatusRunning \<and> task_Status r \<noteq> TaskStatusLeased))"

lemma renew_keeps_handed_off:
  assumes "held_or_handed_off i l d" and "RenewLease i l n d = (e, d')"
  shows "held_or_handed_off i l d'"
proof -
  from assms(1) have ok: "tasks_ok (db_tasks d)" by (simp add: held_or_handed_off_def)
  have ok': "tasks_ok (db_tasks d')" using assms(2) ok by (rule RenewLease_ok)
  from assms(1) obtain r where r: "r \<in> set (db_tasks d)" "task_ID r = i" "lease_held i l r \<or>
      task_Status r \<noteq> TaskStatusRunning \<and> task_Status r \<noteq> TaskStatusLeased"
    by (auto simp: held_or_handed_off_def)
  have "\<exists>r' \<in> set (db_tasks d'). same_but_times r r'"
    using sqlite_renew_rows [OF ok assms(2)] r(1) by (metis same_but_times_refl)
  then obtain r' where r': "r' \<in> set (db_tasks d')" "same_but_times r r'" by blast
  from same_but_times_fields [OF r'(2)] same_but_times_held [OF r'(2)] r r'(1) ok' show ?thesis
    by (auto simp: held_or_handed_off_def)
qed

lemma renew_step_no_escalation:
  assumes "held_or_handed_off i l d" and "task_ID t = i" and "task_LeaseID t = Some l"
    and "renew_step (sqlite_repo lt) ls ri t now w d = (res, d')"
  shows "\<exists>w'. res = Inr w' \<and> held_or_handed_off i l d'"
proof -
  obtain e d1 where ren: "RenewLease i l ls d = (e, d1)" by fastforce
  have keep: "held_or_handed_off i l d1" using assms(1) ren by (rule renew_keeps_handed_off)
  from assms(1) have ok: "tasks_ok (db_tasks d)" by (simp add: held_or_handed_off_def)
  have "e = None \<or> e = Some ErrLeaseNotFound \<and> leaseClearedByTransition (sqlite_repo lt) i d1"
  proof (cases "\<exists>q \<in> set (db_tasks d). lease_held i l q")
    case True
    with sqlite_renew_rows [OF ok ren] show ?thesis by simp
  next
    case False
    with sqlite_renew_rows [OF ok ren] have e: "e = Some ErrLeaseNotFound" "d1 = d" by auto
    from assms(1) False obtain r where r: "r \<in> set (db_tasks d)" "task_ID r = i"
      "task_Status r \<noteq> TaskStatusRunning" "task_Status r \<noteq> TaskStatusLeased"
      by (auto simp: held_or_handed_off_def)
    then show ?thesis
      using Get_row [OF ok r(1)] e by (simp add: leaseClearedByTransition_def sqlite_repo_def)
  qed
  with assms(1-4) ren keep show ?thesis
    by (auto simp: renew_step_def taskLeaseID_def sqlite_repo_def split: if_splits)
qed

text \<open>
  A deliberate hand-off is never cancelled. While a dispatched task is, at every moment of
  the watch, either still held under its lease or out of RUNNING and LEASED (the executor put it to
  AWAITING_INPUT, AWAITING_EXTERNAL, PAUSED or COMPLETED and cleared the lease, or an operator
  cancelled it), the watch never escalates to cancelling the executor, whatever the clock does and
  however long it runs.
\<close>

theorem handed_off_task_not_cancelled:
  assumes "held_or_handed_off i l d" and "task_ID t = i" and "task_LeaseID t = Some l"
    and "list_all (\<lambda>k. \<forall>x. held_or_handed_off i l x \<longrightarrow> held_or_handed_off i l (dt_env k x)) ticks"
  shows "\<nexists>msg d'. watch_loop (sqlite_repo lt) ls ri t ticks w d = Some (WatchEscalated msg, d')"
  using assms
proof (induction ticks arbitrary: w d)
  case Nil
  then show ?case by simp
next
  case (Cons k ks)
  obtain res d1 where step: "renew_step (sqlite_repo lt) ls ri t (dt_now k) w d = (res, d1)" by fastforce
  from renew_step_no_escalation [OF Cons.prems(1-3) step] obtain w1
    where w1: "res = Inr w1" "held_or_handed_off i l d1" by blast
  with Cons.prems(4) have "held_or_handed_off i l (dt_env k d1)" by simp
  from Cons.IH [OF this Cons.prems(2,3), of w1] Cons.prems(4) step w1(1) show ?case by auto
qed

definition quiet_tick :: "nanos \<Rightarrow> db dispatch_tick" where
  "quiet_tick n = \<lparr>dt_executing = True, dt_now = n, dt_done = False, dt_env = (\<lambda>d. d)\<rparr>"

theorem handed_off_task_not_cancelled_witness:
  "\<nexists>msg d'. watch_loop (sqlite_repo (<)) 60 30 held_row (map quiet_tick [50, 100, 150])
     \<lparr>w_lastRenewal = 0, w_renewFailures = 2, w_leaseReleased = False\<rparr> held_db = Some (WatchEscalated msg, d')"
proof (rule handed_off_task_not_cancelled)
  show "held_or_handed_off ''t1'' ''lease-a'' held_db"
    using held_db_facts by (auto simp: held_or_handed_off_def lease_held_def)
qed (simp_all add: held_row_def demo_task_def quiet_tick_def)

section \<open>A lost lease is cancelled\<close>

definition lease_lost :: "string \<Rightarrow> string \<Rightarrow> db \<Rightarrow> bool" where
  "lease_lost i l d \<longleftrightarrow> tasks_ok (db_tasks d) \<and> (\<exists>r \<in> set (db_tasks d). task_ID r = i \<and>
     task_Status r \<in> {TaskStatusRunning, TaskStatusLeased} \<and> task_LeaseID r \<noteq> Some l)"

lemma renew_step_lost:
  assumes "lease_lost i l d" and "task_ID t = i" and "task_LeaseID t = Some l" and "l \<noteq> []"
    and "\<not> w_leaseReleased w" and "ri \<le> now - w_lastRenewal w"
  shows "renew_step (sqlite_repo lt) ls ri t now w d =
    (if w_renewFailures w + 1 \<ge> 3
     then (Inl (''failed to renew task lease ('' @ show_int (w_renewFailures w + 1) @
                '' consecutive failures): lease not found''), d)
     else (Inr (w\<lparr>w_renewFailures := w_renewFailures w + 1, w_lastRenewal := now + (- ri + Second)\<rparr>), d))"
proof -
  from assms(1) obtain r where ok: "tasks_ok (db_tasks d)" and r: "r \<in> set (db_tasks d)" "task_ID r = i"
    "task_Status r \<in> {TaskStatusRunning, TaskStatusLeased}" "task_LeaseID r \<noteq> Some l"
    by (auto simp: lease_lost_def)
  have "\<not> lease_held i l q" if "q \<in> set (db_tasks d)" for q
    using tasks_ok_unique [OF ok that r(1)] r(2,4) by (auto simp: lease_held_def)
  then have "RenewLease i l ls d = (Some ErrLeaseNotFound, d)"
    using sqlite_renew_rows [OF ok, of i l ls] by (cases "RenewLease i l ls d") auto
  moreover have "\<not> leaseClearedByTransition (sqlite_repo lt) i d"
    using Get_row [OF ok r(1)] r(2,3) by (auto simp: leaseClearedByTransition_def sqlite_repo_def)
  ultimately show ?thesis
    using assms(2-6) by (simp add: renew_step_def taskLeaseID_def sqlite_repo_def maxRenewFailures_def)
qed

text \<open>
  A lost lease ends the dispatch. If the store shows the task RUNNING or LEASED under another
  lease, the watch gives up at the third failed renewal: three iterations in which the executor still
  runs, the first at least a renewal interval after the last renewal and the others at least a second
  after the one before, end in the escalation that cancels the executor before the slot is released,
  so the task is not executed twice for longer than that.
\<close>

theorem lost_lease_cancels_executor:
  assumes "lease_lost i l d" and "task_ID t = i" and "task_LeaseID t = Some l" and "l \<noteq> []"
    and "ri \<le> dt_now k1 - start" and "Second \<le> dt_now k2 - dt_now k1" and "Second \<le> dt_now k3 - dt_now k2"
    and "list_all (\<lambda>k. dt_executing k \<and> \<not> dt_done k \<and> (\<forall>x. lease_lost i l x \<longrightarrow> lease_lost i l (dt_env k x)))
      [k1, k2, k3]"
    and "ev_execute_error ev = None"
  shows "\<exists>msg d'. dispatchViaExecutor (sqlite_repo lt) cfg ri start ev (k1 # k2 # k3 # ks) t d =
    Some ((dispatchFailed, msg), ev_cancel ev d') \<and> lease_lost i l d'"
proof -
  let ?R = "sqlite_repo lt" and ?ls = "cfg_LeaseDurationSeconds cfg"
  let ?w0 = "\<lparr>w_lastRenewal = start, w_renewFailures = 0, w_leaseReleased = False\<rparr>"
  let ?w1 = "\<lparr>w_lastRenewal = dt_now k1 + (- ri + Second), w_renewFailures = 1, w_leaseReleased = False\<rparr>"
  let ?w2 = "\<lparr>w_lastRenewal = dt_now k2 + (- ri + Second), w_renewFailures = 2, w_leaseReleased = False\<rparr>"
  let ?d1 = "dt_env k1 d" and ?d2 = "dt_env k2 (dt_env k1 d)"
  have l1: "lease_lost i l ?d1" and l2: "lease_lost i l ?d2" using assms(1,8) by simp_all
  have s1: "renew_step ?R ?ls ri t (dt_now k1) ?w0 d = (Inr ?w1, d)"
    using renew_step_lost [OF assms(1-4), of ?w0] assms(5) by simp
  have s2: "renew_step ?R ?ls ri t (dt_now k2) ?w1 ?d1 = (Inr ?w2, ?d1)"
    using renew_step_lost [OF l1 assms(2-4), of ?w1] assms(6) by simp
  have s3: "\<exists>msg. renew_step ?R ?ls ri t (dt_now k3) ?w2 ?d2 = (Inl msg, ?d2)"
    using renew_step_lost [OF l2 assms(2-4), of ?w2] assms(7) by simp
  then obtain msg where s3: "renew_step ?R ?ls ri t (dt_now k3) ?w2 ?d2 = (Inl msg, ?d2)" by blast
  have "watch_loop ?R ?ls ri t (k1 # k2 # k3 # ks) ?w0 d = Some (WatchEscalated msg, ?d2)"
    using assms(8) s1 s2 s3 by simp
  with assms(9) l2 show ?thesis by (auto simp: dispatchViaExecutor_def)
qed

theorem lost_lease_cancels_executor_witness:
  "\<exists>msg d'. dispatchViaExecutor (sqlite_repo (<)) DefaultConfig 30 0
     \<lparr>ev_execute_error = None, ev_cancel = (\<lambda>d. d), ev_execution_status = (\<lambda>d. None)\<rparr>
     [quiet_tick 30, quiet_tick 2000000000, quiet_tick 4000000000]
     (held_row\<lparr>task_LeaseID := Some ''lease-b''\<rparr>) held_db = Some ((dispatchFailed, msg), d')"
proof -
  have "lease_lost ''t1'' ''lease-b'' held_db"
    using held_db_facts(1) by (simp add: lease_lost_def held_db_def held_row_def demo_task_def)
  from lost_lease_cancels_executor [OF this, of "held_row\<lparr>task_LeaseID := Some ''lease-b''\<rparr>" 30 "quiet_tick 30" 0
      "quiet_tick 2000000000" "quiet_tick 4000000000"
      "\<lparr>ev_execute_error = None, ev_cancel = (\<lambda>d. d), ev_execution_status = (\<lambda>d. None)\<rparr>" "(<)" DefaultConfig "[]"]
  show ?thesis by (auto simp: held_row_def demo_task_def quiet_tick_def Second_def)
qed

section \<open>The renewal interval\<close>

lemma truncate_rat_bound:
  assumes "\<bar>q\<bar> \<le> of_int b / 4"
  shows "\<bar>4 * truncate_rat q\<bar> \<le> b"
proof -
  have "\<bar>of_int (truncate_rat q)\<bar> \<le> \<bar>q\<bar>"
  proof (cases "q < 0")
    case True
    then have "0 \<le> \<lfloor>- q\<rfloor>" by simp
    with True of_int_floor_le [of "- q"] show ?thesis by (simp add: truncate_rat_def)
  next
    case False
    then have "0 \<le> \<lfloor>q\<rfloor>" by simp
    with False of_int_floor_le [of q] show ?thesis by (simp add: truncate_rat_def)
  qed
  with assms have "of_int \<bar>4 * truncate_rat q\<bar> \<le> (of_int b :: rat)" by simp
  then show ?thesis by linarith
qed

text \<open>
  The jittered renewal interval is within a quarter of half the lease. For every lease of at
  least a second (below 104 days) and every value of \<open>rand.Float64\<close>, the interval lies between 3/8 and
  5/8 of the lease duration, so a renewal is always attempted before the lease expires. The rounding of
  the floating-point product only needs to be monotone and exact on half-integers below \<open>2^53\<close>, as
  IEEE 754 doubles are.
\<close>

theorem renew_interval_range:
  assumes "0 \<le> r" and "r < 1" and "1 \<le> n" and "n * 1000000000 < 2 ^ 53"
    and "mono fl" and "\<And>k. \<bar>k\<bar> < 2 ^ 53 \<Longrightarrow> fl (of_int k / 2) = of_int k / 2"
  shows "3 * (n * 1000000000) \<le> 8 * computeJitteredRenewInterval fl r n \<and>
    8 * computeJitteredRenewInterval fl r n \<le> 5 * (n * 1000000000)"
proof -
  let ?b = "n * 500000000" and ?x = "(r - 1/2) * of_int (n * 500000000) :: rat"
  have base: "(n * Second) div 2 = ?b" by (simp add: Second_def)
  have b: "500000000 \<le> ?b" "\<bar>?b\<bar> < 2 ^ 53" "\<bar>- ?b\<bar> < 2 ^ 53" using assms(3,4) by auto
  have pos: "(0::rat) \<le> of_int ?b" using b(1) by simp
  have "- (1/2) * of_int ?b \<le> ?x" using assms(1) pos by (intro mult_right_mono) simp_all
  then have lo: "of_int (- ?b) / 2 \<le> ?x" by simp
  have "?x \<le> 1/2 * of_int ?b" using assms(2) pos by (intro mult_right_mono) simp_all
  then have hi: "?x \<le> of_int ?b / 2" by simp
  have "fl (of_int (- ?b) / 2) \<le> fl ?x" "fl ?x \<le> fl (of_int ?b / 2)"
    using monoD [OF assms(5) lo] monoD [OF assms(5) hi] by auto
  then have "of_int (- ?b) / 2 \<le> fl ?x" "fl ?x \<le> of_int ?b / 2"
    using assms(6) [OF b(2)] assms(6) [OF b(3)] by auto
  then have "\<bar>fl ?x / 2\<bar> \<le> of_int ?b / 4" by (simp add: abs_le_iff)
  from truncate_rat_bound [OF this] have j: "\<bar>4 * truncate_rat (fl ?x / 2)\<bar> \<le> ?b" .
  then have "\<not> ?b + truncate_rat (fl ?x / 2) < 100000000" using b(1) by linarith
  then have "computeJitteredRenewInterval fl r n = ?b + truncate_rat (fl ?x / 2)"
    using b(1) by (simp add: computeJitteredRenewInterval_def Let_def base)
  with j show ?thesis by linarith
qed

theorem renew_interval_range_witness:
  "8 * computeJitteredRenewInterval (\<lambda>x. x) (1/4) 300 \<le> 5 * (300 * 1000000000)"
  by (rule renew_interval_range [THEN conjunct2]) (simp_all add: mono_def)

text \<open>
  The recovery grace does not exceed the peak renewal interval. The comment on
  \<open>dynamicRecoveryGrace\<close> requires it always to; with the default configuration (5 minute leases,
  90 second grace) the grace is at most 180 seconds at any load, while renewal intervals above that
  occur.
\<close>

theorem grace_below_peak_renewal:
  "\<exists>r. 0 \<le> r \<and> r < 1 \<and> (\<forall>sd. sd_config sd = DefaultConfig \<longrightarrow>
     dynamicRecoveryGrace sd < computeJitteredRenewInterval (\<lambda>x. x) r (cfg_LeaseDurationSeconds DefaultConfig))"
proof (intro exI conjI allI impI)
  fix sd :: sched
  assume "sd_config sd = DefaultConfig"
  then have "dynamicRecoveryGrace sd \<le> 180 * Second"
    by (simp add: dynamicRecoveryGrace_def Let_def DefaultConfig_def Second_def)
  moreover have "computeJitteredRenewInterval (\<lambda>x. x) (99/100) 300 = 186750000000"
    by (simp add: computeJitteredRenewInterval_def truncate_rat_def Let_def Second_def)
  ultimately show "dynamicRecoveryGrace sd <
      computeJitteredRenewInterval (\<lambda>x. x) (99/100) (cfg_LeaseDurationSeconds DefaultConfig)"
    by (simp add: DefaultConfig_def Second_def)
qed simp_all

theorem grace_below_peak_renewal_witness:
  "\<exists>r. dynamicRecoveryGrace (NewWithOptions None ''h'') < computeJitteredRenewInterval (\<lambda>x. x) r 300"
proof -
  have "sd_config (NewWithOptions None ''h'') = DefaultConfig"
    by (simp add: NewWithOptions_def normalize_config_def DefaultConfig_def clock_units)
  with grace_below_peak_renewal show ?thesis by (auto simp: DefaultConfig_def)
qed

end
