(* ===== verification/DaemonRaces.thy ===== *)
theory DaemonRaces
  imports DaemonProps ExecutorProps SchedulerWatch
begin

text \<open>
  Where the executor's table of executions, the finalisers of a run and the scheduler's watch meet on one task
  row: what a resumed run writes back when it fails, and what cancelling a run does to a row another worker has
  taken over.
\<close>

section \<open>A resumed run that fails\<close>

lemma resume_run_started:
  assumes "resume_run V i D = (None, D')" and "Get i (st_db (dm_store D)) = Inr t"
  shows "\<exists>ex. dm_runs D' = (t, ex) # dm_runs D"
  using assms by (auto simp: resume_run_def start_run_def split: prod.splits sum.splits)

lemma same_keys_count [simp]: "same_keys (count_attempts t a) r = same_keys t r"
  by (simp add: same_keys_def count_attempts_def)

text \<open>
  Resuming a paused task reads the task while it is still PAUSED and hands that copy to the new run. When the run
  fails with attempts left, it writes the copy back: the task is PAUSED again although no operator paused it, and
  as no dispatch watches a resumed run, no retry is queued.
\<close>

theorem resumed_failure_restores_pause:
  assumes "resume_run V i D = (None, D')" and "Get i (st_db (dm_store D)) = Inr t" and "task_Status t = TaskStatusPaused"
    and "\<forall>t d. rn_Update L t d = snd (Update (Some t) d)" and "spares_view db_tasks L" and "task_ParentTaskID t = None"
    and "\<not> paused_by_operator L t d" and "tasks_ok (db_tasks d)" and "r \<in> set (db_tasks d)" and "same_keys t r"
    and "taskWillRetry (count_attempts t a)" and "handleFailure L (count_attempts t a) ex err d = (t', d')"
  shows "(\<exists>ex0. dm_runs D' = (t, ex0) # dm_runs D)
       \<and> (\<exists>r'. row_of i d' = Some r' \<and> task_Status r' = TaskStatusPaused \<and> task_LastError r' = Some (failure_text err))"
proof -
  let ?t = "count_attempts t a"
  have id: "task_ID t = i" "task_ID r = i" using Get_ID [OF assms(2)] assms(10) by (auto simp: same_keys_def)
  have p: "\<not> paused_by_operator L ?t d" using assms(7) by (simp add: paused_by_operator_def)
  have decl: "declared_status (task_Status ?t)" using assms(3) by (simp add: declared_status_def)
  from handleFailure_tasks [OF assms(4,5) _ p assms(8,9) _ decl, of ex err] assms(6,10,12) obtain now
    where ts: "db_tasks d' = sql_update (\<lambda>x. task_ID x = i) (updated_row (failed_task ?t err) now) (db_tasks d)"
    using id(1) by auto
  let ?r = "updated_row (failed_task ?t err) now r"
  have "row_of i (d\<lparr>db_tasks := db_tasks d'\<rparr>) = Some ?r"
    unfolding ts using row_of_unique [OF assms(8,9)] id by (intro row_of_update) (auto simp: updated_row_def)
  then have "row_of i d' = Some ?r" by (simp add: row_of_def)
  moreover have "task_Status ?r = TaskStatusPaused" using assms(3,11) by (simp add: updated_row_def failed_task_status)
  moreover have "task_LastError ?r = Some (failure_text err)" by (simp add: updated_row_def failed_task_def Let_def)
  ultimately show ?thesis using resume_run_started [OF assms(1,2)] by blast
qed

section \<open>A lost lease\<close>

text \<open>The dispatch watch cancels through the executor's table.\<close>

definition cancel_through :: "string \<Rightarrow> daemon \<Rightarrow> db \<Rightarrow> db" where
  "cancel_through i D d = st_db (dm_store (snd (Cancel i (D\<lparr>dm_store := (dm_store D)\<lparr>st_db := d\<rparr>\<rparr>))))"

lemma cancel_through_db:
  "dm_active D i \<noteq> None \<Longrightarrow> cancel_through i D d = snd (UpdateStatus i TaskStatusCancelled d)"
  by (auto simp: cancel_through_def Cancel_def Let_def cancel_handle_def set_task_status_db execUpdateStatus_def exec_done_def exec_write_def
      execSupersedeNonTerminalForTask_def split: sum.split)

text \<open>
  \<^bold>\<open>C40.\<close> A worker that lost its lease cancels the task, not only its own run. When its row is RUNNING or LEASED under
  another lease, the watch's escalation goes through \<open>Cancel\<close>, which writes CANCELLED without looking at the lease:
  the task of the worker that took over ends CANCELLED.
\<close>

theorem lost_lease_cancels_successor:
  assumes "lease_lost i l d" and "task_ID t = i" and "task_LeaseID t = Some l" and "l \<noteq> []"
    and "ri \<le> dt_now k1 - start" and "Second \<le> dt_now k2 - dt_now k1" and "Second \<le> dt_now k3 - dt_now k2"
    and "list_all (\<lambda>k. dt_executing k \<and> \<not> dt_done k \<and> (\<forall>x. lease_lost i l x \<longrightarrow> lease_lost i l (dt_env k x)))
      [k1, k2, k3]"
    and "ev_execute_error ev = None" and "ev_cancel ev = cancel_through i D" and "dm_active D i \<noteq> None"
  shows "\<exists>msg d' r. dispatchViaExecutor (sqlite_repo lt) cfg ri start ev (k1 # k2 # k3 # ks) t d = Some ((dispatchFailed, msg), d')
     \<and> row_of i d' = Some r \<and> task_Status r = TaskStatusCancelled \<and> task_LeaseID r \<noteq> Some l"
proof -
  from lost_lease_cancels_executor [OF assms(1-9)] obtain msg d1 where
    w: "dispatchViaExecutor (sqlite_repo lt) cfg ri start ev (k1 # k2 # k3 # ks) t d = Some ((dispatchFailed, msg), cancel_through i D d1)"
    and lost: "lease_lost i l d1" unfolding assms(10) by blast
  from lost obtain r where ok: "tasks_ok (db_tasks d1)" and r: "r \<in> set (db_tasks d1)" "task_ID r = i" "task_LeaseID r \<noteq> Some l"
    by (auto simp: lease_lost_def)
  let ?f = "\<lambda>t. t\<lparr>task_Status := TaskStatusCancelled, task_UpdatedAt := db_now d1\<rparr>"
  have "cancel_through i D d1 = d1\<lparr>db_tasks := sql_update (\<lambda>t. task_ID t = i) ?f (db_tasks d1)\<rparr>"
    by (simp add: cancel_through_db [OF assms(11)] UpdateStatus_declared declared_status_def)
  moreover have "row_of i (d1\<lparr>db_tasks := sql_update (\<lambda>t. task_ID t = i) ?f (db_tasks d1)\<rparr>) = Some (?f r)"
    using row_of_unique [OF ok r(1)] r(2) by (intro row_of_update) auto
  ultimately show ?thesis using w r(3) by (intro exI [of _ msg] exI [of _ "cancel_through i D d1"] exI [of _ "?f r"]) simp
qed

section \<open>Concrete runs\<close>

definition paused_store :: store where
  "paused_store = \<lparr>st_db = wake_db\<lparr>db_tasks := [run_task\<lparr>task_Status := TaskStatusPaused\<rparr>]\<rparr>,
     st_execs = [(demo_exec ''build'' 0)\<lparr>ex_Status := ExecutionStatusPaused\<rparr>]\<rparr>"

theorem resumed_failure_restores_pause_witness:
  "\<exists>D' t' d' r'. resume_run demo_daemon_env ''parent'' (idle_daemon paused_store) = (None, D')
     \<and> handleFailure (demo_env (\<lambda>_. False) (failing_agent False []))
         (count_attempts (scanSqliteTask (run_task\<lparr>task_Status := TaskStatusPaused\<rparr>)) 1) (demo_exec ''build'' 0) None
         (run_db\<lparr>db_tasks := [run_task]\<rparr>) = (t', d')
     \<and> row_of ''parent'' d' = Some r' \<and> task_Status r' = TaskStatusPaused"
proof -
  let ?L = "demo_env (\<lambda>_. False) (failing_agent False [])" and ?D = "idle_daemon paused_store"
  let ?t = "scanSqliteTask (run_task\<lparr>task_Status := TaskStatusPaused\<rparr>)"
  let ?d = "run_db\<lparr>db_tasks := [run_task]\<rparr>"
  obtain D' where r: "resume_run demo_daemon_env ''parent'' ?D = (None, D')"
  proof -
    have "fst (resume_run demo_daemon_env ''parent'' ?D) = None" by code_simp
    with that show thesis by (metis prod.collapse)
  qed
  have g: "Get ''parent'' (st_db (dm_store ?D)) = Inr ?t"
    by (simp add: Get_def scan_one_def query_row_def idle_daemon_def paused_store_def run_task_def wake_parent_def)
  have s: "task_Status ?t = TaskStatusPaused" by (simp add: scanSqliteTask_def)
  have u: "\<forall>t d. rn_Update ?L t d = snd (Update (Some t) d)" by (simp add: demo_env_def)
  have v: "spares_view db_tasks ?L" by (rule demo_env_spares) simp
  have f: "task_ParentTaskID ?t = None" "\<not> paused_by_operator ?L ?t ?d" "tasks_ok (db_tasks ?d)" "run_task \<in> set (db_tasks ?d)"
    "same_keys ?t run_task" "taskWillRetry (count_attempts ?t 1)" by code_simp+
  obtain t' d' where h: "handleFailure ?L (count_attempts ?t 1) (demo_exec ''build'' 0) None ?d = (t', d')" by (metis surj_pair)
  from resumed_failure_restores_pause [OF r g s u v f h] r h show ?thesis by blast
qed

theorem lost_lease_cancels_successor_witness:
  "\<exists>msg d' r. dispatchViaExecutor (sqlite_repo (<)) DefaultConfig 30 0
     \<lparr>ev_execute_error = None, ev_cancel = cancel_through ''t1'' (start_run False held_row (demo_exec ''build'' 0) (idle_daemon paused_store)),
      ev_execution_status = (\<lambda>d. None)\<rparr> [quiet_tick 30, quiet_tick 2000000000, quiet_tick 4000000000]
     (held_row\<lparr>task_LeaseID := Some ''lease-b''\<rparr>) held_db = Some ((dispatchFailed, msg), d')
   \<and> row_of ''t1'' d' = Some r \<and> task_Status r = TaskStatusCancelled"
proof -
  let ?D = "start_run False held_row (demo_exec ''build'' 0) (idle_daemon paused_store)"
  let ?ev = "\<lparr>ev_execute_error = None, ev_cancel = cancel_through ''t1'' ?D, ev_execution_status = (\<lambda>d :: db. None :: execution_status option)\<rparr>"
  have l: "lease_lost ''t1'' ''lease-b'' held_db"
    using held_db_facts(1) by (simp add: lease_lost_def held_db_def held_row_def demo_task_def)
  have a: "dm_active ?D ''t1'' \<noteq> None" by (simp add: start_run_def held_row_def demo_task_def)
  have "\<exists>msg d' r. dispatchViaExecutor (sqlite_repo (<)) DefaultConfig 30 0 ?ev
      (quiet_tick 30 # quiet_tick 2000000000 # quiet_tick 4000000000 # []) (held_row\<lparr>task_LeaseID := Some ''lease-b''\<rparr>) held_db
      = Some ((dispatchFailed, msg), d') \<and> row_of ''t1'' d' = Some r \<and> task_Status r = TaskStatusCancelled \<and> task_LeaseID r \<noteq> Some ''lease-b''"
    by (rule lost_lease_cancels_successor [OF l _ _ _ _ _ _ _ _ _ a])
      (simp_all add: held_row_def demo_task_def quiet_tick_def Second_def)
  then show ?thesis by blast
qed

end
