(* ===== verification/CrossCalls.thy ===== *)
theory CrossCalls
  imports ExecutorRun
begin

text \<open>
  Calls between projects: the ledger of calls (\<^verbatim>\<open>src/internal/persistence/postgres/cross_project_call_repository.go\<close>;
  the SQLite repository refuses every operation), the handler of \<open>call_project\<close> steps with its admission checks
  (\<^verbatim>\<open>src/internal/executor/call_project.go\<close>, \<^verbatim>\<open>call_project_lineage.go\<close>, \<^verbatim>\<open>src/internal/registry/project.go\<close>),
  the resolution of a call when its task ends, and the timeout scanner (\<^verbatim>\<open>cpc_timeout_scanner.go\<close>). Audit rows,
  live events and metrics are left out.
\<close>

section \<open>The ledger\<close>

datatype cpc_status =
    CPCStatusPending | CPCStatusRunning | CPCStatusCompleted | CPCStatusFailed | CPCStatusTimedOut | CPCStatusRejected
  | CPCStatusOther string

definition IsTerminal :: "cpc_status \<Rightarrow> bool" where
  "IsTerminal st \<longleftrightarrow> st \<in> {CPCStatusCompleted, CPCStatusFailed, CPCStatusTimedOut, CPCStatusRejected}"

record cross_call =
  cc_ID :: string
  cc_CallerTaskID :: string
  cc_CallerStepID :: string
  cc_CallerProject :: string
  cc_CalleeProject :: string
  cc_CalleeWorkflow :: string
  cc_CalleeTaskID :: "string option"
  cc_Payload :: string
  cc_ExpectedSchema :: string
  cc_Status :: cpc_status
  cc_ResultEnvelope :: "string option"
  cc_ErrorMessage :: "string option"
  cc_TimeoutAt :: "nanos option"
  cc_CreatedAt :: nanos
  cc_ResolvedAt :: "nanos option"
  cc_CancelOnTimeout :: bool

record ledger =
  lg_db :: db
  lg_calls :: "cross_call list"

abbreviation lg_now :: "ledger \<Rightarrow> nanos" where
  "lg_now s \<equiv> db_now (lg_db s)"

definition cpc_write :: "(cross_call \<Rightarrow> bool) \<Rightarrow> (cross_call \<Rightarrow> cross_call) \<Rightarrow> ledger \<Rightarrow> ledger" where
  "cpc_write P f s = s\<lparr>lg_calls := sql_update P f (lg_calls s)\<rparr>"

text \<open>The columns the \<open>INSERT\<close> does not name take their defaults.\<close>

definition insert_call :: "nanos \<Rightarrow> cross_call \<Rightarrow> cross_call" where
  "insert_call now c = c\<lparr>cc_ResultEnvelope := None, cc_ErrorMessage := None, cc_CreatedAt := now, cc_ResolvedAt := None\<rparr>"

definition cpcCreate :: "(string \<Rightarrow> ledger \<Rightarrow> string \<times> ledger) \<Rightarrow> cross_call option \<Rightarrow> ledger \<Rightarrow> (repo_error + cross_call) \<times> ledger" where
  "cpcCreate generateID cp s = (case cp of
       None \<Rightarrow> (Inl (ErrOther ''cross_project_calls: nil row''), s)
     | Some c0 \<Rightarrow>
         (case (if cc_ID c0 = [] then generateID ''ccp'' s else (cc_ID c0, s)) of (i, s1) \<Rightarrow>
          (let c = c0\<lparr>cc_ID := i, cc_Status := (if cc_Status c0 = CPCStatusOther [] then CPCStatusPending else cc_Status c0)\<rparr>
           in if cc_Payload c = [] then (Inl (ErrConstraint ''cross_project_calls''), s1)
              else if i \<in> cc_ID ` set (lg_calls s1) then (Inl (ErrOther ''duplicate key''), s1)
              else (Inr c, s1\<lparr>lg_calls := lg_calls s1 @ [insert_call (lg_now s1) c]\<rparr>))))"

definition scanCrossProjectCall :: "cross_call \<Rightarrow> cross_call" where
  "scanCrossProjectCall c = c\<lparr>cc_ResultEnvelope := nullableBlob (cc_ResultEnvelope c)\<rparr>"

definition cpcGet :: "string \<Rightarrow> ledger \<Rightarrow> repo_error + cross_call" where
  "cpcGet i s = (case query_row (filter (\<lambda>c. cc_ID c = i) (lg_calls s)) of
       None \<Rightarrow> Inl ErrNotFound | Some c \<Rightarrow> Inr (scanCrossProjectCall c))"

definition cpcGetByCalleeTaskID :: "string \<Rightarrow> ledger \<Rightarrow> repo_error + cross_call" where
  "cpcGetByCalleeTaskID i s = (case query_row (filter (\<lambda>c. cc_CalleeTaskID c = Some i) (lg_calls s)) of
       None \<Rightarrow> Inl ErrNotFound | Some c \<Rightarrow> Inr (scanCrossProjectCall c))"

definition cpcSetCalleeTaskID :: "string \<Rightarrow> string \<Rightarrow> ledger \<Rightarrow> repo_error option \<times> ledger" where
  "cpcSetCalleeTaskID i calleeTaskID s =
     (if calleeTaskID = [] then (Some (ErrOther ''cross_project_calls: callee_task_id required''), s)
      else (let P = (\<lambda>c. cc_ID c = i \<and> cc_CalleeTaskID c = None);
                s1 = cpc_write P (\<lambda>c. c\<lparr>cc_CalleeTaskID := Some calleeTaskID\<rparr>) s
            in if rows_affected P (lg_calls s) = 0 then (Some ErrNotFound, s1) else (None, s1)))"

definition cpcMarkRunning :: "string \<Rightarrow> ledger \<Rightarrow> ledger" where
  "cpcMarkRunning i s = cpc_write (\<lambda>c. cc_ID c = i \<and> cc_Status c = CPCStatusPending) (\<lambda>c. c\<lparr>cc_Status := CPCStatusRunning\<rparr>) s"

definition open_call :: "string \<Rightarrow> cross_call \<Rightarrow> bool" where
  "open_call i c \<longleftrightarrow> cc_ID c = i \<and> \<not> IsTerminal (cc_Status c)"

definition cpcMarkCompleted :: "string \<Rightarrow> string \<Rightarrow> ledger \<Rightarrow> ledger" where
  "cpcMarkCompleted i envelope s = cpc_write (open_call i)
     (\<lambda>c. c\<lparr>cc_Status := CPCStatusCompleted, cc_ResultEnvelope := nullableBlob (Some envelope), cc_ResolvedAt := Some (lg_now s)\<rparr>) s"

definition cpcMarkFailed :: "string \<Rightarrow> string \<Rightarrow> ledger \<Rightarrow> ledger" where
  "cpcMarkFailed i reason s = cpc_write (open_call i)
     (\<lambda>c. c\<lparr>cc_Status := CPCStatusFailed, cc_ErrorMessage := (if reason = [] then None else Some reason),
        cc_ResolvedAt := Some (lg_now s)\<rparr>) s"

definition cpcMarkRejected :: "string \<Rightarrow> string \<Rightarrow> ledger \<Rightarrow> ledger" where
  "cpcMarkRejected i reason s = cpc_write (open_call i)
     (\<lambda>c. c\<lparr>cc_Status := CPCStatusRejected, cc_ErrorMessage := (if reason = [] then None else Some reason),
        cc_ResolvedAt := Some (lg_now s)\<rparr>) s"

definition cpcAdminCancel :: "string \<Rightarrow> string \<Rightarrow> ledger \<Rightarrow> ledger" where
  "cpcAdminCancel i reason s = cpc_write (open_call i)
     (\<lambda>c. c\<lparr>cc_Status := CPCStatusRejected,
        cc_ErrorMessage := Some (if reason = [] then ''operator-cancelled via admin API'' else reason),
        cc_ResolvedAt := Some (lg_now s)\<rparr>) s"

definition overdue :: "nanos \<Rightarrow> cross_call \<Rightarrow> bool" where
  "overdue now c \<longleftrightarrow> cc_Status c \<in> {CPCStatusPending, CPCStatusRunning} \<and>
     (case cc_TimeoutAt c of Some t \<Rightarrow> t < now | None \<Rightarrow> False)"

definition claimed_ids :: "nanos \<Rightarrow> int \<Rightarrow> cross_call list \<Rightarrow> string list" where
  "claimed_ids now limit cs = map cc_ID (sql_limit (if limit \<le> 0 then 100 else limit)
     (select_asc (overdue now) (\<lambda>c. case cc_TimeoutAt c of Some t \<Rightarrow> t | None \<Rightarrow> 0) cs))"

definition timed_out_call :: "nanos \<Rightarrow> cross_call \<Rightarrow> cross_call" where
  "timed_out_call now c = c\<lparr>cc_Status := CPCStatusTimedOut,
     cc_ErrorMessage := (case cc_ErrorMessage c of Some m \<Rightarrow> Some m
       | None \<Rightarrow> Some ''cross_project_call timeout elapsed before resolve''),
     cc_ResolvedAt := Some now\<rparr>"

text \<open>The rows come back in an order SQL does not fix.\<close>

definition cpcClaimTimedOut ::
  "(cross_call list \<Rightarrow> cross_call list) \<Rightarrow> nanos \<Rightarrow> int \<Rightarrow> ledger \<Rightarrow> cross_call list \<times> ledger" where
  "cpcClaimTimedOut returning now limit s =
     (let ids = claimed_ids now limit (lg_calls s); s1 = cpc_write (\<lambda>c. cc_ID c \<in> set ids) (timed_out_call (lg_now s)) s
      in (map scanCrossProjectCall (returning (filter (\<lambda>c. cc_ID c \<in> set ids) (lg_calls s1))), s1))"

record cpc_list_filter =
  cf_Status :: cpc_status
  cf_CallerProject :: string
  cf_CalleeProject :: string
  cf_CreatedSince :: nanos
  cf_PageSize :: int

definition cpcList :: "cpc_list_filter \<Rightarrow> ledger \<Rightarrow> cross_call list" where
  "cpcList f s = map scanCrossProjectCall (sql_limit
     (if cf_PageSize f \<le> 0 then 200 else if cf_PageSize f > 1000 then 1000 else cf_PageSize f)
     (select_desc (\<lambda>c. (cf_Status f \<noteq> CPCStatusOther [] \<longrightarrow> cc_Status c = cf_Status f) \<and>
        (cf_CallerProject f \<noteq> [] \<longrightarrow> cc_CallerProject c = cf_CallerProject f) \<and>
        (cf_CalleeProject f \<noteq> [] \<longrightarrow> cc_CalleeProject c = cf_CalleeProject f) \<and>
        (cf_CreatedSince f \<noteq> 0 \<longrightarrow> cc_CreatedAt c \<ge> cf_CreatedSince f)) cc_CreatedAt (lg_calls s)))"

section \<open>Tasks in PostgreSQL\<close>

text \<open>
  The two task-repository methods the calls use (\<^verbatim>\<open>postgres/task_repository.go\<close>). Neither column list names
  \<open>cross_project_call_id\<close> or \<open>result_envelope\<close>. The table's constraints: unique ids and idempotency keys, the
  enum types, the two range checks, and the reference to the parent.
\<close>

definition pg_insert_row :: "task \<Rightarrow> task" where
  "pg_insert_row t = (insert_row t)\<lparr>task_Payload := task_Payload t\<rparr>"

definition pg_row_check :: "task \<Rightarrow> bool" where
  "pg_row_check t \<longleftrightarrow> row_check t \<and> 0 \<le> task_Priority t \<and> task_Priority t \<le> 100 \<and> 1 \<le> task_Attempt t \<and> task_Attempt t \<le> task_MaxAttempts t"

definition pgCreate :: "task option \<Rightarrow> db \<Rightarrow> (repo_error + task) \<times> db" where
  "pgCreate tp d = (case tp of
       None \<Rightarrow> (Inl (ErrOther ''task is nil''), d)
     | Some t0 \<Rightarrow>
         (let t = create_defaults (db_now d) t0; row = pg_insert_row t; ts = db_tasks d @ [row]
          in if \<not> pg_row_check row then (Inl (ErrConstraint ''tasks''), d)
             else if \<not> (distinct (map task_ID ts) \<and> distinct (idem_keys ts)) then (Inl (ErrOther ''duplicate key''), d)
             else if (case task_ParentTaskID row of Some p \<Rightarrow> p \<notin> task_ID ` set ts | None \<Rightarrow> False) then (Inl ErrNotFound, d)
             else (Inr t, d\<lparr>db_tasks := ts\<rparr>)))"

definition pg_scanTask :: "task \<Rightarrow> task" where
  "pg_scanTask t = t\<lparr>task_CrossProjectCallID := None, task_ResultEnvelope := None\<rparr>"

definition pgGet :: "string \<Rightarrow> db \<Rightarrow> repo_error + task" where
  "pgGet i d = (case query_row (filter (\<lambda>t. task_ID t = i) (db_tasks d)) of
       None \<Rightarrow> Inl ErrNotFound | Some t \<Rightarrow> Inr (pg_scanTask t))"

section \<open>Who may call whom\<close>

record call_policy =
  cl_CanCallProjects :: "string list"
  cl_AcceptCallsFrom :: "string list"
  cl_MaxCallDepth :: int

definition DefaultMaxCallDepth :: int where "DefaultMaxCallDepth = 8"

definition EffectiveMaxCallDepth :: "call_policy option \<Rightarrow> int" where
  "EffectiveMaxCallDepth p = (case p of
       None \<Rightarrow> DefaultMaxCallDepth
     | Some q \<Rightarrow> if cl_MaxCallDepth q \<le> 0 then DefaultMaxCallDepth else cl_MaxCallDepth q)"

text \<open>One entry of an allow-list; \<open>glob\<close> is \<^verbatim>\<open>path.Match\<close> where it matches without an error.\<close>

definition entry_matches :: "(string \<Rightarrow> string \<Rightarrow> bool) \<Rightarrow> string \<Rightarrow> string \<Rightarrow> bool" where
  "entry_matches glob pat0 i \<longleftrightarrow> (let pat = TrimSpace pat0 in pat \<noteq> [] \<and>
     (pat = ''*'' \<or> pat = i \<or> (\<exists>c \<in> set pat. c \<in> {CHR ''*'', CHR ''?'', CHR ''[''}) \<and> glob pat i))"

definition CanCall :: "(string \<Rightarrow> string \<Rightarrow> bool) \<Rightarrow> call_policy \<Rightarrow> string \<Rightarrow> bool" where
  "CanCall glob p calleeID \<longleftrightarrow> calleeID \<noteq> [] \<and>
     (cl_CanCallProjects p = [] \<or> list_ex (\<lambda>pat. entry_matches glob pat calleeID) (cl_CanCallProjects p))"

definition AcceptsCallsFrom :: "(string \<Rightarrow> string \<Rightarrow> bool) \<Rightarrow> call_policy \<Rightarrow> string \<Rightarrow> bool" where
  "AcceptsCallsFrom glob p callerID \<longleftrightarrow> callerID \<noteq> [] \<and> list_ex (\<lambda>pat. entry_matches glob pat callerID) (cl_AcceptCallsFrom p)"

section \<open>Lineage\<close>

record lineage_info =
  li_Depth :: int
  li_AncestorProjects :: "string set"
  li_LineagePath :: "string list"
  li_Truncated :: bool

definition lineageWalkHardLimit :: nat where "lineageWalkHardLimit = 256"

fun walk_parents :: "(string \<Rightarrow> string) \<Rightarrow> db \<Rightarrow> nat \<Rightarrow> task \<Rightarrow> lineage_info \<Rightarrow> string + lineage_info" where
  "walk_parents quote d 0 current out = Inr (out\<lparr>li_Truncated := True\<rparr>)"
| "walk_parents quote d (Suc hops) current out = (case task_ParentTaskID current of
       None \<Rightarrow> Inr out
     | Some p \<Rightarrow>
         if p = [] then Inr out
         else (case pgGet p d of
             Inl e \<Rightarrow> if e = ErrNotFound then Inr out else Inl (''walk lineage: get parent '' @ quote p @ '': '' @ err_text e)
           | Inr parent \<Rightarrow> walk_parents quote d hops parent
               (out\<lparr>li_Depth := (if task_ProjectID parent \<noteq> task_ProjectID current then li_Depth out + 1 else li_Depth out),
                  li_AncestorProjects := insert (task_ProjectID parent) (li_AncestorProjects out),
                  li_LineagePath := li_LineagePath out @ [task_ProjectID parent]\<rparr>)))"

definition walkCallerLineage :: "(string \<Rightarrow> string) \<Rightarrow> task \<Rightarrow> db \<Rightarrow> string + lineage_info" where
  "walkCallerLineage quote caller d = walk_parents quote d lineageWalkHardLimit caller
     \<lparr>li_Depth = 0, li_AncestorProjects = {task_ProjectID caller}, li_LineagePath = [task_ProjectID caller], li_Truncated = False\<rparr>"

section \<open>The step\<close>

text \<open>
  What the handler is given: the feature flag, whether a ledger is wired, the loaded projects, \<^verbatim>\<open>path.Match\<close>, Go's
  \<open>%q\<close>, the number at \<open>context.callDepth\<close> of a payload, the step's payload with its references resolved (or the
  encoding error), the callee's payload, \<^verbatim>\<open>time.ParseDuration\<close>, fresh ids, the decoded envelope (none for a JSON
  null), registered schemas, the result of a task's latest execution.
\<close>

record call_env =
  ca_flag :: bool
  ca_wired :: bool
  ca_project :: "string \<rightharpoonup> call_policy"
  ca_glob :: "string \<Rightarrow> string \<Rightarrow> bool"
  ca_quote :: "string \<Rightarrow> string"
  ca_callDepth :: "string \<Rightarrow> rat option"
  ca_payload :: "workflow_step \<Rightarrow> (string \<times> string) list \<Rightarrow> string + string"
  ca_calleePayload :: "string \<Rightarrow> int \<Rightarrow> string"
  ca_parseDuration :: "string \<Rightarrow> nanos option"
  ca_generateID :: "string \<Rightarrow> ledger \<Rightarrow> string \<times> ledger"
  ca_decode :: "string \<Rightarrow> string + json_object option"
  ca_schema :: "string \<Rightarrow> (json_object \<Rightarrow> string option) option"
  ca_execResult :: "string \<Rightarrow> ledger \<Rightarrow> string option"

definition readCarriedCallDepth :: "call_env \<Rightarrow> task \<Rightarrow> int" where
  "readCarriedCallDepth C task = (case task_Payload task of
       None \<Rightarrow> 0
     | Some payload \<Rightarrow>
         if payload = [] then 0
         else (case ca_callDepth C payload of
             None \<Rightarrow> 0
           | Some q \<Rightarrow> (let n = truncate_rat q in if n < 0 then 0 else n)))"

definition show_strings :: "string list \<Rightarrow> string" where
  "show_strings xs = ''['' @ concat (case xs of [] \<Rightarrow> [] | y # ys \<Rightarrow> y # map (\<lambda>x. '' '' @ x) ys) @ '']''"

definition errCrossProjectDisabled :: step_err where
  "errCrossProjectDisabled = plain_err ''call_project: inter-project orchestration disabled (set VORNIK_INTER_PROJECT_ENABLED=true and wire CrossProjectCallRepository)''"

text \<open>The checks before anything is written: the depth of the call, or the refusal.\<close>

definition admit_call :: "call_env \<Rightarrow> task \<Rightarrow> workflow_step \<Rightarrow> ledger \<Rightarrow> step_err + int" where
  "admit_call C task step s =
     (let target = ws_TargetProject step; caller = task_ProjectID task; q = ca_quote C
      in if \<not> ca_flag C \<or> \<not> ca_wired C then Inl errCrossProjectDisabled
         else (case ca_project C target of
             None \<Rightarrow> Inl (plain_err (''PROJECT_NOT_FOUND: callee project '' @ q target @ '' is not registered''))
           | Some callee \<Rightarrow>
               if (case ca_project C caller of Some p \<Rightarrow> \<not> CanCall (ca_glob C) p target | None \<Rightarrow> False)
               then Inl (plain_err (''CROSS_PROJECT_REJECTED: caller project '' @ q caller @ '' is not allowed to call '' @ q target @
                      '' (configure canCallProjects)''))
               else if \<not> AcceptsCallsFrom (ca_glob C) callee caller
               then Inl (plain_err (''CROSS_PROJECT_REJECTED: callee project '' @ q target @ '' does not accept calls from '' @ q caller @
                      '' (configure acceptCallsFrom)''))
               else (case walkCallerLineage q task (lg_db s) of
                   Inl e \<Rightarrow> Inl (plain_err (''LINEAGE_WALK_FAILED: could not verify call depth + cycle invariants: '' @ e))
                 | Inr lineage \<Rightarrow>
                     (let cap = EffectiveMaxCallDepth (ca_project C caller); carried = readCarriedCallDepth C task;
                          callerDepth = (if carried > li_Depth lineage then carried else li_Depth lineage);
                          proposed = callerDepth + 1
                      in if proposed > cap
                         then Inl (plain_err (''DEPTH_EXCEEDED: call_project would push chain to depth '' @ show_int proposed @ '' (caller='' @
                                caller @ '', cap='' @ show_int cap @ '' for project '' @ q caller @ '') '' @ map char_of [226, 128, 148 :: nat] @
                                '' set maxCallDepth on project '' @ q caller @ '' to allow deeper chains''))
                         else if target \<in> li_AncestorProjects lineage
                         then Inl (plain_err (''CYCLE_DETECTED: callee project '' @ q target @ '' is already an ancestor of caller task '' @
                                task_ID task @ '' (lineage='' @ show_strings (li_LineagePath lineage) @ '') '' @ map char_of [226, 128, 148 :: nat] @
                                '' break the cycle in the workflow design or split the recursive step into a non-recursive one''))
                         else Inr proposed))))"

definition call_row :: "call_env \<Rightarrow> task \<Rightarrow> string \<Rightarrow> workflow_step \<Rightarrow> string \<Rightarrow> nanos \<Rightarrow> cross_call" where
  "call_row C task stepID step payload now = \<lparr>cc_ID = [], cc_CallerTaskID = task_ID task, cc_CallerStepID = stepID,
     cc_CallerProject = task_ProjectID task, cc_CalleeProject = ws_TargetProject step, cc_CalleeWorkflow = ws_TargetWorkflow step,
     cc_CalleeTaskID = None, cc_Payload = payload, cc_ExpectedSchema = ws_ExpectSchema step, cc_Status = CPCStatusPending,
     cc_ResultEnvelope = None, cc_ErrorMessage = None,
     cc_TimeoutAt = (if ws_Timeout step = [] then None
       else (case ca_parseDuration C (ws_Timeout step) of Some t \<Rightarrow> if t > 0 then Some (now + t) else None | None \<Rightarrow> None)),
     cc_CreatedAt = 0, cc_ResolvedAt = None, cc_CancelOnTimeout = ws_CancelOnTimeout step\<rparr>"

definition callee_task :: "task \<Rightarrow> workflow_step \<Rightarrow> string \<Rightarrow> string \<Rightarrow> string \<Rightarrow> nanos \<Rightarrow> task" where
  "callee_task task step calleeID cpcID payload now = zero_task\<lparr>task_ID := calleeID, task_ProjectID := ws_TargetProject step,
     task_WorkflowID := Some (ws_TargetWorkflow step), task_ParentTaskID := Some (task_ID task),
     task_CreationSource := TaskCreationSourceDelegation, task_Status := TaskStatusQueued, task_Priority := 50,
     task_Payload := Some payload, task_Attempt := 1, task_MaxAttempts := 3, task_CreatedAt := now, task_UpdatedAt := now,
     task_CrossProjectCallID := Some cpcID\<rparr>"

definition handleCallProjectStep ::
  "call_env \<Rightarrow> task \<Rightarrow> string \<Rightarrow> workflow_step \<Rightarrow> (string \<times> string) list \<Rightarrow> ledger \<Rightarrow> (step_err + call_project_result) \<times> ledger" where
  "handleCallProjectStep C task stepID step results s =
     (case admit_call C task step s of
        Inl e \<Rightarrow> (Inl e, s)
      | Inr proposed \<Rightarrow>
     (case ca_payload C step results of
        Inl e \<Rightarrow> (Inl (plain_err (''call_project: marshal payload: '' @ e)), s)
      | Inr payload \<Rightarrow>
     (case cpcCreate (ca_generateID C) (Some (call_row C task stepID step payload (lg_now s))) s of
        (Inl e, s1) \<Rightarrow> (Inl (plain_err (''call_project: create CPC row: '' @ err_text e)), s1)
      | (Inr cpc, s1) \<Rightarrow>
     (case ca_generateID C ''task'' s1 of (calleeID, s2) \<Rightarrow>
      case pgCreate (Some (callee_task task step calleeID (cc_ID cpc) (ca_calleePayload C payload proposed) (lg_now s2))) (lg_db s2) of
        (Inl e, d) \<Rightarrow> (Inl (plain_err (''call_project: create callee task: '' @ err_text e)),
                       cpcMarkRejected (cc_ID cpc) (''callee task creation failed: '' @ err_text e) (s2\<lparr>lg_db := d\<rparr>))
      | (Inr _, d) \<Rightarrow> (Inr \<lparr>cp_CPCId = cc_ID cpc, cp_CalleeTaskID = calleeID, cp_PauseReason = PauseReasonAwaitingChildren\<rparr>,
                       snd (cpcSetCalleeTaskID (cc_ID cpc) calleeID (s2\<lparr>lg_db := d\<rparr>)))))))"

section \<open>Resolving a call\<close>

definition validateEnvelopeShape :: "json_object option \<Rightarrow> string \<Rightarrow> string" where
  "validateEnvelopeShape envelope expectedSchema = (case envelope of
       None \<Rightarrow> ''envelope is not a JSON object''
     | Some obj \<Rightarrow> (case map_of obj ''schema'' of
           None \<Rightarrow> ''envelope missing required field: schema''
         | Some (JStr schemaStr) \<Rightarrow>
             if schemaStr \<noteq> expectedSchema then ''envelope.schema = '' @ schemaStr @ '', caller expected '' @ expectedSchema
             else if map_of obj ''status'' = None then ''envelope missing required field: status'' else []
         | Some _ \<Rightarrow> ''envelope.schema must be a string''))"

text \<open>Why a parsed envelope is refused for the call; empty when it is accepted.\<close>

definition envelope_refusal :: "call_env \<Rightarrow> cross_call option \<Rightarrow> json_object option \<Rightarrow> string" where
  "envelope_refusal C cpc probe = (case cpc of
       None \<Rightarrow> []
     | Some c \<Rightarrow>
         if cc_ExpectedSchema c = [] then []
         else (let shape = validateEnvelopeShape probe (cc_ExpectedSchema c)
               in if shape \<noteq> [] then shape
                  else (case ca_schema C (cc_ExpectedSchema c) of
                      None \<Rightarrow> []
                    | Some validate \<Rightarrow> (case validate (case probe of Some obj \<Rightarrow> obj | None \<Rightarrow> []) of
                          Some e \<Rightarrow> ''envelope failed JSON-Schema validation: '' @ e | None \<Rightarrow> []))))"

definition resolveCrossProjectCallForTask :: "call_env \<Rightarrow> task \<Rightarrow> bool \<Rightarrow> ledger \<Rightarrow> ledger" where
  "resolveCrossProjectCallForTask C task succeeded s = (case task_CrossProjectCallID task of
       None \<Rightarrow> s
     | Some cpcID \<Rightarrow>
         if \<not> ca_wired C then s
         else if \<not> succeeded
         then cpcMarkFailed cpcID (case task_LastError task of
                Some e \<Rightarrow> if e \<noteq> [] then ''callee task failed: '' @ e else ''callee task terminated without success''
              | None \<Rightarrow> ''callee task terminated without success'') s
         else (let own = (case task_ResultEnvelope task of Some e \<Rightarrow> e | None \<Rightarrow> []);
                   envelope = (if own \<noteq> [] then own else (case ca_execResult C (task_ID task) s of Some r \<Rightarrow> r | None \<Rightarrow> []))
               in if envelope = [] then cpcMarkRejected cpcID ''callee task produced no result envelope'' s
                  else (case ca_decode C envelope of
                      Inl e \<Rightarrow> cpcMarkRejected cpcID (''envelope is not a JSON object: '' @ e) s
                    | Inr probe \<Rightarrow>
                        (let refusal = envelope_refusal C (case cpcGet cpcID s of Inr c \<Rightarrow> Some c | Inl _ \<Rightarrow> None) probe
                         in if refusal \<noteq> [] then cpcMarkRejected cpcID refusal s else cpcMarkCompleted cpcID envelope s))))"

section \<open>The timeout scanner\<close>

definition wakeCallerForTimeout :: "cross_call \<Rightarrow> ledger \<Rightarrow> ledger" where
  "wakeCallerForTimeout cpc s = (case pgGet (cc_CallerTaskID cpc) (lg_db s) of
       Inl _ \<Rightarrow> s
     | Inr task \<Rightarrow> if task_Status task \<noteq> TaskStatusWaitingForChildren then s
                  else s\<lparr>lg_db := snd (UpdateStatus (cc_CallerTaskID cpc) TaskStatusQueued (lg_db s))\<rparr>)"

definition cascadeCancelCallee :: "cross_call \<Rightarrow> ledger \<Rightarrow> ledger" where
  "cascadeCancelCallee cpc s = (case cc_CalleeTaskID cpc of
       None \<Rightarrow> s
     | Some taskID \<Rightarrow> (case pgGet taskID (lg_db s) of
           Inl _ \<Rightarrow> s
         | Inr task \<Rightarrow> if task_Status task \<in> {TaskStatusCompleted, TaskStatusFailed, TaskStatusCancelled} then s
                      else s\<lparr>lg_db := snd (UpdateStatus taskID TaskStatusCancelled (lg_db s))\<rparr>))"

definition processOne :: "cross_call \<Rightarrow> ledger \<Rightarrow> ledger" where
  "processOne cpc s = (let s1 = wakeCallerForTimeout cpc s
     in if cc_CancelOnTimeout cpc \<and> (case cc_CalleeTaskID cpc of Some i \<Rightarrow> i \<noteq> [] | None \<Rightarrow> False) then cascadeCancelCallee cpc s1 else s1)"

definition cpcTimeoutScannerBatchSize :: int where "cpcTimeoutScannerBatchSize = 100"

definition tick :: "(cross_call list \<Rightarrow> cross_call list) \<Rightarrow> bool option \<Rightarrow> ledger \<Rightarrow> ledger" where
  "tick returning leader s =
     (if leader = Some False then s
      else (case cpcClaimTimedOut returning (lg_now s) cpcTimeoutScannerBatchSize s of (rows, s1) \<Rightarrow> fold processOne rows s1))"

end
