(* ===== verification/CallProps.thy ===== *)
theory CallProps
  imports CrossCalls DaemonProps
begin

text \<open>
  Properties of calls between projects: the ledger settles every call at most once, chains of calls neither return
  to a project nor exceed the depth cap, and what happens to a call after it was admitted.
\<close>

section \<open>The ledger over all interleavings\<close>

datatype cpc_op =
    OpCreate cross_call
  | OpSetCallee string string
  | OpRunning string
  | OpCompleted string string
  | OpFailed string string
  | OpRejected string string
  | OpCancel string string
  | OpClaim nanos int
  | OpTasks db

fun cpc_step :: "(string \<Rightarrow> ledger \<Rightarrow> string \<times> ledger) \<Rightarrow> cpc_op \<Rightarrow> ledger \<Rightarrow> ledger" where
  "cpc_step gen (OpCreate c) s = snd (cpcCreate gen (Some c) s)"
| "cpc_step gen (OpSetCallee i t) s = snd (cpcSetCalleeTaskID i t s)"
| "cpc_step gen (OpRunning i) s = cpcMarkRunning i s"
| "cpc_step gen (OpCompleted i e) s = cpcMarkCompleted i e s"
| "cpc_step gen (OpFailed i r) s = cpcMarkFailed i r s"
| "cpc_step gen (OpRejected i r) s = cpcMarkRejected i r s"
| "cpc_step gen (OpCancel i r) s = cpcAdminCancel i r s"
| "cpc_step gen (OpClaim now n) s = snd (cpcClaimTimedOut (\<lambda>xs. xs) now n s)"
| "cpc_step gen (OpTasks d) s = s\<lparr>lg_db := d\<rparr>"

definition cpc_run :: "(string \<Rightarrow> ledger \<Rightarrow> string \<times> ledger) \<Rightarrow> cpc_op list \<Rightarrow> ledger \<Rightarrow> ledger" where
  "cpc_run gen ops s = fold (cpc_step gen) ops s"

text \<open>The declared life of a call.\<close>

inductive call_edge :: "cpc_status \<Rightarrow> cpc_status \<Rightarrow> bool" where
  leased: "call_edge CPCStatusPending CPCStatusRunning"
| settled: "\<not> IsTerminal st \<Longrightarrow> IsTerminal st' \<Longrightarrow> call_edge st st'"

inductive_cases call_edgeE: "call_edge st st'"

text \<open>What a row keeps of an earlier version of itself.\<close>

definition call_later :: "cross_call \<Rightarrow> cross_call \<Rightarrow> bool" where
  "call_later c c' \<longleftrightarrow> cc_ID c' = cc_ID c \<and> cc_CallerTaskID c' = cc_CallerTaskID c \<and> cc_CallerStepID c' = cc_CallerStepID c \<and>
     cc_CalleeProject c' = cc_CalleeProject c \<and> cc_ExpectedSchema c' = cc_ExpectedSchema c \<and> cc_Payload c' = cc_Payload c \<and>
     cc_TimeoutAt c' = cc_TimeoutAt c \<and> (cc_CalleeTaskID c \<noteq> None \<longrightarrow> cc_CalleeTaskID c' = cc_CalleeTaskID c) \<and>
     call_edge\<^sup>*\<^sup>* (cc_Status c) (cc_Status c') \<and>
     (IsTerminal (cc_Status c) \<longrightarrow> cc_Status c' = cc_Status c \<and> cc_ResultEnvelope c' = cc_ResultEnvelope c \<and>
        cc_ErrorMessage c' = cc_ErrorMessage c \<and> cc_ResolvedAt c' = cc_ResolvedAt c)"

lemma call_later_refl [simp]: "call_later c c"
  by (simp add: call_later_def)

lemma call_later_trans: "call_later a b \<Longrightarrow> call_later b c \<Longrightarrow> call_later a c"
  unfolding call_later_def by (metis rtranclp_trans)

lemma cpc_write_later:
  assumes "\<And>c. P c \<Longrightarrow> call_later c (f c)"
  shows "map cc_ID (lg_calls (cpc_write P f s)) = map cc_ID (lg_calls s)"
    and "c \<in> set (lg_calls s) \<Longrightarrow> \<exists>c' \<in> set (lg_calls (cpc_write P f s)). call_later c c'"
proof -
  have "cc_ID (f c) = cc_ID c" if "P c" for c using assms [OF that] by (simp add: call_later_def)
  then show "map cc_ID (lg_calls (cpc_write P f s)) = map cc_ID (lg_calls s)" by (simp add: cpc_write_def map_sql_update)
  show "\<exists>c' \<in> set (lg_calls (cpc_write P f s)). call_later c c'" if "c \<in> set (lg_calls s)"
  proof (cases "P c")
    case True
    then have "f c \<in> set (lg_calls (cpc_write P f s))" using that by (auto simp: cpc_write_def in_set_sql_update)
    with assms [OF True] show ?thesis by blast
  next
    case False
    then have "c \<in> set (lg_calls (cpc_write P f s))" using that by (auto simp: cpc_write_def in_set_sql_update)
    then show ?thesis using call_later_refl by blast
  qed
qed

lemma settle_later:
  assumes "\<not> IsTerminal (cc_Status c)" and "IsTerminal st"
  shows "call_later c (c\<lparr>cc_Status := st, cc_ResultEnvelope := e, cc_ErrorMessage := m, cc_ResolvedAt := t\<rparr>)"
  using assms by (auto simp: call_later_def intro: call_edge.settled)

lemma settle_rows:
  "open_call i c \<Longrightarrow> call_later c (c\<lparr>cc_Status := CPCStatusCompleted, cc_ResultEnvelope := e, cc_ResolvedAt := t\<rparr>)"
  "open_call i c \<Longrightarrow> call_later c (c\<lparr>cc_Status := CPCStatusFailed, cc_ErrorMessage := m, cc_ResolvedAt := t\<rparr>)"
  "open_call i c \<Longrightarrow> call_later c (c\<lparr>cc_Status := CPCStatusRejected, cc_ErrorMessage := m, cc_ResolvedAt := t\<rparr>)"
  "overdue now c \<Longrightarrow> call_later c (timed_out_call t' c)"
  "cc_Status c = CPCStatusPending \<Longrightarrow> call_later c (c\<lparr>cc_Status := CPCStatusRunning\<rparr>)"
  "cc_CalleeTaskID c = None \<Longrightarrow> call_later c (c\<lparr>cc_CalleeTaskID := Some i\<rparr>)"
  by (auto simp: call_later_def open_call_def overdue_def timed_out_call_def IsTerminal_def
      intro!: r_into_rtranclp call_edge.settled call_edge.leased)

lemma claimed_overdue:
  assumes "distinct (map cc_ID cs)" and "c \<in> set cs" and "cc_ID c \<in> set (claimed_ids now n cs)"
  shows "overdue now c"
proof -
  from assms(3) obtain c' where "c' \<in> set cs" "overdue now c'" "cc_ID c' = cc_ID c"
    by (auto simp: claimed_ids_def sql_limit_def dest!: in_set_takeD split: if_splits)
  with distinct_key_eq [OF assms(1)] assms(2) show ?thesis by metis
qed

lemma cpcCreate_calls:
  assumes "\<And>p s. lg_calls (snd (gen p s)) = lg_calls s" and "distinct (map cc_ID (lg_calls s))"
  obtains rows where "lg_calls (snd (cpcCreate gen (Some c) s)) = lg_calls s @ rows" "distinct (map cc_ID (lg_calls s @ rows))"
proof -
  obtain i s1 where g: "(if cc_ID c = [] then gen ''ccp'' s else (cc_ID c, s)) = (i, s1)" by (metis surj_pair)
  then have s1: "lg_calls s1 = lg_calls s" using assms(1) [of "''ccp''" s] by (auto split: if_splits)
  let ?row = "insert_call (lg_now s1) (c\<lparr>cc_ID := i, cc_Status := (if cc_Status c = CPCStatusOther [] then CPCStatusPending else cc_Status c)\<rparr>)"
  have row: "cc_ID ?row = i" by (simp add: insert_call_def)
  show thesis
  proof (cases "cc_Payload c = [] \<or> i \<in> cc_ID ` set (lg_calls s)")
    case True
    then show ?thesis using that [of "[]"] assms(2) g s1 by (auto simp: cpcCreate_def Let_def)
  next
    case False
    have "lg_calls (snd (cpcCreate gen (Some c) s)) = lg_calls s @ [?row]" using False g s1 by (simp add: cpcCreate_def Let_def)
    then show ?thesis using that [of "[?row]"] assms(2) False row by simp
  qed
qed

lemma cpc_step_later:
  assumes "distinct (map cc_ID (lg_calls s))" and gen: "\<And>p s. lg_calls (snd (gen p s)) = lg_calls s"
  shows "distinct (map cc_ID (lg_calls (cpc_step gen op s)))"
    and "c \<in> set (lg_calls s) \<Longrightarrow> \<exists>c' \<in> set (lg_calls (cpc_step gen op s)). call_later c c'"
proof -
  have upd: "distinct (map cc_ID (lg_calls (cpc_write P f s))) \<and> (c \<in> set (lg_calls s) \<longrightarrow>
      (\<exists>c' \<in> set (lg_calls (cpc_write P f s)). call_later c c'))" if "\<And>c. P c \<Longrightarrow> call_later c (f c)" for P f
    using cpc_write_later(1) [of P f, OF that, where s = s] cpc_write_later(2) [of P f, OF that, where s = s and c = c] assms(1) by simp
  have "distinct (map cc_ID (lg_calls (cpc_step gen op s))) \<and> (c \<in> set (lg_calls s) \<longrightarrow>
      (\<exists>c' \<in> set (lg_calls (cpc_step gen op s)). call_later c c'))"
  proof (cases op)
    case (OpCreate c0)
    from cpcCreate_calls [where gen = gen, OF gen] obtain rows where
      "lg_calls (cpc_step gen op s) = lg_calls s @ rows" "distinct (map cc_ID (lg_calls s @ rows))"
      using assms(1) OpCreate by (metis cpc_step.simps(1))
    then show ?thesis using call_later_refl by (metis Un_iff set_append)
  next
    case (OpSetCallee i t)
    show ?thesis
    proof (cases "t = []")
      case True
      then have "cpc_step gen op s = s" using OpSetCallee by (simp add: cpcSetCalleeTaskID_def)
      then show ?thesis using assms(1) call_later_refl by metis
    next
      case False
      then have "cpc_step gen op s = cpc_write (\<lambda>c. cc_ID c = i \<and> cc_CalleeTaskID c = None) (\<lambda>c. c\<lparr>cc_CalleeTaskID := Some t\<rparr>) s"
        using OpSetCallee by (simp add: cpcSetCalleeTaskID_def Let_def)
      then show ?thesis using settle_rows(6) by (simp only:) (intro upd, blast)
    qed
  next
    case (OpRunning i)
    show ?thesis unfolding OpRunning cpc_step.simps cpcMarkRunning_def using settle_rows(5) by (intro upd) auto
  next
    case (OpCompleted i e)
    show ?thesis unfolding OpCompleted cpc_step.simps cpcMarkCompleted_def by (intro upd settle_rows(1))
  next
    case (OpFailed i r)
    show ?thesis unfolding OpFailed cpc_step.simps cpcMarkFailed_def by (intro upd settle_rows(2))
  next
    case (OpRejected i r)
    show ?thesis unfolding OpRejected cpc_step.simps cpcMarkRejected_def by (intro upd settle_rows(3))
  next
    case (OpCancel i r)
    show ?thesis unfolding OpCancel cpc_step.simps cpcAdminCancel_def by (intro upd settle_rows(3))
  next
    case (OpClaim now n)
    let ?P = "\<lambda>c. c \<in> set (lg_calls s) \<and> cc_ID c \<in> set (claimed_ids now n (lg_calls s))"
    have "cpc_write (\<lambda>c. cc_ID c \<in> set (claimed_ids now n (lg_calls s))) (timed_out_call (lg_now s)) s
        = cpc_write ?P (timed_out_call (lg_now s)) s"
      by (simp add: cpc_write_def sql_update_def)
    moreover have "call_later c (timed_out_call (lg_now s) c)" if "?P c" for c
      using claimed_overdue [OF assms(1)] that settle_rows(4) by blast
    note upd [OF this]
    ultimately show ?thesis by (simp add: OpClaim cpcClaimTimedOut_def Let_def)
  next
    case (OpTasks d)
    then have "lg_calls (cpc_step gen op s) = lg_calls s" by simp
    then show ?thesis using assms(1) call_later_refl by metis
  qed
  then show "distinct (map cc_ID (lg_calls (cpc_step gen op s)))"
    and "c \<in> set (lg_calls s) \<Longrightarrow> \<exists>c' \<in> set (lg_calls (cpc_step gen op s)). call_later c c'" by auto
qed



section \<open>Lineage\<close>

text \<open>The projects on the way from a task to its root, the task's own first.\<close>

inductive lineage :: "db \<Rightarrow> task \<Rightarrow> string list \<Rightarrow> bool" for d where
  root: "task_ParentTaskID t = None \<or> task_ParentTaskID t = Some [] \<Longrightarrow> lineage d t [task_ProjectID t]"
| child: "task_ParentTaskID t = Some (task_ID r) \<Longrightarrow> task_ID r \<noteq> [] \<Longrightarrow> r \<in> set (db_tasks d) \<Longrightarrow> lineage d r ps \<Longrightarrow>
    lineage d t (task_ProjectID t # ps)"

inductive_cases lineageE: "lineage d t ps"

fun crossings :: "string list \<Rightarrow> nat" where
  "crossings (a # b # ps) = (if a = b then 0 else 1) + crossings (b # ps)"
| "crossings ps = 0"

definition lineage_key :: "task \<Rightarrow> string \<times> string option \<times> string" where
  "lineage_key t = (task_ID t, task_ParentTaskID t, task_ProjectID t)"

lemma lineage_hd: "lineage d t ps \<Longrightarrow> ps \<noteq> [] \<and> hd ps = task_ProjectID t"
  by (induction rule: lineage.induct) auto

lemma lineage_unique:
  assumes "distinct (map task_ID (db_tasks d))" and "lineage d t ps" and "lineage d t qs"
  shows "ps = qs"
  using assms(2,3)
proof (induction arbitrary: qs rule: lineage.induct)
  case (root t)
  from root.prems root.hyps show ?case by (cases rule: lineage.cases) auto
next
  case (child t r ps)
  from child.prems show ?case
  proof (cases rule: lineage.cases)
    case root
    with child.hyps(1,2) show ?thesis by simp
  next
    case (child r' qs')
    with \<open>task_ParentTaskID t = Some (task_ID r)\<close> have "task_ID r' = task_ID r" by simp
    then have "r' = r" using distinct_key_eq [OF assms(1)] \<open>r \<in> set (db_tasks d)\<close> local.child(4) by metis
    with child.IH local.child show ?thesis by simp
  qed
qed

text \<open>A lineage depends only on ids, parents and projects, and stays when rows are added.\<close>

lemma lineage_transfer:
  assumes "lineage d t ps" and "lineage_key t' = lineage_key t"
    and "\<And>r. r \<in> set (db_tasks d) \<Longrightarrow> \<exists>r' \<in> set (db_tasks d'). lineage_key r' = lineage_key r"
  shows "lineage d' t' ps"
  using assms(1,2)
proof (induction arbitrary: t' rule: lineage.induct)
  case (root t)
  then show ?case using lineage.root [of t' d'] by (simp add: lineage_key_def)
next
  case (child t r ps)
  from assms(3) [OF child.hyps(3)] obtain r' where r': "r' \<in> set (db_tasks d')" "lineage_key r' = lineage_key r" by blast
  have "lineage d' r' ps" by (rule child.IH [OF r'(2)])
  with r' child.hyps(1,2) child.prems show ?case using lineage.child [of t' r' d' ps] by (simp add: lineage_key_def)
qed

lemma pg_scanTask_simps [simp]:
  "task_ID (pg_scanTask t) = task_ID t" "task_ParentTaskID (pg_scanTask t) = task_ParentTaskID t"
  "task_ProjectID (pg_scanTask t) = task_ProjectID t" "task_Status (pg_scanTask t) = task_Status t"
  "task_CrossProjectCallID (pg_scanTask t) = None"
  by (simp_all add: pg_scanTask_def)

lemma lineage_key_scan [simp]: "lineage_key (pg_scanTask t) = lineage_key t"
  by (simp add: lineage_key_def)

lemma pgGet_row:
  "distinct (map task_ID (db_tasks d)) \<Longrightarrow> r \<in> set (db_tasks d) \<Longrightarrow> pgGet (task_ID r) d = Inr (pg_scanTask r)"
  by (simp add: pgGet_def filter_key_unique query_row_def)

lemma pgGet_Inr: "pgGet i d = Inr t \<Longrightarrow> \<exists>r \<in> set (db_tasks d). task_ID r = i \<and> t = pg_scanTask r"
  by (auto simp: pgGet_def query_row_Some filter_eq_Cons_iff split: option.splits)

text \<open>The walk finds the whole lineage when it has at most as many projects as hops allowed.\<close>

lemma walk_exact:
  assumes "distinct (map task_ID (db_tasks d))" and "lineage d t ps" and "length ps \<le> hops"
  shows "walk_parents quote d hops t out = Inr (out\<lparr>li_Depth := li_Depth out + int (crossings ps),
     li_AncestorProjects := li_AncestorProjects out \<union> set (tl ps), li_LineagePath := li_LineagePath out @ tl ps\<rparr>)"
  using assms(2,3)
proof (induction arbitrary: hops out rule: lineage.induct)
  case (root t)
  then show ?case by (cases hops) auto
next
  case (child t r ps)
  from child.prems obtain h where h: "hops = Suc h" "length ps \<le> h" by (cases hops) auto
  obtain qs where ps: "ps = task_ProjectID r # qs" using lineage_hd [OF child.hyps(4)] by (cases ps) auto
  have get: "pgGet (task_ID r) d = Inr (pg_scanTask r)" by (rule pgGet_row [OF assms(1) child.hyps(3)])
  have same: "walk_parents quote d h (pg_scanTask r) o' = walk_parents quote d h r o'" for o'
    by (cases h) (simp_all split: option.split sum.split)
  show ?case using h(1) child.hyps(1,2) get child.IH [OF h(2)] ps by (simp add: same)
qed

lemma lineage_scan: "lineage d (pg_scanTask t) ps = lineage d t ps"
  using lineage_transfer [of d "pg_scanTask t" ps t d] lineage_transfer [of d t ps "pg_scanTask t" d] lineage_key_scan by metis

lemma walkCallerLineage_exact:
  assumes "distinct (map task_ID (db_tasks d))" and "lineage d t ps" and "length ps \<le> 256"
  shows "walkCallerLineage quote t d = Inr \<lparr>li_Depth = int (crossings ps), li_AncestorProjects = set ps, li_LineagePath = ps, li_Truncated = False\<rparr>"
proof -
  obtain qs where "ps = task_ProjectID t # qs" using lineage_hd [OF assms(2)] by (cases ps) auto
  then show ?thesis using walk_exact [OF assms(1,2), of 256] assms(3) by (simp add: walkCallerLineage_def lineageWalkHardLimit_def)
qed

section \<open>Chains of calls\<close>

text \<open>
  How the tasks of a lineage come about: tasks without a parent, delegation inside a project, calls, and every
  change of rows that keeps their ids, parents and projects.
\<close>

inductive chain_step :: "call_env \<Rightarrow> ledger \<Rightarrow> ledger \<Rightarrow> bool" for C where
  root: "pgCreate (Some t) (lg_db s) = (Inr t', d) \<Longrightarrow> task_ParentTaskID t = None \<Longrightarrow> chain_step C s (s\<lparr>lg_db := d\<rparr>)"
| delegate: "p \<in> set (db_tasks (lg_db s)) \<Longrightarrow> task_ParentTaskID t = Some (task_ID p) \<Longrightarrow> task_ProjectID t = task_ProjectID p \<Longrightarrow>
    pgCreate (Some t) (lg_db s) = (Inr t', d) \<Longrightarrow> chain_step C s (s\<lparr>lg_db := d\<rparr>)"
| call: "pgGet i (lg_db s) = Inr task \<Longrightarrow> handleCallProjectStep C task stepID step results s = (Inr r, s') \<Longrightarrow> chain_step C s s'"
| other: "map lineage_key (db_tasks (lg_db s')) = map lineage_key (db_tasks (lg_db s)) \<Longrightarrow> chain_step C s s'"

definition chain_ok :: "int \<Rightarrow> string list \<Rightarrow> bool" where
  "chain_ok M ps \<longleftrightarrow> (length ps \<le> 256 \<longrightarrow> distinct (remdups_adj ps) \<and> int (crossings ps) \<le> M)"

definition chains_ok :: "int \<Rightarrow> db \<Rightarrow> bool" where
  "chains_ok M d \<longleftrightarrow> distinct (map task_ID (db_tasks d)) \<and> (\<forall>t \<in> set (db_tasks d). \<exists>ps. lineage d t ps \<and> chain_ok M ps)"

lemma pg_row_parent [simp]: "task_ParentTaskID (insert_row (create_defaults now t)) = task_ParentTaskID t"
  by (simp add: insert_row_def create_defaults_def Let_def)

lemma pgCreate_InrD:
  assumes "pgCreate (Some t) d = (Inr t', d')"
  shows "\<exists>row. db_tasks d' = db_tasks d @ [row] \<and> lineage_key row = lineage_key t \<and> distinct (map task_ID (db_tasks d'))"
  using assms
  by (auto simp: pgCreate_def Let_def lineage_key_def pg_insert_row_def split: if_splits)

lemma chains_ok_append:
  assumes "chains_ok M d" and "pgCreate (Some t) d = (Inr t', d')" and "lineage d t ps" and "chain_ok M ps"
  shows "chains_ok M d'"
proof -
  obtain row where row: "db_tasks d' = db_tasks d @ [row]" "lineage_key row = lineage_key t" "distinct (map task_ID (db_tasks d'))"
    using pgCreate_InrD [OF assms(2)] by blast
  have keep: "\<exists>r' \<in> set (db_tasks d'). lineage_key r' = lineage_key r" if "r \<in> set (db_tasks d)" for r
    using that row(1) by auto
  have "lineage d' row ps" by (rule lineage_transfer [OF assms(3) row(2) keep])
  moreover have "\<exists>qs. lineage d' r qs \<and> chain_ok M qs" if "r \<in> set (db_tasks d)" for r
    using assms(1) that lineage_transfer [OF _ refl keep] unfolding chains_ok_def by blast
  ultimately show ?thesis using row(1,3) assms(4) by (auto simp: chains_ok_def)
qed

lemma admit_call_ok:
  assumes "admit_call C task step s = Inr n" and "distinct (map task_ID (db_tasks (lg_db s)))" and "lineage (lg_db s) task ps"
    and "length ps \<le> 256"
  shows "ws_TargetProject step \<notin> set ps" and "int (crossings ps) + 1 \<le> n" and "n \<le> EffectiveMaxCallDepth (ca_project C (task_ProjectID task))"
  using assms(1) walkCallerLineage_exact [OF assms(2-4), of "ca_quote C"]
  by (auto simp: admit_call_def Let_def split: if_splits option.splits)

lemma handle_call_created:
  assumes "handleCallProjectStep C task stepID step results s = (Inr r, s')"
    and "\<And>p s. db_tasks (lg_db (snd (ca_generateID C p s))) = db_tasks (lg_db s)"
  obtains n t t' d d' where "admit_call C task step s = Inr n" "task_ParentTaskID t = Some (task_ID task)"
    "task_ProjectID t = ws_TargetProject step" "db_tasks d = db_tasks (lg_db s)" "pgCreate (Some t) d = (Inr t', d')" "lg_db s' = d'"
proof -
  from assms(1) obtain n payload cpc s1 where a: "admit_call C task step s = Inr n" and
    c: "cpcCreate (ca_generateID C) (Some (call_row C task stepID step payload (lg_now s))) s = (Inr cpc, s1)"
    and rest: "(case ca_generateID C ''task'' s1 of (calleeID, s2) \<Rightarrow>
      case pgCreate (Some (callee_task task step calleeID (cc_ID cpc) (ca_calleePayload C payload n) (lg_now s2))) (lg_db s2) of
        (Inl e, d) \<Rightarrow> (Inl (plain_err (''call_project: create callee task: '' @ err_text e)),
                       cpcMarkRejected (cc_ID cpc) (''callee task creation failed: '' @ err_text e) (s2\<lparr>lg_db := d\<rparr>))
      | (Inr _, d) \<Rightarrow> (Inr \<lparr>cp_CPCId = cc_ID cpc, cp_CalleeTaskID = calleeID, cp_PauseReason = PauseReasonAwaitingChildren\<rparr>,
                       snd (cpcSetCalleeTaskID (cc_ID cpc) calleeID (s2\<lparr>lg_db := d\<rparr>)))) = (Inr r, s')"
    unfolding handleCallProjectStep_def by (auto split: sum.splits prod.splits)
  obtain calleeID s2 where g: "ca_generateID C ''task'' s1 = (calleeID, s2)" by (metis surj_pair)
  let ?t = "callee_task task step calleeID (cc_ID cpc) (ca_calleePayload C payload n) (lg_now s2)"
  obtain res d' where p: "pgCreate (Some ?t) (lg_db s2) = (res, d')" by (metis surj_pair)
  have "db_tasks (lg_db s1) = db_tasks (lg_db s)"
    using c assms(2) [of "''ccp''" s] by (auto simp: cpcCreate_def call_row_def Let_def split: prod.splits if_splits)
  then have "db_tasks (lg_db s2) = db_tasks (lg_db s)" using assms(2) [of "''task''" s1] g by simp
  moreover from rest g p obtain t' where "res = Inr t'" and "lg_db s' = d'"
    by (cases res) (auto simp: cpcSetCalleeTaskID_def cpc_write_def Let_def split: if_splits)
  ultimately show thesis using that [OF a, of ?t "lg_db s2" t' d'] p by (simp add: callee_task_def)
qed


lemma chain_ok_cross:
  assumes "ps \<noteq> []" and "x \<notin> set ps" and "length ps \<le> 256 \<Longrightarrow> distinct (remdups_adj ps)" and "length ps \<le> 256 \<Longrightarrow> int (crossings ps) + 1 \<le> M"
  shows "chain_ok M (x # ps)"
proof -
  obtain y qs where ps: "ps = y # qs" using assms(1) by (cases ps) auto
  then have "remdups_adj (x # ps) = x # remdups_adj ps" "crossings (x # ps) = Suc (crossings ps)" using assms(2) by auto
  moreover have "distinct (remdups_adj ps)" "int (crossings ps) + 1 \<le> M" if "length (x # ps) \<le> 256"
    using that assms(3,4) by simp_all
  ultimately show ?thesis using assms(2) by (simp add: chain_ok_def add.commute)
qed

lemma chain_ok_same:
  assumes "chain_ok M ps" and "ps \<noteq> []"
  shows "chain_ok M (hd ps # ps)"
proof -
  obtain y qs where ps: "ps = y # qs" using assms(2) by (cases ps) auto
  then have "remdups_adj (hd ps # ps) = remdups_adj ps" "crossings (hd ps # ps) = crossings ps" by auto
  with assms(1) show ?thesis by (simp add: chain_ok_def)
qed

lemma same_image: "f ` A = f ` B \<Longrightarrow> x \<in> A \<Longrightarrow> \<exists>y \<in> B. f y = f x"
  by (metis imageE imageI)

lemma chains_ok_step:
  assumes "chain_step C s s'" and "chains_ok M (lg_db s)" and "\<And>p. EffectiveMaxCallDepth (ca_project C p) \<le> M"
    and "\<And>p s. db_tasks (lg_db (snd (ca_generateID C p s))) = db_tasks (lg_db s)" and "0 \<le> M"
  shows "chains_ok M (lg_db s')"
  using assms(1,2)
proof (cases rule: chain_step.cases)
  case (root t t' d)
  have "lineage (lg_db s) t [task_ProjectID t]" using root by (intro lineage.root) simp
  moreover have "chain_ok M [task_ProjectID t]" using assms(5) by (simp add: chain_ok_def)
  ultimately show ?thesis using chains_ok_append [OF assms(2) root(2)] root(1) by simp
next
  case (delegate p t t' d)
  from assms(2) delegate(2) obtain ps where ps: "lineage (lg_db s) p ps" "chain_ok M ps" by (auto simp: chains_ok_def)
  show ?thesis
  proof (cases "task_ID p = []")
    case True
    then have "lineage (lg_db s) t [task_ProjectID t]" using delegate by (intro lineage.root) simp
    moreover have "chain_ok M [task_ProjectID t]" using assms(5) by (simp add: chain_ok_def)
    ultimately show ?thesis using chains_ok_append [OF assms(2) delegate(5)] delegate(1) by simp
  next
    case False
    have "lineage (lg_db s) t (task_ProjectID t # ps)" by (rule lineage.child [OF delegate(3) False delegate(2) ps(1)])
    moreover have "chain_ok M (task_ProjectID t # ps)" using chain_ok_same [OF ps(2)] lineage_hd [OF ps(1)] delegate(4) by simp
    ultimately show ?thesis using chains_ok_append [OF assms(2) delegate(5)] delegate(1) by simp
  qed
next
  case (call i task stepID step results r)
  from pgGet_Inr [OF call(1)] obtain row where row: "row \<in> set (db_tasks (lg_db s))" "task = pg_scanTask row" by blast
  from assms(2) row(1) obtain ps where ps: "lineage (lg_db s) row ps" "chain_ok M ps" by (auto simp: chains_ok_def)
  have lin: "lineage (lg_db s) task ps" using ps(1) by (simp add: row(2) lineage_scan)
  from call(2) assms(4) obtain n t t' d d' where c: "admit_call C task step s = Inr n" "task_ParentTaskID t = Some (task_ID task)"
    "task_ProjectID t = ws_TargetProject step" "db_tasks d = db_tasks (lg_db s)" "pgCreate (Some t) d = (Inr t', d')" "lg_db s' = d'"
    by (rule handle_call_created)
  have same: "lineage d x qs = lineage (lg_db s) x qs" for x qs
    using lineage_transfer [of d x qs x "lg_db s"] lineage_transfer [of "lg_db s" x qs x d] c(4) by auto
  have ok: "chains_ok M d" using assms(2) by (simp add: chains_ok_def same c(4))
  note dist = assms(2) [unfolded chains_ok_def, THEN conjunct1]
  show ?thesis
  proof (cases "task_ID task = []")
    case True
    then have "lineage d t [task_ProjectID t]" using c(2) by (intro lineage.root) simp
    moreover have "chain_ok M [task_ProjectID t]" using assms(5) by (simp add: chain_ok_def)
    ultimately show ?thesis using chains_ok_append [OF ok c(5)] c(6) by simp
  next
    case False
    have "lineage d t (task_ProjectID t # ps)"
      using lineage.child [of t row d ps] c(2,4) False row ps(1) by (simp add: same)
    moreover have "chain_ok M (task_ProjectID t # ps)"
    proof (cases "length ps \<le> 256")
      case True
      note adm = admit_call_ok [OF c(1) dist lin True]
      have "int (crossings ps) + 1 \<le> M" using adm(2,3) assms(3) [of "task_ProjectID task"] by linarith
      then show ?thesis using chain_ok_cross [of ps "task_ProjectID t" M] lineage_hd [OF lin] adm(1) c(3) ps(2) True
        by (auto simp: chain_ok_def)
    next
      case False
      then show ?thesis by (simp add: chain_ok_def)
    qed
    ultimately show ?thesis using chains_ok_append [OF ok c(5)] c(6) by simp
  qed
next
  case other
  have keys: "lineage_key ` set (db_tasks (lg_db s')) = lineage_key ` set (db_tasks (lg_db s))" 
    using arg_cong [OF other, of set] by simp
  have keep: "\<exists>r' \<in> set (db_tasks (lg_db s')). lineage_key r' = lineage_key r" if "r \<in> set (db_tasks (lg_db s))" for r
    by (rule same_image [OF keys [symmetric] that])
  have "map task_ID (db_tasks (lg_db s')) = map fst (map lineage_key (db_tasks (lg_db s')))" by (simp add: lineage_key_def comp_def)
  also have "\<dots> = map task_ID (db_tasks (lg_db s))" unfolding other by (simp add: lineage_key_def comp_def)
  finally have dist: "distinct (map task_ID (db_tasks (lg_db s')))" using assms(2) by (simp add: chains_ok_def)
  have "\<exists>ps. lineage (lg_db s') t ps \<and> chain_ok M ps" if t: "t \<in> set (db_tasks (lg_db s'))" for t
  proof -
    from t keys obtain r where r: "r \<in> set (db_tasks (lg_db s))" "lineage_key t = lineage_key r"
      using same_image [OF keys t] by metis
    with assms(2) obtain ps where "lineage (lg_db s) r ps" "chain_ok M ps" by (auto simp: chains_ok_def)
    then show ?thesis using lineage_transfer [OF _ r(2) keep] by blast
  qed
  with dist show ?thesis by (simp add: chains_ok_def)
qed



section \<open>After a call was admitted\<close>

text \<open>What can happen to a call: a task ends and its finaliser resolves, a scan, any change of the task table or the clock.\<close>

datatype call_happening = Finished string bool | Scan "bool option" | Elsewhere db

fun call_event :: "call_env \<Rightarrow> (cross_call list \<Rightarrow> cross_call list) \<Rightarrow> call_happening \<Rightarrow> ledger \<Rightarrow> ledger" where
  "call_event C ret (Finished i ok) s = (case pgGet i (lg_db s) of
       Inl _ \<Rightarrow> s | Inr task \<Rightarrow> resolveCrossProjectCallForTask C task ok s)"
| "call_event C ret (Scan leader) s = tick ret leader s"
| "call_event C ret (Elsewhere d) s = s\<lparr>lg_db := d\<rparr>"

lemma read_task_resolves_nothing: "pgGet i d = Inr t \<Longrightarrow> resolveCrossProjectCallForTask C t ok s = s"
  using pgGet_Inr [of i d t] by (auto simp: resolveCrossProjectCallForTask_def)

lemma processOne_calls [simp]: "lg_calls (processOne c s) = lg_calls s"
  by (simp add: processOne_def wakeCallerForTimeout_def cascadeCancelCallee_def Let_def split: sum.split option.split)

lemma fold_processOne_calls [simp]: "lg_calls (fold processOne cs s) = lg_calls s"
  by (induction cs arbitrary: s) simp_all

lemma tick_calls:
  "lg_calls (tick ret leader s) = (if leader = Some False then lg_calls s
     else sql_update (\<lambda>c. cc_ID c \<in> set (claimed_ids (lg_now s) 100 (lg_calls s))) (timed_out_call (lg_now s)) (lg_calls s))"
  by (simp add: tick_def cpcClaimTimedOut_def cpcTimeoutScannerBatchSize_def Let_def cpc_write_def)

lemma tick_keeps:
  assumes "distinct (map cc_ID (lg_calls s))" and "c \<in> set (lg_calls s)" and "cc_TimeoutAt c = None"
  shows "distinct (map cc_ID (lg_calls (tick ret leader s))) \<and> c \<in> set (lg_calls (tick ret leader s))"
proof -
  have "cc_ID c \<notin> set (claimed_ids (lg_now s) 100 (lg_calls s))"
    using claimed_overdue [OF assms(1,2)] assms(3) by (auto simp: overdue_def)
  moreover have "map cc_ID (sql_update P (timed_out_call n) cs) = map cc_ID cs" for P n cs
    by (rule map_sql_update) (simp add: timed_out_call_def)
  ultimately show ?thesis using assms(1,2) by (simp add: tick_calls in_set_sql_update)
qed

lemma call_event_keeps:
  assumes "distinct (map cc_ID (lg_calls s))" and "c \<in> set (lg_calls s)" and "cc_TimeoutAt c = None"
  shows "distinct (map cc_ID (lg_calls (fold (call_event C ret) evs s))) \<and> c \<in> set (lg_calls (fold (call_event C ret) evs s))"
  using assms(1,2)
proof (induction evs arbitrary: s)
  case (Cons ev evs)
  have "distinct (map cc_ID (lg_calls (call_event C ret ev s))) \<and> c \<in> set (lg_calls (call_event C ret ev s))"
  proof (cases ev)
    case (Finished i ok)
    then have "call_event C ret ev s = s" using read_task_resolves_nothing [of i "lg_db s"] by (simp split: sum.split)
    with Cons.prems show ?thesis by simp
  next
    case (Scan leader)
    then show ?thesis using tick_keeps [OF Cons.prems assms(3)] by simp
  next
    case (Elsewhere d)
    with Cons.prems show ?thesis by simp
  qed
  with Cons.IH show ?case by simp
qed simp

lemma handle_call_recorded:
  assumes "handleCallProjectStep C task stepID step results s = (Inr r, s')" and "distinct (map cc_ID (lg_calls s))"
    and "\<And>p s. lg_calls (snd (ca_generateID C p s)) = lg_calls s" and "\<And>p s. fst (ca_generateID C p s) \<noteq> []"
  shows "\<exists>c \<in> set (lg_calls s'). distinct (map cc_ID (lg_calls s')) \<and> cc_ID c = cp_CPCId r \<and> cc_Status c = CPCStatusPending
    \<and> cc_CallerTaskID c = task_ID task \<and> cc_CalleeTaskID c = Some (cp_CalleeTaskID r) \<and> (ws_Timeout step = [] \<longrightarrow> cc_TimeoutAt c = None)"
proof -
  from assms(1) obtain n payload cpc s1 where
    c: "cpcCreate (ca_generateID C) (Some (call_row C task stepID step payload (lg_now s))) s = (Inr cpc, s1)"
    and rest: "(case ca_generateID C ''task'' s1 of (calleeID, s2) \<Rightarrow>
      case pgCreate (Some (callee_task task step calleeID (cc_ID cpc) (ca_calleePayload C payload n) (lg_now s2))) (lg_db s2) of
        (Inl e, d) \<Rightarrow> (Inl (plain_err (''call_project: create callee task: '' @ err_text e)),
                       cpcMarkRejected (cc_ID cpc) (''callee task creation failed: '' @ err_text e) (s2\<lparr>lg_db := d\<rparr>))
      | (Inr _, d) \<Rightarrow> (Inr \<lparr>cp_CPCId = cc_ID cpc, cp_CalleeTaskID = calleeID, cp_PauseReason = PauseReasonAwaitingChildren\<rparr>,
                       snd (cpcSetCalleeTaskID (cc_ID cpc) calleeID (s2\<lparr>lg_db := d\<rparr>)))) = (Inr r, s')"
    unfolding handleCallProjectStep_def by (auto split: sum.splits prod.splits)
  obtain i s0 where g0: "ca_generateID C ''ccp'' s = (i, s0)" by (metis surj_pair)
  let ?c = "(call_row C task stepID step payload (lg_now s))\<lparr>cc_ID := i\<rparr>" let ?row = "insert_call (lg_now s0) ?c"
  have s0: "lg_calls s0 = lg_calls s" using assms(3) [of "''ccp''" s] g0 by simp
  have cr: "cpc = ?c" "lg_calls s1 = lg_calls s @ [?row]" "i \<notin> cc_ID ` set (lg_calls s)"
    using c g0 s0 by (auto simp: cpcCreate_def call_row_def Let_def split: if_splits)
  obtain calleeID s2 where g: "ca_generateID C ''task'' s1 = (calleeID, s2)" by (metis surj_pair)
  have s2: "lg_calls s2 = lg_calls s @ [?row]" using assms(3) [of "''task''" s1] g cr(2) by simp
  have ne: "calleeID \<noteq> []" using assms(4) [of "''task''" s1] g by simp
  obtain res d where p: "pgCreate (Some (callee_task task step calleeID (cc_ID cpc) (ca_calleePayload C payload n) (lg_now s2))) (lg_db s2) = (res, d)"
    by (metis surj_pair)
  from rest g p have fin: "r = \<lparr>cp_CPCId = cc_ID cpc, cp_CalleeTaskID = calleeID, cp_PauseReason = PauseReasonAwaitingChildren\<rparr>"
    "s' = snd (cpcSetCalleeTaskID (cc_ID cpc) calleeID (s2\<lparr>lg_db := d\<rparr>))" by (auto split: sum.splits)
  have row: "cc_ID ?row = i" "cc_CalleeTaskID ?row = None" by (simp_all add: insert_call_def call_row_def)
  have "lg_calls s' = sql_update (\<lambda>c. cc_ID c = i \<and> cc_CalleeTaskID c = None) (\<lambda>c. c\<lparr>cc_CalleeTaskID := Some calleeID\<rparr>) (lg_calls s @ [?row])"
    using fin(2) ne s2 cr(1) by (simp add: cpcSetCalleeTaskID_def cpc_write_def Let_def)
  also have "\<dots> = lg_calls s @ [?row\<lparr>cc_CalleeTaskID := Some calleeID\<rparr>]"
    using cr(3) row by (auto simp: sql_update_def intro!: map_idI)
  finally show ?thesis using assms(2) cr(1,3) fin(1) by (auto simp: insert_call_def call_row_def)
qed

text \<open>
  \<^bold>\<open>C35.\<close> No call is ever resolved by its callee. The finalisers read the call's id from the task, but neither repository
  stores that column, so a task read back has none and resolving does nothing. Whatever tasks end, however often
  the scanner runs and whatever else happens to the tasks, an admitted call without a timeout stays pending.
\<close>

theorem call_never_resolved:
  assumes "handleCallProjectStep C task stepID step results s = (Inr r, s')" and "distinct (map cc_ID (lg_calls s))"
    and "\<And>p s. lg_calls (snd (ca_generateID C p s)) = lg_calls s" and "\<And>p s. fst (ca_generateID C p s) \<noteq> []"
    and "ws_Timeout step = []"
  shows "\<exists>c. cpcGet (cp_CPCId r) (fold (call_event C ret) evs s') = Inr c \<and> cc_Status c = CPCStatusPending
           \<and> cc_CalleeTaskID c = Some (cp_CalleeTaskID r)"
proof -
  from handle_call_recorded [OF assms(1-4)] assms(5) obtain c where c: "c \<in> set (lg_calls s')" "distinct (map cc_ID (lg_calls s'))"
    "cc_ID c = cp_CPCId r" "cc_Status c = CPCStatusPending" "cc_CalleeTaskID c = Some (cp_CalleeTaskID r)" "cc_TimeoutAt c = None" by auto
  let ?s = "fold (call_event C ret) evs s'"
  from call_event_keeps [OF c(2,1,6)] have k: "distinct (map cc_ID (lg_calls ?s))" "c \<in> set (lg_calls ?s)" by auto
  from filter_key_unique [OF k] c(3) have "cpcGet (cp_CPCId r) ?s = Inr (scanCrossProjectCall c)"
    by (simp add: cpcGet_def query_row_def)
  then show ?thesis using c(4,5) by (intro exI [of _ "scanCrossProjectCall c"]) (simp add: scanCrossProjectCall_def)
qed


section \<open>Timeouts\<close>

lemma row_of_UpdateStatus:
  assumes "declared_status st"
  shows "row_of j (snd (UpdateStatus i st d))
    = (if j = i then map_option (\<lambda>t. t\<lparr>task_Status := st, task_UpdatedAt := db_now d\<rparr>) (row_of j d) else row_of j d)"
proof -
  let ?f = "\<lambda>t :: task. t\<lparr>task_Status := st, task_UpdatedAt := db_now d\<rparr>"
  have "filter (\<lambda>t. task_ID t = j) (sql_update (\<lambda>t. task_ID t = i) ?f ts)
      = (if j = i then map ?f (filter (\<lambda>t. task_ID t = j) ts) else filter (\<lambda>t. task_ID t = j) ts)" for ts
    by (induction ts) auto
  then show ?thesis
    by (simp add: row_of_def UpdateStatus_declared [OF assms] query_row_def split: list.split)
qed

lemma pgGet_row_of: "pgGet i d = (case row_of i d of None \<Rightarrow> Inl ErrNotFound | Some t \<Rightarrow> Inr (pg_scanTask t))"
  by (simp add: pgGet_def row_of_def)

lemma declared_targets: "declared_status TaskStatusQueued" "declared_status TaskStatusCancelled"
  by (simp_all add: declared_status_def)

lemma wake_row:
  "row_of i (lg_db (wakeCallerForTimeout c s)) = (case row_of i (lg_db s) of
     Some r \<Rightarrow> if i = cc_CallerTaskID c \<and> task_Status r = TaskStatusWaitingForChildren
       then Some (r\<lparr>task_Status := TaskStatusQueued, task_UpdatedAt := lg_now s\<rparr>) else Some r
   | None \<Rightarrow> None)"
  by (auto simp: wakeCallerForTimeout_def pgGet_row_of row_of_UpdateStatus [OF declared_targets(1)] split: option.split)

lemma cancel_row:
  "cc_CalleeTaskID c \<noteq> Some i \<Longrightarrow> row_of i (lg_db (cascadeCancelCallee c s)) = row_of i (lg_db s)"
  by (auto simp: cascadeCancelCallee_def row_of_UpdateStatus [OF declared_targets(2)] split: option.split sum.split)

lemma processOne_row:
  assumes "cc_CancelOnTimeout c \<Longrightarrow> cc_CalleeTaskID c \<noteq> Some i"
  shows "row_of i (lg_db (processOne c s)) = row_of i (lg_db (wakeCallerForTimeout c s))"
  using assms cancel_row [of c i] by (auto simp: processOne_def Let_def)

lemma fold_wakes:
  assumes "row_of i (lg_db s) = Some r" and "task_Status r \<in> {TaskStatusWaitingForChildren, TaskStatusQueued}"
    and "\<And>c. c \<in> set cs \<Longrightarrow> cc_CancelOnTimeout c \<Longrightarrow> cc_CalleeTaskID c \<noteq> Some i"
    and "task_Status r = TaskStatusQueued \<or> (\<exists>c \<in> set cs. cc_CallerTaskID c = i)"
  shows "\<exists>r'. row_of i (lg_db (fold processOne cs s)) = Some r' \<and> task_Status r' = TaskStatusQueued"
  using assms
proof (induction cs arbitrary: s r)
  case (Cons c cs)
  let ?r = "if i = cc_CallerTaskID c \<and> task_Status r = TaskStatusWaitingForChildren
       then r\<lparr>task_Status := TaskStatusQueued, task_UpdatedAt := lg_now s\<rparr> else r"
  have "row_of i (lg_db (processOne c s)) = Some ?r"
    using processOne_row [of c i s] Cons.prems(1,3) by (simp add: wake_row)
  moreover have "task_Status ?r \<in> {TaskStatusWaitingForChildren, TaskStatusQueued}" using Cons.prems(2) by auto
  moreover have "task_Status ?r = TaskStatusQueued \<or> (\<exists>c \<in> set cs. cc_CallerTaskID c = i)" using Cons.prems(2,4) by auto
  ultimately show ?case using Cons.IH [of "processOne c s" ?r] Cons.prems(3) by simp
qed auto

lemma fold_keeps:
  assumes "\<And>c. c \<in> set cs \<Longrightarrow> cc_CallerTaskID c \<noteq> i" and "\<And>c. c \<in> set cs \<Longrightarrow> cc_CancelOnTimeout c \<Longrightarrow> cc_CalleeTaskID c \<noteq> Some i"
  shows "row_of i (lg_db (fold processOne cs s)) = row_of i (lg_db s)"
  using assms
proof (induction cs arbitrary: s)
  case (Cons c cs)
  have "row_of i (lg_db (processOne c s)) = row_of i (lg_db s)"
    using processOne_row [of c i s] Cons.prems by (auto simp: wake_row split: option.split)
  with Cons.IH [of "processOne c s"] Cons.prems show ?case by simp
qed simp

lemma tick_rows:
  assumes "leader \<noteq> Some False"
  obtains cs s1 where "tick ret leader s = fold processOne cs s1" and "lg_db s1 = lg_db s"
    and "cs = map scanCrossProjectCall (ret (filter (\<lambda>c. cc_ID c \<in> set (claimed_ids (lg_now s) 100 (lg_calls s)))
      (sql_update (\<lambda>c. cc_ID c \<in> set (claimed_ids (lg_now s) 100 (lg_calls s))) (timed_out_call (lg_now s)) (lg_calls s))))"
proof -
  obtain cs s1 where r: "cpcClaimTimedOut ret (lg_now s) 100 s = (cs, s1)" by (metis surj_pair)
  show thesis
  proof (rule that [of cs s1])
    show "tick ret leader s = fold processOne cs s1" using assms r by (simp add: tick_def cpcTimeoutScannerBatchSize_def)
    show "lg_db s1 = lg_db s" using r by (auto simp: cpcClaimTimedOut_def Let_def cpc_write_def)
    show "cs = map scanCrossProjectCall (ret (filter (\<lambda>c. cc_ID c \<in> set (claimed_ids (lg_now s) 100 (lg_calls s)))
      (sql_update (\<lambda>c. cc_ID c \<in> set (claimed_ids (lg_now s) 100 (lg_calls s))) (timed_out_call (lg_now s)) (lg_calls s))))"
      using r by (auto simp: cpcClaimTimedOut_def Let_def cpc_write_def)
  qed
qed

lemma timed_out_simps [simp]:
  "cc_ID (timed_out_call n c) = cc_ID c" "cc_CallerTaskID (timed_out_call n c) = cc_CallerTaskID c"
  "cc_CalleeTaskID (timed_out_call n c) = cc_CalleeTaskID c" "cc_CancelOnTimeout (timed_out_call n c) = cc_CancelOnTimeout c"
  "cc_ID (scanCrossProjectCall c) = cc_ID c" "cc_CallerTaskID (scanCrossProjectCall c) = cc_CallerTaskID c"
  "cc_CalleeTaskID (scanCrossProjectCall c) = cc_CalleeTaskID c" "cc_CancelOnTimeout (scanCrossProjectCall c) = cc_CancelOnTimeout c"
  by (simp_all add: timed_out_call_def scanCrossProjectCall_def)

text \<open>
  A timeout wakes its caller from whatever it is waiting for. Since answered calls stay pending, a call whose
  caller has long gone on can still time out; if the caller is then waiting for other children, the scan queues
  it all the same, with the child it is waiting for unfinished and untouched.
\<close>

theorem timeout_wakes_any_wait:
  assumes "leader \<noteq> Some False" and "\<And>xs. set (ret xs) = set xs" and "distinct (map task_ID (db_tasks (lg_db s)))"
    and "c \<in> set (lg_calls s)" and "cc_ID c \<in> set (claimed_ids (lg_now s) 100 (lg_calls s))"
    and "caller \<in> set (db_tasks (lg_db s))" and "task_ID caller = cc_CallerTaskID c" and "task_Status caller = TaskStatusWaitingForChildren"
    and "child \<in> set (db_tasks (lg_db s))" and "task_ParentTaskID child = Some (task_ID caller)"
    and "\<And>c'. c' \<in> set (lg_calls s) \<Longrightarrow> cc_CallerTaskID c' \<noteq> task_ID child"
    and "\<And>c' i. c' \<in> set (lg_calls s) \<Longrightarrow> cc_CancelOnTimeout c' \<Longrightarrow> i \<in> {task_ID child, task_ID caller} \<Longrightarrow> cc_CalleeTaskID c' \<noteq> Some i"
  shows "(\<exists>r. row_of (task_ID caller) (lg_db (tick ret leader s)) = Some r \<and> task_Status r = TaskStatusQueued)
       \<and> row_of (task_ID child) (lg_db (tick ret leader s)) = Some child"
proof -
  let ?ids = "set (claimed_ids (lg_now s) 100 (lg_calls s))"
  obtain cs s1 where t: "tick ret leader s = fold processOne cs s1" "lg_db s1 = lg_db s"
    and cs: "cs = map scanCrossProjectCall (ret (filter (\<lambda>c. cc_ID c \<in> ?ids)
      (sql_update (\<lambda>c. cc_ID c \<in> ?ids) (timed_out_call (lg_now s)) (lg_calls s))))" by (rule tick_rows [OF assms(1)])
  have "set cs = scanCrossProjectCall ` {x \<in> set (sql_update (\<lambda>c. cc_ID c \<in> ?ids) (timed_out_call (lg_now s)) (lg_calls s)). cc_ID x \<in> ?ids}"
    using cs assms(2) by auto
  also have "\<dots> = (\<lambda>c. scanCrossProjectCall (timed_out_call (lg_now s) c)) ` {x \<in> set (lg_calls s). cc_ID x \<in> ?ids}"
    by (auto simp: in_set_sql_update image_iff)
  finally have set_cs: "set cs = (\<lambda>c. scanCrossProjectCall (timed_out_call (lg_now s) c)) ` {x \<in> set (lg_calls s). cc_ID x \<in> ?ids}" .
  have row: "row_of (task_ID r) (lg_db s1) = Some r" if "r \<in> set (db_tasks (lg_db s))" for r
    using filter_key_unique [OF assms(3) that] t(2) by (simp add: row_of_def query_row_def)
  have "\<exists>r. row_of (task_ID caller) (lg_db (fold processOne cs s1)) = Some r \<and> task_Status r = TaskStatusQueued"
  proof (rule fold_wakes [OF row [OF assms(6)]])
    show "task_Status caller \<in> {TaskStatusWaitingForChildren, TaskStatusQueued}" using assms(8) by simp
    show "cc_CalleeTaskID x \<noteq> Some (task_ID caller)" if "x \<in> set cs" "cc_CancelOnTimeout x" for x
      using that assms(12) set_cs by auto
    show "task_Status caller = TaskStatusQueued \<or> (\<exists>x \<in> set cs. cc_CallerTaskID x = task_ID caller)"
      using assms(4,5,7) set_cs by auto
  qed
  moreover have "row_of (task_ID child) (lg_db (fold processOne cs s1)) = row_of (task_ID child) (lg_db s1)"
    using assms(11,12) set_cs by (intro fold_keeps) auto
  ultimately show ?thesis using t(1) row [OF assms(9)] by simp
qed


section \<open>The caller goes on\<close>


section \<open>Concrete calls\<close>

definition demo_calls :: call_env where
  "demo_calls = \<lparr>ca_flag = True, ca_wired = True,
     ca_project = [''a'' \<mapsto> \<lparr>cl_CanCallProjects = [], cl_AcceptCallsFrom = [], cl_MaxCallDepth = 0\<rparr>,
       ''b'' \<mapsto> \<lparr>cl_CanCallProjects = [], cl_AcceptCallsFrom = [''a''], cl_MaxCallDepth = 2\<rparr>],
     ca_glob = (\<lambda>_ _. False), ca_quote = quote_ascii, ca_callDepth = (\<lambda>_. None), ca_payload = (\<lambda>_ _. Inr ''{}''),
     ca_calleePayload = (\<lambda>p _. p), ca_parseDuration = (\<lambda>_. None), ca_generateID = (\<lambda>p s. (p @ ''_1'', s)),
     ca_decode = (\<lambda>_. Inl ''unexpected end of JSON input''), ca_schema = (\<lambda>_. None), ca_execResult = (\<lambda>_ _. None)\<rparr>"

definition call_root :: task where
  "call_root = zero_task\<lparr>task_ID := ''t0'', task_ProjectID := ''a'', task_Status := TaskStatusRunning, task_Priority := 50,
     task_CreationSource := TaskCreationSourceUser, task_Attempt := 1, task_MaxAttempts := 3, task_CreatedAt := 5, task_UpdatedAt := 5\<rparr>"

definition empty_ledger :: ledger where
  "empty_ledger = \<lparr>lg_db = \<lparr>db_tasks = [], db_messages = [], db_now = Minute, db_rand = []\<rparr>, lg_calls = []\<rparr>"

definition rooted_ledger :: ledger where
  "rooted_ledger = empty_ledger\<lparr>lg_db := snd (pgCreate (Some call_root) (lg_db empty_ledger))\<rparr>"

definition ask_step :: workflow_step where
  "ask_step = (plain_step ''call_project'' ''done'' ''failed'')\<lparr>ws_TargetProject := ''b'', ws_TargetWorkflow := ''w''\<rparr>"

abbreviation ask :: "(step_err + call_project_result) \<times> ledger" where
  "ask \<equiv> handleCallProjectStep demo_calls (pg_scanTask call_root) ''ask'' ask_step [] rooted_ledger"

lemma demo_gen:
  "lg_calls (snd (ca_generateID demo_calls p s)) = lg_calls s" "fst (ca_generateID demo_calls p s) \<noteq> []"
  "db_tasks (lg_db (snd (ca_generateID demo_calls p s))) = db_tasks (lg_db s)"
  by (simp_all add: demo_calls_def)

definition asked_task :: task where
  "asked_task = pg_insert_row (callee_task call_root ask_step ''task_1'' ''ccp_1'' ''{}'' Minute)"

lemma ask_admits: "admit_call demo_calls (pg_scanTask call_root) ask_step rooted_ledger = Inr 1" by code_simp

lemma rooted_now [simp]: "db_now (lg_db rooted_ledger) = Minute" by code_simp

lemma asked_created:
  "pgCreate (Some (callee_task (pg_scanTask call_root) ask_step ''task_1'' ''ccp_1'' ''{}'' Minute)) (lg_db rooted_ledger)
   = (Inr (callee_task call_root ask_step ''task_1'' ''ccp_1'' ''{}'' Minute), (lg_db rooted_ledger)\<lparr>db_tasks := [call_root, asked_task]\<rparr>)"
  by code_simp

lemma rooted_calls [simp]: "lg_calls rooted_ledger = []"
  by (simp add: rooted_ledger_def empty_ledger_def)

lemma ask_facts:
  "fst ask = Inr \<lparr>cp_CPCId = ''ccp_1'', cp_CalleeTaskID = ''task_1'', cp_PauseReason = PauseReasonAwaitingChildren\<rparr>"
  "map cc_ID (lg_calls (snd ask)) = [''ccp_1'']"
  "map task_ProjectID (db_tasks (lg_db (snd ask))) = [''a'', ''b'']"
proof -
  let ?row = "insert_call Minute ((call_row demo_calls (pg_scanTask call_root) ''ask'' ask_step ''{}'' Minute)\<lparr>cc_ID := ''ccp_1''\<rparr>)"
  have c: "cpcCreate (ca_generateID demo_calls) (Some (call_row demo_calls (pg_scanTask call_root) ''ask'' ask_step ''{}'' Minute)) rooted_ledger
    = (Inr ((call_row demo_calls (pg_scanTask call_root) ''ask'' ask_step ''{}'' Minute)\<lparr>cc_ID := ''ccp_1''\<rparr>), rooted_ledger\<lparr>lg_calls := [?row]\<rparr>)"
    by (simp add: cpcCreate_def call_row_def Let_def demo_calls_def)
  have demo: "ca_payload demo_calls ask_step [] = Inr ''{}''" "ca_generateID demo_calls = (\<lambda>p s. (p @ ''_1'', s))" "ca_calleePayload demo_calls = (\<lambda>p _. p)"
    by (simp_all add: demo_calls_def)
  have a: "ask = (Inr \<lparr>cp_CPCId = ''ccp_1'', cp_CalleeTaskID = ''task_1'', cp_PauseReason = PauseReasonAwaitingChildren\<rparr>,
     snd (cpcSetCalleeTaskID ''ccp_1'' ''task_1'' (rooted_ledger\<lparr>lg_calls := [?row], lg_db := (lg_db rooted_ledger)\<lparr>db_tasks := [call_root, asked_task]\<rparr>\<rparr>)))"
    using c asked_created by (simp add: handleCallProjectStep_def ask_admits demo)
  then show "fst ask = Inr \<lparr>cp_CPCId = ''ccp_1'', cp_CalleeTaskID = ''task_1'', cp_PauseReason = PauseReasonAwaitingChildren\<rparr>" by simp
  show "map cc_ID (lg_calls (snd ask)) = [''ccp_1'']"
    by (simp add: a cpcSetCalleeTaskID_def cpc_write_def sql_update_def insert_call_def Let_def)
  have "map task_ProjectID [call_root, asked_task] = [''a'', ''b'']"
    by (simp add: asked_task_def pg_insert_row_def insert_row_def callee_task_def ask_step_def call_root_def)
  then show "map task_ProjectID (db_tasks (lg_db (snd ask))) = [''a'', ''b'']"
    by (simp add: a cpcSetCalleeTaskID_def cpc_write_def Let_def)
qed

lemma ask_pair: "ask = (Inr \<lparr>cp_CPCId = ''ccp_1'', cp_CalleeTaskID = ''task_1'', cp_PauseReason = PauseReasonAwaitingChildren\<rparr>, snd ask)"
  using ask_facts(1) by (metis prod.collapse)


lemma ask_steps: "(chain_step demo_calls)\<^sup>*\<^sup>* empty_ledger (snd ask)"
proof -
  have "fst (pgCreate (Some call_root) (lg_db empty_ledger)) = Inr call_root" by code_simp
  then have "pgCreate (Some call_root) (lg_db empty_ledger) = (Inr call_root, snd (pgCreate (Some call_root) (lg_db empty_ledger)))"
    by (metis prod.collapse)
  then have "chain_step demo_calls empty_ledger rooted_ledger" unfolding rooted_ledger_def
    by (rule chain_step.root) (simp add: call_root_def zero_task_def)
  moreover have "pgGet ''t0'' (lg_db rooted_ledger) = Inr (pg_scanTask call_root)" by code_simp
  then have "chain_step demo_calls rooted_ledger (snd ask)" by (rule chain_step.call [OF _ ask_pair])
  ultimately show ?thesis by (meson r_into_rtranclp rtranclp_trans)
qed


theorem call_never_resolved_witness:
  "\<exists>c. cpcGet ''ccp_1'' (fold (call_event demo_calls (\<lambda>xs. xs)) [Finished ''task_1'' True, Scan None] (snd ask)) = Inr c
     \<and> cc_Status c = CPCStatusPending"
proof -
  have "ws_Timeout ask_step = []" by (simp add: ask_step_def plain_step_def)
  from call_never_resolved [OF ask_pair _ demo_gen(1,2) this, of "\<lambda>xs. xs" "[Finished ''task_1'' True, Scan None]"] show ?thesis by auto
qed

definition stale_call :: cross_call where
  "stale_call = \<lparr>cc_ID = ''c1'', cc_CallerTaskID = ''t0'', cc_CallerStepID = ''ask'', cc_CallerProject = ''a'', cc_CalleeProject = ''b'',
     cc_CalleeWorkflow = ''w'', cc_CalleeTaskID = Some ''t9'', cc_Payload = ''{}'', cc_ExpectedSchema = [], cc_Status = CPCStatusPending,
     cc_ResultEnvelope = None, cc_ErrorMessage = None, cc_TimeoutAt = Some Second, cc_CreatedAt = 5, cc_ResolvedAt = None,
     cc_CancelOnTimeout = False\<rparr>"

definition stale_ledger :: ledger where
  "stale_ledger = \<lparr>lg_db = \<lparr>db_tasks = [call_root\<lparr>task_Status := TaskStatusWaitingForChildren\<rparr>,
     call_root\<lparr>task_ID := ''t1'', task_ParentTaskID := Some ''t0''\<rparr>], db_messages = [], db_now = Minute, db_rand = []\<rparr>, lg_calls = [stale_call]\<rparr>"

theorem timeout_wakes_any_wait_witness:
  "\<exists>r. row_of ''t0'' (lg_db (tick (\<lambda>xs. xs) None stale_ledger)) = Some r \<and> task_Status r = TaskStatusQueued"
proof -
  let ?s = stale_ledger and ?caller = "call_root\<lparr>task_Status := TaskStatusWaitingForChildren\<rparr>"
    and ?child = "call_root\<lparr>task_ID := ''t1'', task_ParentTaskID := Some ''t0''\<rparr>"
  have "distinct (map task_ID (db_tasks (lg_db ?s)))" "stale_call \<in> set (lg_calls ?s)"
    "?caller \<in> set (db_tasks (lg_db ?s))" "task_ID ?caller = cc_CallerTaskID stale_call" "task_Status ?caller = TaskStatusWaitingForChildren"
    "?child \<in> set (db_tasks (lg_db ?s))" "task_ParentTaskID ?child = Some (task_ID ?caller)"
    by (simp_all add: stale_ledger_def call_root_def stale_call_def)
  moreover have "cc_ID stale_call \<in> set (claimed_ids (lg_now ?s) 100 (lg_calls ?s))" by code_simp
  moreover have "\<And>c'. c' \<in> set (lg_calls ?s) \<Longrightarrow> cc_CallerTaskID c' \<noteq> task_ID ?child" "\<And>c'. c' \<in> set (lg_calls ?s) \<Longrightarrow> \<not> cc_CancelOnTimeout c'"
    by (auto simp: stale_ledger_def stale_call_def)
  moreover have "task_ID ?caller = ''t0''" by (simp add: call_root_def)
  ultimately show ?thesis using timeout_wakes_any_wait [of None "\<lambda>xs. xs" ?s stale_call ?caller ?child] by simp
qed

definition calling_engine :: "db engine" where
  "calling_engine = (demo_engine (\<lambda>_. Inr ''{}''))\<lparr>en_callProject := (\<lambda>_ _ _ d. (Inr \<lparr>cp_CPCId = ''ccp_1'',
     cp_CalleeTaskID = ''task_1'', cp_PauseReason = PauseReasonAwaitingChildren\<rparr>, d))\<rparr>"

abbreviation demo_call_step :: workflow_step where
  "demo_call_step \<equiv> plain_step ''call_project'' ''done'' ''failed''"

abbreviation demo_call_result :: call_project_result where
  "demo_call_result \<equiv> \<lparr>cp_CPCId = ''ccp_1'', cp_CalleeTaskID = ''task_1'', cp_PauseReason = PauseReasonAwaitingChildren\<rparr>"

lemma calling_engine_saves:
  "case saveCheckpoint calling_engine (ls_exec demo_position) (ws_OnSuccess demo_call_step)
      (ls_completed demo_position @ [ls_current demo_position])
      ((ls_state demo_position)\<lparr>es_LastResult := call_result (en_quote calling_engine) demo_call_result,
         es_PausedReason := cp_PauseReason demo_call_result\<rparr>) wake_db of
     ((None, _), _) \<Rightarrow> True | ((Some _, _), _) \<Rightarrow> False"
  by code_simp


end
