(* ===== verification/Spec2Isabelle.thy ===== *)
theory Spec2Isabelle
  imports LeaderProps RateLimit ExternalWait WorkflowValidate DaemonRaces CallProps
begin

text \<open>
  \<^bold>\<open>vornik: a verification development of the orchestration core.\<close>

  The daemon takes tasks from a database, leases them to workers, runs each as a workflow of agent, gate,
  approval, plan, project and system steps, and writes the outcome back. Its parts and how they meet:
  the \<^emph>\<open>task table\<close> (\<^verbatim>\<open>src/internal/persistence/sqlite\<close>) is the shared state; the \<^emph>\<open>scheduler\<close>
  (\<^verbatim>\<open>src/internal/scheduler\<close>) leases rows of it, dispatches them, renews and recovers leases; the
  \<^emph>\<open>executor\<close> (\<^verbatim>\<open>src/internal/executor\<close>) runs the workflow loop, checkpoints its position after every
  step, pauses parents for their children and wakes them again, retries and finalises runs, and picks up
  interrupted ones after a restart; \<^emph>\<open>leader election\<close> decides which daemon may
  run singleton work; \<^emph>\<open>rate limiting\<close> guards admission; the \<^emph>\<open>external-wait monitor\<close> moves parked tasks on.
  All of them act on one task row through conditional SQL updates, so the theorems are about every
  interleaving of those updates.

  \<^bold>\<open>Conventions.\<close> Definitions keep the names of the Go functions; record fields carry a short prefix of
  their struct. Go errors are values (\<open>step_err\<close>, \<open>repo_error\<close>, sums and options); every early return is a
  branch. State is passed explicitly. A Go \<open>map\<close> is a HOL map; where Go walks a map, the order is an argument.
  Times are integer nanoseconds; float64 factors are rationals. Logging, metrics, tracing and live events
  change nothing that is read back and are left out. Code outside the repository (SQLite, JSON, clock,
  randomness, containers, language models) is an argument, constrained by named hypotheses where a theorem
  needs one.

  \<^bold>\<open>Theories, in the order of the imports.\<close>
  \<^item> \<^verbatim>\<open>Prelude\<close>: rows, updates and pages of SQL tables, decimal text, generic list facts, the collections
    \<open>sql_simps\<close>, \<open>status_simps\<close> and \<open>wf_intros\<close>.
  \<^item> \<^verbatim>\<open>TaskModel\<close>, \<^verbatim>\<open>TaskStateMachine\<close>: the task row and its lifecycle
    (\<^verbatim>\<open>persistence/models.go\<close>, \<^verbatim>\<open>scheduler/state_machine.go\<close>); \<open>ValidateTransition\<close> refines the declared
    relation \<open>lifecycle_edge\<close>, terminal statuses absorb.
  \<^item> \<^verbatim>\<open>SqliteTime\<close>, \<^verbatim>\<open>TaskStore\<close>, \<^verbatim>\<open>TaskLeasing\<close>, \<^verbatim>\<open>TaskTable\<close>: the SQLite task repository, one definition
    per method. Leasing is exclusive, respects the per-project cap and is never stuck; the table's constraints
    survive every sequence of calls; creation round-trips. Times are compared as text, which is exact only to
    the second.
  \<^item> \<^verbatim>\<open>TaskRepo\<close>: the repository interface as a record of operations and as the locale \<open>task_repository\<close>,
    interpreted by the SQLite definitions. The scheduler's lemmas are proved in the locale.
  \<^item> \<^verbatim>\<open>Scheduler\<close>, \<^verbatim>\<open>SchedulerProps\<close>, \<^verbatim>\<open>SchedulerWatch\<close>: scheduling passes, slot accounting, retries, the
    recovery sweep, the dispatch watch with lease renewal. The slot counter is exact in every reachable state
    of \<open>slot_step\<close>; a pass ends and fills every usable slot; retries are bounded.
  \<^item> \<^verbatim>\<open>LeaderElection\<close>, \<^verbatim>\<open>LeaderProps\<close>: both lock repositories behind the locale \<open>leader_lock_repository\<close>, the
    elector and the epoch fence; fence tokens strictly increase in every run of the replicas.
  \<^item> \<^verbatim>\<open>RateLimit\<close>: sliding windows and token buckets, with bounds on what they admit.
  \<^item> \<^verbatim>\<open>MessageStore\<close>, \<^verbatim>\<open>ExternalWait\<close>: the message repository, whose counters agree with the task rows, and the
    monitor that resumes and closes parked tasks.
  \<^item> \<^verbatim>\<open>GoStrings\<close>, \<^verbatim>\<open>AgentCall\<close>, \<^verbatim>\<open>AgentOutput\<close>, \<^verbatim>\<open>Gates\<close>, \<^verbatim>\<open>JsonScan\<close>: strings, errors and the agent's
    input; extraction and validation of the agent's answer; gate conditions; the JSON grammar as a scanner
    and Go's \<open>%q\<close> quoting.
  \<^item> \<^verbatim>\<open>StepRetry\<close>, \<^verbatim>\<open>ToolBudget\<close>, \<^verbatim>\<open>FailureClass\<close>: the retry layers around one agent run, the scaling of
    budgets and timeouts, the classification of errors.
  \<^item> \<^verbatim>\<open>ParentWake\<close>: waking a parent when its children are done, and its races.
  \<^item> \<^verbatim>\<open>WorkflowModel\<close>, \<^verbatim>\<open>WorkflowEngine\<close>, \<^verbatim>\<open>WorkflowProps\<close>: workflow definitions, execution state and
    checkpoints; the step loop; bounds, graph conformance, checkpoint round trip, and what errors leave behind.
    Everything the loop calls is a field of the record \<open>engine\<close> over an arbitrary state.
  \<^item> \<^verbatim>\<open>WorkflowValidate\<close>: load-time validation is exact, and validated workflows do not go wrong.
  \<^item> \<^verbatim>\<open>ExecutionStore\<close>: the SQLite execution repository, one definition per method, over the task database and
    the \<open>executions\<close> table. The table's constraints and each row's identity survive every sequence of calls;
    superseding is exact, snapshots round-trip, the batch lookup agrees with the single one.
  \<^item> \<^verbatim>\<open>ExecutorRun\<close>, \<^verbatim>\<open>ExecutorProps\<close>: one run of an execution (\<open>runExecution\<close>): the retry loop around workflow
    attempts, the finalisers \<open>handleSuccess\<close>, \<open>handleFailure\<close>, \<open>handleCancelled\<close>, continuation tasks
    (\<^verbatim>\<open>checkpoint.go\<close>) and the release of a recovered task. What the run calls is a field of the record
    \<open>run_env\<close>. Attempts share one budget with the scheduler's; the other theorems say what a finaliser writes
    when the context is done, the lease is lost or the run was recovered.
  \<^item> \<^verbatim>\<open>ExecutorDaemon\<close>, \<^verbatim>\<open>DaemonProps\<close>, \<^verbatim>\<open>DaemonRaces\<close>: the executor's table of running executions over the
    store: start, recovery, pause, resume, cancel, shutdown. In every reachable state of \<open>daemon_step\<close> a task
    has at most one goroutine; recovery starts exactly what it should, a graceful restart resumes everything;
    \<^verbatim>\<open>DaemonRaces\<close> composes this with the finalisers and the scheduler's watch.

  \<^item> \<^verbatim>\<open>CrossCalls\<close>, \<^verbatim>\<open>CallProps\<close>: calls between projects (\<^verbatim>\<open>executor/call_project.go\<close>, \<^verbatim>\<open>call_project_lineage.go\<close>,
    \<^verbatim>\<open>cpc_timeout_scanner.go\<close>): the ledger of calls and the two task methods they use, both of PostgreSQL
    (the SQLite ledger refuses every operation), admission by allow-lists, depth and lineage, resolution by the
    callee's finaliser, the timeout scanner. A call settles at most once under every interleaving; chains of
    calls never return to a project and respect the depth cap; an admitted call is never resolved by its
    callee, and its caller goes on at \<open>on_success\<close> whatever became of it.

  \<^bold>\<open>Bounds and fuel.\<close> The workflow loop terminates by its own iteration limit (a measure, no fuel); the retry
  loops by their attempt limits. The depth-first search of \<open>reachableFrom\<close> has its recursion depth as fuel; one
  more than the number of steps is enough (\<open>search_exact\<close>). The scheduler's pass recurses over the free slots.
  The lineage walk stops after 256 parents, as the code does.

  \<^bold>\<open>Not modelled.\<close> HTTP API, web UI, command line, chat channels, dispatcher, memory and retrieval, container
  runtime, MCP, service wiring and configuration: clients and glue around the core, or calls of external
  services. The PostgreSQL repositories promise what the SQLite ones do, in another dialect (the leader lock,
  modelled in both, and the ledger of calls apart). Of the executor, plan-step planning, artifact ingest, worktree handling,
  notifications, budget settlement and the handlers of spawn and A2A steps are parameters of the loop and of
  the run;
  goroutines other than the runs themselves (log streaming, the judge) are left out.
\<close>

end
